(* ===== verification/Prelude.thy ===== *)
theory Prelude
  imports Complex_Main "HOL-Library.Sublist"
begin

text \<open>
  Shared vocabulary of the development. Python dictionaries keep insertion order and
  unique keys; the code iterates over them (\<open>db_cache\<close>, the metadata file, the
  progress-queue registry), so a dictionary is modelled as an association list
  \<open>('k, 'v) pydict\<close> whose keys are distinct, with \<open>dict_get\<close>, \<open>dict_set\<close>
  (assignment \<open>d[k] = v\<close>: in place for a present key, appended otherwise) and
  \<open>dict_del\<close> (\<open>del d[k]\<close>). Their lemmas relate them to the abstract map
  \<open>'k \<rightharpoonup> 'v\<close>, which is what the component proofs use. The theory also holds
  Python's \<open>str.join\<close>, \<open>str(int)\<close> and the slice \<open>xs[-n:]\<close>.
\<close>

named_theorems dict_simps "equations of the dictionary model"

section \<open>Python dictionaries\<close>

type_synonym ('k, 'v) pydict = "('k \<times> 'v) list"

definition dict_get :: "('k, 'v) pydict \<Rightarrow> 'k \<Rightarrow> 'v option" where
  "dict_get d = map_of d"

definition dict_keys :: "('k, 'v) pydict \<Rightarrow> 'k list" where
  "dict_keys d = map fst d"

definition dict_mem :: "'k \<Rightarrow> ('k, 'v) pydict \<Rightarrow> bool" where
  "dict_mem k d = (k \<in> set (dict_keys d))"

fun dict_set :: "('k, 'v) pydict \<Rightarrow> 'k \<Rightarrow> 'v \<Rightarrow> ('k, 'v) pydict" where
  "dict_set [] k v = [(k, v)]"
| "dict_set ((k', v') # d) k v = (if k' = k then (k, v) # d else (k', v') # dict_set d k v)"

definition dict_del :: "('k, 'v) pydict \<Rightarrow> 'k \<Rightarrow> ('k, 'v) pydict" where
  "dict_del d k = filter (\<lambda>(k', _). k' \<noteq> k) d"

text \<open>\<open>d[k][f] = v\<close> and similar in-place updates of a stored value: \<open>f\<close> applied to the
  value under \<open>k\<close>, the dictionary unchanged when \<open>k\<close> is absent.\<close>

definition dict_upd :: "('k, 'v) pydict \<Rightarrow> 'k \<Rightarrow> ('v \<Rightarrow> 'v) \<Rightarrow> ('k, 'v) pydict" where
  "dict_upd d k f = map (\<lambda>(k', v). if k' = k then (k', f v) else (k', v)) d"

text \<open>\<open>d.update(kvs)\<close>: the pairs set in order.\<close>

definition dict_update :: "('k, 'v) pydict \<Rightarrow> ('k \<times> 'v) list \<Rightarrow> ('k, 'v) pydict" where
  "dict_update d kvs = fold (\<lambda>(k, v) d. dict_set d k v) kvs d"

text \<open>The well-formedness of a dictionary: no key occurs twice.\<close>

definition dict_wf :: "('k, 'v) pydict \<Rightarrow> bool" where
  "dict_wf d = distinct (dict_keys d)"

section \<open>Errors\<close>

text \<open>Python exceptions that the modelled code raises or lets through, as values: a failed
  external call (\<open>Service_error\<close> with the exception's name), a missing dictionary key,
  LangGraph's \<open>GraphRecursionError\<close>, an attribute access on \<open>None\<close>, a division
  by zero, a \<open>TypeError\<close> and a \<open>ValueError\<close>.\<close>

datatype error =
    Service_error string
  | Key_error string
  | Recursion_limit
  | Attribute_error string
  | Zero_division
  | Type_error string
  | Value_error string

section \<open>JSON values\<close>

text \<open>The values \<open>json.load\<close> produces, for the metadata file; an object keeps its keys
  in file order.\<close>

datatype json =
    JNull
  | JBool bool
  | JNum int
  | JStr string
  | JList "json list"
  | JObj "(string \<times> json) list"

text \<open>\<open>v.get(k, default)\<close> on a value read from JSON: an \<open>AttributeError\<close> unless it is an
  object.\<close>

definition json_get :: "json \<Rightarrow> string \<Rightarrow> json \<Rightarrow> error + json" where
  "json_get v k dflt =
     (case v of
        JObj obj \<Rightarrow> Inr (case dict_get obj k of Some x \<Rightarrow> x | None \<Rightarrow> dflt)
      | _ \<Rightarrow> Inl (Attribute_error ''get''))"

text \<open>Python truthiness of a JSON value.\<close>

fun json_truthy :: "json \<Rightarrow> bool" where
  "json_truthy JNull = False"
| "json_truthy (JBool b) = b"
| "json_truthy (JNum n) = (n \<noteq> 0)"
| "json_truthy (JStr s) = (s \<noteq> [])"
| "json_truthy (JList xs) = (xs \<noteq> [])"
| "json_truthy (JObj obj) = (obj \<noteq> [])"

section \<open>Python strings and lists\<close>

text \<open>\<open>sep.join(xs)\<close>.\<close>

fun py_join :: "string \<Rightarrow> string list \<Rightarrow> string" where
  "py_join sep [] = []"
| "py_join sep [x] = x"
| "py_join sep (x # y # xs) = x @ sep @ py_join sep (y # xs)"

text \<open>\<open>str(n)\<close> for a non-negative and for any Python integer.\<close>

fun py_str_nat :: "nat \<Rightarrow> string" where
  "py_str_nat n =
     (if n < 10 then [char_of (48 + n)]
      else py_str_nat (n div 10) @ [char_of (48 + n mod 10)])"

definition py_str_int :: "int \<Rightarrow> string" where
  "py_str_int i = (if i < 0 then ''-'' @ py_str_nat (nat (- i)) else py_str_nat (nat i))"

text \<open>\<open>xs[-n:]\<close> for \<open>n > 0\<close>: the last \<open>n\<close> elements.\<close>

text \<open>\<open>[f(x) for x in xs]\<close> where \<open>f\<close> may raise: the first exception propagates.\<close>

fun map_err :: "('a \<Rightarrow> error + 'b) \<Rightarrow> 'a list \<Rightarrow> error + 'b list" where
  "map_err f [] = Inr []"
| "map_err f (x # xs) =
     (case f x of Inl e \<Rightarrow> Inl e | Inr y \<Rightarrow> (case map_err f xs of Inl e \<Rightarrow> Inl e | Inr ys \<Rightarrow> Inr (y # ys)))"

text \<open>Python strings are sequences of code points; the model's strings are their UTF-8
  bytes. A code point starts at every byte that is not a continuation byte
  \<open>10xxxxxx\<close>, so \<open>len(s)\<close> counts those bytes and \<open>s[:n]\<close> keeps the bytes before the
  \<open>n+1\<close>-st of them.\<close>

definition utf8_cont :: "char \<Rightarrow> bool" where
  "utf8_cont c = ((128 :: nat) \<le> of_char c \<and> (of_char c :: nat) < 192)"

definition cp_len :: "string \<Rightarrow> nat" where
  "cp_len s = length (filter (\<lambda>c. \<not> utf8_cont c) s)"

fun cp_take :: "nat \<Rightarrow> string \<Rightarrow> string" where
  "cp_take n [] = []"
| "cp_take n (c # cs) =
     (if utf8_cont c then c # cp_take n cs
      else if n = 0 then [] else c # cp_take (n - 1) cs)"

definition py_last :: "nat \<Rightarrow> 'a list \<Rightarrow> 'a list" where
  "py_last n xs = drop (length xs - n) xs"

section \<open>Lemmas on dictionaries\<close>

lemma dict_get_set [dict_simps]: "dict_get (dict_set d k v) = (dict_get d)(k \<mapsto> v)"
  by (induction d) (auto simp: dict_get_def fun_eq_iff)

lemma dict_keys_set [dict_simps]:
  "dict_keys (dict_set d k v) = (if k \<in> set (dict_keys d) then dict_keys d else dict_keys d @ [k])"
  by (induction d) (force simp: dict_keys_def)+

lemma dict_get_del [dict_simps]:
  "dict_wf d \<Longrightarrow> dict_get (dict_del d k) = (dict_get d)(k := None)"
  by (induction d) (auto simp: dict_get_def dict_del_def dict_wf_def dict_keys_def fun_eq_iff)

lemma dict_keys_del [dict_simps]: "dict_keys (dict_del d k) = filter (\<lambda>k'. k' \<noteq> k) (dict_keys d)"
  by (induction d) (auto simp: dict_keys_def dict_del_def)

lemma dict_mem_iff [dict_simps]: "dict_mem k d = (dict_get d k \<noteq> None)"
  by (simp add: dict_mem_def dict_get_def dict_keys_def map_of_eq_None_iff)

lemma dict_get_del_other [dict_simps]: "k' \<noteq> k \<Longrightarrow> dict_get (dict_del d k) k' = dict_get d k'"
  by (induction d) (auto simp: dict_get_def dict_del_def)

lemma dict_del_set_fresh: "\<not> dict_mem k d \<Longrightarrow> dict_del (dict_set d k v) k = d"
  by (induction d) (auto simp: dict_del_def dict_mem_def dict_keys_def intro: filter_True)

lemma dict_mem_set [dict_simps]: "dict_mem k' (dict_set d k v) = (k' = k \<or> dict_mem k' d)"
  by (auto simp: dict_mem_iff dict_get_set)

lemma dict_get_del_same [dict_simps]: "dict_get (dict_del d k) k = None"
  by (induction d) (auto simp: dict_get_def dict_del_def)

lemma dict_get_del_Some: "dict_get (dict_del d k) k' = Some v \<Longrightarrow> dict_get d k' = Some v"
  by (cases "k' = k") (simp_all add: dict_get_del_same dict_get_del_other)

lemma dict_mem_del [dict_simps]: "k' \<noteq> k \<Longrightarrow> dict_mem k' (dict_del d k) = dict_mem k' d"
  by (simp add: dict_mem_iff dict_get_del_other)

lemma dict_get_upd [dict_simps]:
  "dict_get (dict_upd d k f) = (dict_get d)(k := map_option f (dict_get d k))"
  by (induction d) (auto simp: dict_upd_def dict_get_def fun_eq_iff)

lemma dict_keys_upd [dict_simps]: "dict_keys (dict_upd d k f) = dict_keys d"
  by (induction d) (auto simp: dict_upd_def dict_keys_def)

lemma dict_wf_set [intro]: "dict_wf d \<Longrightarrow> dict_wf (dict_set d k v)"
  by (simp add: dict_wf_def dict_keys_set)

lemma dict_wf_del [intro]: "dict_wf d \<Longrightarrow> dict_wf (dict_del d k)"
  by (simp add: dict_wf_def dict_keys_del)

lemma dict_wf_Nil [simp, intro]: "dict_wf []"
  by (simp add: dict_wf_def dict_keys_def)

lemma dict_get_Nil [simp]: "dict_get [] k = None"
  by (simp add: dict_get_def)

lemma dict_keys_Nil [simp]: "dict_keys [] = []"
  by (simp add: dict_keys_def)

lemma dict_set_present:
  "dict_get d k \<noteq> None \<Longrightarrow> length (dict_set d k v) = length d"
  by (induction d) (auto simp: dict_get_def)

lemma dict_all_get: "dict_wf d \<Longrightarrow> (\<forall>(k, v) \<in> set d. P k v) = (\<forall>k v. dict_get d k = Some v \<longrightarrow> P k v)"
  by (auto simp: dict_get_def dict_wf_def dict_keys_def dest: map_of_SomeD intro: map_of_is_SomeI)

lemma dict_keys_mem: "(k \<in> set (dict_keys d)) = (dict_get d k \<noteq> None)"
  using dict_mem_iff [of k d] by (simp add: dict_mem_def)

lemma dict_wf_upd [simp]: "dict_wf (dict_upd d k f) = dict_wf d"
  by (simp add: dict_wf_def dict_keys_upd)

lemma dict_get_map_snd [dict_simps]:
  "dict_get (map (\<lambda>(k, v). (k, f k v)) d) k = map_option (f k) (dict_get d k)"
  by (induction d) (auto simp: dict_get_def)

lemma dict_mem_map_snd [simp]: "dict_mem k (map (\<lambda>(k, v). (k, f k v)) d) = dict_mem k d"
  by (simp add: dict_mem_iff dict_get_map_snd)

lemma dict_set_same: "dict_get d k = Some v \<Longrightarrow> dict_set d k v = d"
  by (induction d) (auto simp: dict_get_def split: if_splits)

lemma dict_set_fresh: "dict_get d k = None \<Longrightarrow> dict_set d k v = d @ [(k, v)]"
  by (induction d) (auto simp: dict_get_def split: if_splits)

lemma dict_update_fresh:
  "distinct (map fst kvs) \<Longrightarrow> set (map fst kvs) \<inter> set (map fst d) = {} \<Longrightarrow> dict_update d kvs = d @ kvs"
proof (induction kvs arbitrary: d)
  case (Cons kv kvs)
  obtain k v where kv: "kv = (k, v)" by (cases kv)
  have "dict_get d k = None" using Cons.prems kv by (auto simp: dict_get_def map_of_eq_None_iff)
  then have "dict_update d (kv # kvs) = dict_update (d @ [(k, v)]) kvs"
    by (simp add: dict_update_def kv dict_set_fresh)
  also have "\<dots> = d @ kv # kvs" using Cons.prems kv by (subst Cons.IH) auto
  finally show ?case .
qed (simp add: dict_update_def)

lemma dict_get_update: "dict_get (dict_update d kvs) = dict_get d ++ map_of (rev kvs)"
  by (induction kvs arbitrary: d) (auto simp: dict_update_def dict_get_set map_add_upd_left)

lemma dict_get_update_key:
  "distinct (map fst kvs) \<Longrightarrow> (k, v) \<in> set kvs \<Longrightarrow> dict_get (dict_update d kvs) k = Some v"
  by (simp add: dict_get_update map_of_is_SomeI distinct_rev rev_map [symmetric])

lemma dict_get_update_other:
  "k \<notin> set (map fst kvs) \<Longrightarrow> dict_get (dict_update d kvs) k = dict_get d k"
proof -
  assume "k \<notin> set (map fst kvs)"
  then have "map_of (rev kvs) k = None" by (simp add: map_of_eq_None_iff)
  then show ?thesis by (simp add: dict_get_update map_add_def)
qed

lemma dict_mem_update: "dict_mem k d \<Longrightarrow> dict_mem k (dict_update d kvs)"
  by (auto simp: dict_mem_iff dict_get_update)

lemma dict_get_distinct_mem:
  "distinct (map fst d) \<Longrightarrow> (k, v) \<in> set d \<Longrightarrow> dict_get d k = Some v"
  by (simp add: dict_get_def)

lemma dict_get_SomeD: "dict_get d k = Some v \<Longrightarrow> (k, v) \<in> set d"
  by (simp add: dict_get_def map_of_SomeD)

lemma map_snd_dict_set:
  "map (\<lambda>(k, v). (k, f k v)) (dict_set d k v) = dict_set (map (\<lambda>(k, v). (k, f k v)) d) k (f k v)"
  by (induction d) auto

lemma map_snd_dict_del:
  "map (\<lambda>(k, v). (k, f k v)) (dict_del d x) = dict_del (map (\<lambda>(k, v). (k, f k v)) d) x"
  by (induction d) (auto simp: dict_del_def)

lemma dict_set_twice [simp]: "dict_set (dict_set d k v) k w = dict_set d k w"
  by (induction d) auto

lemma fold_preserve: "P c \<Longrightarrow> (\<And>x c. P c \<Longrightarrow> P (f x c)) \<Longrightarrow> P (fold f xs c)"
  by (induction xs arbitrary: c) auto


section \<open>Lemmas on strings and lists\<close>

lemma py_last_length [simp]: "length (py_last n xs) = min n (length xs)"
  by (simp add: py_last_def)

lemma py_last_suffix: "suffix (py_last n xs) xs"
  by (simp add: py_last_def suffix_drop)

lemma py_last_all [simp]: "length xs \<le> n \<Longrightarrow> py_last n xs = xs"
  by (simp add: py_last_def)

declare py_str_nat.simps [simp del]

lemma py_last_append_last: "py_last n (py_last n xs @ ys) = py_last n (xs @ ys)"
  by (cases "n \<le> length xs") (auto simp: py_last_def add.commute)


lemma py_str_nat_nonempty [simp]: "py_str_nat n \<noteq> []"
  by (subst py_str_nat.simps) simp

end
