(* ===== verification/Url.thy ===== *)
theory Url
  imports Prelude
begin

text \<open>
  Percent-encoding as the code uses it. \<open>document_manager.preserve_filename\<close> stores an
  uploaded file under \<open>urllib.parse.quote(filename)\<close> and \<open>restore_filename\<close> shows it
  again with \<open>urllib.parse.unquote\<close>; \<open>rag.format_rag_docs\<close> unquotes the source path
  of every retrieved document. Strings are byte strings here (a \<open>char\<close> is a byte, a
  Python string is its UTF-8 encoding), which is what \<open>quote\<close> encodes and what
  \<open>unquote\<close> decodes; the model assumes, as the code does, that the decoded bytes are
  valid UTF-8 (Python would substitute U+FFFD otherwise).
\<close>

section \<open>quote\<close>

text \<open>\<open>quote(s, safe='/')\<close>: the always-safe bytes \<open>A-Z a-z 0-9 _ . - ~\<close> and the
  default safe byte \<open>/\<close> are kept, every other byte becomes \<open>%XX\<close> (upper-case hex).\<close>

definition url_safe_char :: "char \<Rightarrow> bool" where
  "url_safe_char c =
     (let n = (of_char c :: nat)
      in (65 \<le> n \<and> n \<le> 90) \<or> (97 \<le> n \<and> n \<le> 122) \<or> (48 \<le> n \<and> n \<le> 57)
         \<or> c \<in> set ''_.-~/'')"

definition hex_digit :: "nat \<Rightarrow> char" where
  "hex_digit n = (if n < 10 then char_of (48 + n) else char_of (55 + n))"

definition url_quote_char :: "char \<Rightarrow> string" where
  "url_quote_char c =
     (if url_safe_char c then [c]
      else [CHR ''%'', hex_digit (of_char c div 16), hex_digit (of_char c mod 16)])"

definition url_quote :: "string \<Rightarrow> string" where
  "url_quote s = concat (map url_quote_char s)"

section \<open>unquote\<close>

text \<open>\<open>unquote(s)\<close>: every \<open>%\<close> followed by two hex digits (either case) is the byte
  they denote; any other \<open>%\<close> is kept as it is.\<close>

definition hex_val :: "char \<Rightarrow> nat option" where
  "hex_val c =
     (let n = (of_char c :: nat)
      in if 48 \<le> n \<and> n \<le> 57 then Some (n - 48)
         else if 65 \<le> n \<and> n \<le> 70 then Some (n - 55)
         else if 97 \<le> n \<and> n \<le> 102 then Some (n - 87)
         else None)"

fun url_unquote :: "string \<Rightarrow> string" where
  "url_unquote [] = []"
| "url_unquote (c # cs) =
     (if c = CHR ''%'' then
        (case cs of
           a # b # rest \<Rightarrow>
             (case (hex_val a, hex_val b) of
                (Some x, Some y) \<Rightarrow> char_of (16 * x + y) # url_unquote rest
              | _ \<Rightarrow> c # url_unquote cs)
         | _ \<Rightarrow> c # url_unquote cs)
      else c # url_unquote cs)"

text \<open>\<open>preserve_filename\<close> and \<open>restore_filename\<close> of \<open>document_manager.py\<close>.\<close>

definition preserve_filename :: "string \<Rightarrow> string" where
  "preserve_filename filename = url_quote filename"

definition restore_filename :: "string \<Rightarrow> string" where
  "restore_filename encoded = url_unquote encoded"

section \<open>Lemmas\<close>

lemma hex_val_hex_digit [simp]: "n < 16 \<Longrightarrow> hex_val (hex_digit n) = Some n"
  by (auto simp: hex_val_def hex_digit_def Let_def)

lemma char_of_hex_split [simp]:
  "char_of (16 * (of_char c div 16) + of_char c mod 16 :: nat) = c"
  by simp

lemma percent_not_safe [simp]: "\<not> url_safe_char CHR ''%''"
  by (simp add: url_safe_char_def)

lemma url_unquote_quote_char:
  "url_unquote (url_quote_char c @ s) = c # url_unquote s"
proof (cases "url_safe_char c")
  case True
  then have "c \<noteq> CHR ''%''" by auto
  with True show ?thesis by (simp add: url_quote_char_def)
next
  case False
  have "of_char c div 16 < (16::nat)"
    using nat_of_char_less_256 [of c] by linarith
  then show ?thesis using False by (simp add: url_quote_char_def)
qed

lemma url_quote_Cons: "url_quote (c # s) = url_quote_char c @ url_quote s"
  by (simp add: url_quote_def)

lemma url_quote_safe_id: "\<forall>c \<in> set s. url_safe_char c \<Longrightarrow> url_quote s = s"
  by (induction s) (auto simp: url_quote_def url_quote_char_def)

lemma url_unquote_quote: "url_unquote (url_quote f) = f"
  by (induction f) (simp_all add: url_quote_def url_unquote_quote_char [unfolded url_quote_def])

lemma hex_digit_code: "n < 16 \<Longrightarrow> (of_char (hex_digit n) :: nat) = (if n < 10 then 48 + n else 55 + n)"
  by (simp add: hex_digit_def)

lemma hex_digit_not_dot_slash: "n < 16 \<Longrightarrow> hex_digit n \<noteq> CHR ''.'' \<and> hex_digit n \<noteq> CHR ''/''"
proof -
  assume n: "n < 16"
  have "(of_char (hex_digit n) :: nat) \<ge> 48" using hex_digit_code [OF n] by simp
  then show ?thesis by auto
qed

lemma url_quote_char_mem:
  assumes c: "c = CHR ''.'' \<or> c = CHR ''/''"
  shows "(c \<in> set (url_quote_char x)) = (x = c)"
proof (cases "url_safe_char x")
  case True
  then show ?thesis by (auto simp: url_quote_char_def)
next
  case False
  have h1: "of_char x div 16 < (16::nat)" using nat_of_char_less_256 [of x] by linarith
  have h2: "of_char x mod 16 < (16::nat)" by simp
  have "x \<noteq> c" using False c by (auto simp: url_safe_char_def)
  moreover have "c \<notin> set (url_quote_char x)"
    using False c hex_digit_not_dot_slash [OF h1] hex_digit_not_dot_slash [OF h2]
    by (auto simp: url_quote_char_def)
  ultimately show ?thesis by simp
qed

lemma url_quote_append: "url_quote (a @ b) = url_quote a @ url_quote b"
  by (simp add: url_quote_def)

lemma url_quote_mem: "c = CHR ''.'' \<or> c = CHR ''/'' \<Longrightarrow> (c \<in> set (url_quote s)) = (c \<in> set s)"
  by (induction s) (auto simp: url_quote_def url_quote_char_mem)

lemma url_quote_ext:
  "rev (takeWhile (\<lambda>c. c \<noteq> CHR ''.'') (rev (url_quote s)))
   = url_quote (rev (takeWhile (\<lambda>c. c \<noteq> CHR ''.'') (rev s)))"
proof (induction s rule: rev_induct)
  case (snoc x s)
  show ?case
  proof (cases "x = CHR ''.''")
    case True
    then show ?thesis by (simp add: url_quote_append url_quote_def url_quote_char_def url_safe_char_def)
  next
    case False
    then have "CHR ''.'' \<notin> set (url_quote_char x)" using url_quote_char_mem [of "CHR ''.''" x] by simp
    then have "takeWhile (\<lambda>c. c \<noteq> CHR ''.'') (rev (url_quote_char x) @ rev (url_quote s))
               = rev (url_quote_char x) @ takeWhile (\<lambda>c. c \<noteq> CHR ''.'') (rev (url_quote s))"
      by (intro takeWhile_append2) auto
    then show ?thesis using False snoc by (simp add: url_quote_append url_quote_def)
  qed
qed (simp add: url_quote_def)

section \<open>Properties\<close>

text \<open>
  C39 (roundtrip): a file name stored by \<open>preserve_filename\<close> is shown again unchanged
  by \<open>restore_filename\<close>, for every file name.
\<close>

theorem restore_preserve_filename: "restore_filename (preserve_filename f) = f"
  by (simp add: restore_filename_def preserve_filename_def url_unquote_quote)

end
