(* ===== verification/Rag.thy ===== *)
theory Rag
  imports Url
begin

text \<open>
  The data that flows through the RAG chain (\<open>rag.py\<close>, \<open>nodes.py\<close>, \<open>app.py\<close>):
  a retrieved document with the two metadata keys the code reads (\<open>source\<close>, \<open>page\<close>),
  the chat messages \<open>HumanMessage\<close>/\<open>AIMessage\<close> of LangChain, and
  \<open>create_rag_chain\<close>'s two formatting functions, which build the prompt's
  \<open>context\<close> and \<open>chat_history\<close> variables. The prompt template and the chat model
  after them are the external text-generation service: the model passes the three
  prompt variables to a parameter \<open>llm\<close> and keeps its answer or its failure.
\<close>

section \<open>Documents and messages\<close>

record document =
  page_content :: string
  doc_source :: "string option"
  doc_page :: "int option"

datatype message = HumanMessage string | AIMessage string

fun msg_content :: "message \<Rightarrow> string" where
  "msg_content (HumanMessage c) = c"
| "msg_content (AIMessage c) = c"

fun msg_is_human :: "message \<Rightarrow> bool" where
  "msg_is_human (HumanMessage _) = True"
| "msg_is_human (AIMessage _) = False"

section \<open>create_rag_chain: formatting\<close>

definition newline :: char where
  "newline = CHR 0x0A"

text \<open>One document of \<open>format_rag_docs\<close>: \<open>source\<close> defaults to \<open>unknown\<close> and is
  unquoted; \<open>page\<close> is printed one-based, or \<open>N/A\<close> when absent.\<close>

definition format_rag_doc :: "document \<Rightarrow> string" where
  "format_rag_doc d =
     ''<document><content>'' @ page_content d @ ''</content><source>''
     @ url_unquote (case doc_source d of None \<Rightarrow> ''unknown'' | Some s \<Rightarrow> s)
     @ ''</source><page>''
     @ (case doc_page d of None \<Rightarrow> ''N/A'' | Some p \<Rightarrow> py_str_int (p + 1))
     @ ''</page></document>''"

definition format_rag_docs :: "document list \<Rightarrow> string" where
  "format_rag_docs docs = py_join [newline, newline] (map format_rag_doc docs)"

definition format_chat_line :: "message \<Rightarrow> string" where
  "format_chat_line m =
     (if msg_is_human m then ''User: '' @ msg_content m else ''Assistant: '' @ msg_content m)"

definition format_chat_history :: "message list \<Rightarrow> string" where
  "format_chat_history hist =
     (if hist = [] then [] else py_join [newline] (map format_chat_line hist))"

text \<open>The three prompt variables the chain's first stage builds from its input
  \<open>{"context": documents, "question": q, "chat_history": h}\<close>.\<close>

record prompt_input =
  pi_question :: string
  pi_context :: string
  pi_chat_history :: string

definition rag_prompt_input :: "document list \<Rightarrow> string \<Rightarrow> message list \<Rightarrow> prompt_input" where
  "rag_prompt_input docs q hist =
     \<lparr>pi_question = q, pi_context = format_rag_docs docs,
      pi_chat_history = format_chat_history hist\<rparr>"

section \<open>Lemmas\<close>

lemma format_chat_history_Nil [simp]: "format_chat_history [] = []"
  by (simp add: format_chat_history_def)

lemma format_rag_docs_Nil [simp]: "format_rag_docs [] = []"
  by (simp add: format_rag_docs_def)

lemma py_join_map_Cons_prefix:
  "py_join sep (map f (x # xs)) = f x @ (if xs = [] then [] else sep @ py_join sep (map f xs))"
  by (cases xs) auto

end
