(* ===== verification/Retriever.thy ===== *)
theory Retriever
  imports Rag
begin

text \<open>
  \<open>retrievers.init_retriever\<close> and the LangChain retrievers it assembles. The lexical
  part is \<open>BM25Retriever.from_texts(db_index)\<close>: its argument is the index directory's
  name, a Python string, so the corpus it indexes is the list of that name's characters,
  one document each (\<open>bm25_from_texts\<close>). \<open>get_top_n\<close> returns the first \<open>k = 3\<close> of
  the documents ordered by descending BM25 score; the scores themselves are a parameter
  (\<open>bm25_score\<close>), since only the length of the result matters to the proofs. The dense
  part is FAISS, loaded from disk and queried with \<open>k = fetch_k\<close>: an external service
  (\<open>faiss_load\<close>, \<open>faiss_search\<close>). \<open>EnsembleRetriever\<close> fuses the two rankings by
  weighted reciprocal rank (weights 0.7 and 0.3, constant \<open>c = 60\<close>), keeps the first
  document of each \<open>page_content\<close>, and sorts by descending fused score, stably.
\<close>

section \<open>The retriever services\<close>

record index_service =
  faiss_load :: "string \<Rightarrow> error option"
  faiss_search :: "string \<Rightarrow> nat \<Rightarrow> string \<Rightarrow> error + document list"
  bm25_score :: "document list \<Rightarrow> string \<Rightarrow> nat \<Rightarrow> rat"

record retriever =
  r_db_index :: string
  r_bm25_docs :: "document list"
  r_bm25_k :: nat
  r_fetch_k :: nat
  r_weights :: "rat list"
  r_c :: nat

section \<open>init_retriever\<close>

definition plain_doc :: "string \<Rightarrow> document" where
  "plain_doc t = \<lparr>page_content = t, doc_source = None, doc_page = None\<rparr>"

text \<open>\<open>BM25Retriever.from_texts(texts)\<close> iterates over \<open>texts\<close>; for a string that is
  its characters. \<open>BM25Okapi\<close> divides by the corpus size, so an empty corpus raises.\<close>

definition bm25_from_texts :: "string \<Rightarrow> error + document list" where
  "bm25_from_texts texts =
     (if texts = [] then Inl Zero_division else Inr (map (\<lambda>c. plain_doc [c]) texts))"

definition init_retriever :: "'s index_service_scheme \<Rightarrow> string \<Rightarrow> nat \<Rightarrow> nat \<Rightarrow> error + retriever" where
  "init_retriever isvc db_index fetch_k top_n =
     (case bm25_from_texts db_index of
        Inl e \<Rightarrow> Inl e
      | Inr bm25_docs \<Rightarrow>
          (case faiss_load isvc db_index of
             Some e \<Rightarrow> Inl e
           | None \<Rightarrow> Inr \<lparr>r_db_index = db_index, r_bm25_docs = bm25_docs, r_bm25_k = 3,
                          r_fetch_k = fetch_k, r_weights = [7/10, 3/10], r_c = 60\<rparr>))"

section \<open>Ensemble retrieval\<close>

text \<open>\<open>BM25Okapi.get_top_n\<close>: \<open>np.argsort(scores)[::-1][:n]\<close>.\<close>

definition bm25_top_n :: "'s index_service_scheme \<Rightarrow> retriever \<Rightarrow> string \<Rightarrow> document list" where
  "bm25_top_n isvc r q =
     (let docs = r_bm25_docs r;
          order = rev (sort_key (bm25_score isvc docs q) [0..<length docs])
      in map ((!) docs) (take (r_bm25_k r) order))"

text \<open>\<open>rrf_score[doc.page_content] += weight / (rank + c)\<close>, ranks counted from 1.\<close>

definition rrf_score :: "rat list \<Rightarrow> nat \<Rightarrow> document list list \<Rightarrow> string \<Rightarrow> rat" where
  "rrf_score ws c rankings key =
     sum_list (map (\<lambda>(docs, w).
        sum_list (map (\<lambda>(r, d). if page_content d = key then w / of_nat (r + c) else 0)
                      (zip [1..<Suc (length docs)] docs)))
       (zip rankings ws))"

text \<open>\<open>unique_by_key(docs, key=page_content)\<close>: the first document of each content.\<close>

fun unique_by_content :: "string set \<Rightarrow> document list \<Rightarrow> document list" where
  "unique_by_content seen [] = []"
| "unique_by_content seen (d # ds) =
     (if page_content d \<in> seen then unique_by_content seen ds
      else d # unique_by_content (insert (page_content d) seen) ds)"

definition weighted_rrf :: "rat list \<Rightarrow> nat \<Rightarrow> document list list \<Rightarrow> document list" where
  "weighted_rrf ws c rankings =
     sort_key (\<lambda>d. - rrf_score ws c rankings (page_content d)) (unique_by_content {} (concat rankings))"

text \<open>\<open>EnsembleRetriever.invoke\<close>: each retriever in turn, then the fusion.\<close>

definition ensemble_invoke :: "'s index_service_scheme \<Rightarrow> retriever \<Rightarrow> string \<Rightarrow> error + document list" where
  "ensemble_invoke isvc r q =
     (let lexical = bm25_top_n isvc r q
      in case faiss_search isvc (r_db_index r) (r_fetch_k r) q of
           Inl e \<Rightarrow> Inl e
         | Inr dense \<Rightarrow> Inr (weighted_rrf (r_weights r) (r_c r) [lexical, dense]))"

section \<open>Lemmas\<close>

lemma length_bm25_top_n [simp]:
  "length (bm25_top_n isvc r q) = min (r_bm25_k r) (length (r_bm25_docs r))"
  by (simp add: bm25_top_n_def Let_def)

lemma unique_by_content_set:
  "page_content ` set (unique_by_content seen ds) = page_content ` set ds - seen"
  by (induction seen ds rule: unique_by_content.induct) auto

lemma unique_by_content_distinct:
  "distinct (map page_content (unique_by_content seen ds))"
proof (induction seen ds rule: unique_by_content.induct)
  case (2 seen d ds)
  then show ?case
    using unique_by_content_set [of "insert (page_content d) seen" ds] by auto
qed simp

lemma unique_by_content_Nil_iff:
  "(unique_by_content {} ds = []) = (ds = [])"
  using unique_by_content_set [of "{}" ds] by auto

lemma weighted_rrf_contents:
  "page_content ` set (weighted_rrf ws c rankings) = page_content ` set (concat rankings)"
  by (simp add: weighted_rrf_def unique_by_content_set)

lemma weighted_rrf_Nil_iff:
  "(weighted_rrf ws c rankings = []) = (concat rankings = [])"
proof -
  have "(sort_key f xs = []) = (xs = [])" for f :: "document \<Rightarrow> rat" and xs
    by (metis length_0_conv length_sort)
  then show ?thesis by (simp add: weighted_rrf_def unique_by_content_Nil_iff)
qed

lemma init_retriever_db: "init_retriever isvc db f t = Inr r \<Longrightarrow> r_db_index r = db"
  by (auto simp: init_retriever_def split: sum.splits option.splits)


lemma init_retriever_Inr:
  "init_retriever isvc db k n = Inr r \<Longrightarrow>
     r_db_index r = db \<and> r_bm25_k r = 3 \<and> r_fetch_k r = k \<and> length (r_bm25_docs r) = length db"
  by (auto simp: init_retriever_def bm25_from_texts_def split: sum.splits option.splits if_splits)

lemma init_retriever_ensemble_nonempty:
  assumes "init_retriever isvc db k n = Inr r" and "ensemble_invoke isvc r q = Inr docs"
  shows "docs \<noteq> []"
proof -
  from assms(1) have "db \<noteq> []"
    by (auto simp: init_retriever_def bm25_from_texts_def split: if_splits)
  moreover have "r_bm25_k r = 3 \<and> length (r_bm25_docs r) = length db"
    using init_retriever_Inr [OF assms(1)] by simp
  ultimately have "length (bm25_top_n isvc r q) \<noteq> 0" by simp
  then have "bm25_top_n isvc r q \<noteq> []" by (metis length_0_conv)
  with assms(2) show ?thesis
    by (auto simp: ensemble_invoke_def weighted_rrf_Nil_iff Let_def split: sum.splits)
qed

end
