(* ===== verification/Graph.thy ===== *)
theory Graph
  imports Retriever
begin

text \<open>
  The orchestration graph. \<open>states.GraphState\<close> is a record whose optional fields are the
  keys a LangGraph state may lack; a node returns a partial \<open>GraphState\<close>, modelled as a
  \<open>state_update\<close> whose present fields overwrite the state (the TypedDict declares no
  reducer, so every channel keeps its last value). The nodes of \<open>nodes.py\<close>
  (\<open>RetrieveNode\<close> with its per-graph question cache, \<open>WebSearchNode\<close>,
  \<open>RagAnswerNode\<close>) return the external calls they made, and their update or the
  exception they raised. \<open>create_graph_internal\<close> wires them as
  \<open>START \<rightarrow> retrieve \<rightarrow> (check_documents) generate_answer | web_search \<rightarrow> generate_answer \<rightarrow> END\<close>;
  \<open>exec_from\<close> runs that table one node per super-step, recording the
  \<open>{node_name: update}\<close> chunks that \<open>graph.stream\<close> yields, and raises
  \<open>GraphRecursionError\<close> when a node is due after \<open>recursion_limit\<close> steps.
\<close>

section \<open>GraphState and its updates\<close>

record graph_state =
  question :: string
  documents :: "document list option"
  generation :: "string option"
  chat_history :: "message list option"

record state_update =
  upd_question :: "string option"
  upd_documents :: "document list option"
  upd_generation :: "string option"
  upd_chat_history :: "message list option"

definition apply_update :: "graph_state \<Rightarrow> state_update \<Rightarrow> graph_state" where
  "apply_update s u =
     \<lparr>question = (case upd_question u of None \<Rightarrow> question s | Some q \<Rightarrow> q),
      documents = (case upd_documents u of None \<Rightarrow> documents s | Some d \<Rightarrow> Some d),
      generation = (case upd_generation u of None \<Rightarrow> generation s | Some a \<Rightarrow> Some a),
      chat_history = (case upd_chat_history u of None \<Rightarrow> chat_history s | Some h \<Rightarrow> Some h)\<rparr>"

text \<open>\<open>GraphState(question=question, documents=documents)\<close>.\<close>

definition docs_update :: "string \<Rightarrow> document list \<Rightarrow> state_update" where
  "docs_update q docs =
     \<lparr>upd_question = Some q, upd_documents = Some docs, upd_generation = None,
      upd_chat_history = None\<rparr>"

section \<open>Services, calls and the compiled graph\<close>

record web_result =
  wr_content :: string
  wr_url :: string

record services = index_service +
  web_search :: "nat \<Rightarrow> string \<Rightarrow> error + web_result list"
  llm :: "prompt_input \<Rightarrow> error + string"
  prompt_load :: "string \<Rightarrow> error option"

datatype ext_call =
    Faiss_call string string
  | Web_search_call string
  | Llm_call prompt_input

type_synonym 'a node_result = "ext_call list \<times> (error + 'a)"

record compiled_graph =
  g_retriever :: retriever
  g_cache :: "(string, document list) pydict"

section \<open>The nodes (nodes.py)\<close>

text \<open>\<open>RetrieveNode.execute\<close>: a cached question is answered from \<open>self.cache\<close>; otherwise
  the ensemble retriever is invoked and its result cached.\<close>

definition retrieve_node ::
  "services \<Rightarrow> compiled_graph \<Rightarrow> graph_state \<Rightarrow> (state_update \<times> compiled_graph) node_result" where
  "retrieve_node svc g st =
     (let q = question st in
      case dict_get (g_cache g) q of
        Some docs \<Rightarrow> ([], Inr (docs_update q docs, g))
      | None \<Rightarrow>
          ([Faiss_call (r_db_index (g_retriever g)) q],
           case ensemble_invoke svc (g_retriever g) q of
             Inl e \<Rightarrow> Inl e
           | Inr docs \<Rightarrow> Inr (docs_update q docs, g\<lparr>g_cache := dict_set (g_cache g) q docs\<rparr>)))"

text \<open>\<open>RagAnswerNode.execute\<close>: \<open>state["documents"]\<close> raises when the key is absent;
  \<open>state.get("chat_history", [])\<close> with \<open>None\<close> mapped to \<open>[]\<close>.\<close>

definition rag_answer_node :: "services \<Rightarrow> graph_state \<Rightarrow> state_update node_result" where
  "rag_answer_node svc st =
     (case documents st of
        None \<Rightarrow> ([], Inl (Key_error ''documents''))
      | Some docs \<Rightarrow>
          (let hist = (case chat_history st of None \<Rightarrow> [] | Some h \<Rightarrow> h);
               inp = rag_prompt_input docs (question st) hist
           in ([Llm_call inp],
               case llm svc inp of
                 Inl e \<Rightarrow> Inl e
               | Inr answer \<Rightarrow>
                   Inr \<lparr>upd_question = Some (question st), upd_documents = Some docs,
                        upd_generation = Some answer, upd_chat_history = Some hist\<rparr>)))"

definition web_doc :: "web_result \<Rightarrow> document" where
  "web_doc r = \<lparr>page_content = wr_content r, doc_source = Some (wr_url r), doc_page = None\<rparr>"

text \<open>\<open>WebSearchNode.execute\<close> with \<open>TavilySearch(max_results=3)\<close>.\<close>

definition web_search_node :: "services \<Rightarrow> graph_state \<Rightarrow> state_update node_result" where
  "web_search_node svc st =
     (let q = question st in
      ([Web_search_call q],
       case web_search svc 3 q of
         Inl e \<Rightarrow> Inl e
       | Inr results \<Rightarrow> Inr (docs_update q (map web_doc results))))"

datatype doc_check = Has_documents | No_documents

text \<open>\<open>check_documents\<close>: \<open>state.get("documents", [])\<close> tested for truth.\<close>

definition check_documents :: "graph_state \<Rightarrow> doc_check" where
  "check_documents st =
     (case documents st of
        None \<Rightarrow> No_documents
      | Some [] \<Rightarrow> No_documents
      | Some _ \<Rightarrow> Has_documents)"

section \<open>The workflow (streamlit_wrapper.create_graph_internal)\<close>

datatype node = Retrieve | Web_search | Generate_answer

fun node_name :: "node \<Rightarrow> string" where
  "node_name Retrieve = ''retrieve''"
| "node_name Web_search = ''web_search''"
| "node_name Generate_answer = ''generate_answer''"

datatype target = Goto node | Goto_END

fun edge :: "node \<Rightarrow> graph_state \<Rightarrow> target" where
  "edge Retrieve s =
     (case check_documents s of
        Has_documents \<Rightarrow> Goto Generate_answer
      | No_documents \<Rightarrow> Goto Web_search)"
| "edge Web_search s = Goto Generate_answer"
| "edge Generate_answer s = Goto_END"

fun run_node ::
  "services \<Rightarrow> compiled_graph \<Rightarrow> node \<Rightarrow> graph_state \<Rightarrow> (state_update \<times> compiled_graph) node_result" where
  "run_node svc g Retrieve st = retrieve_node svc g st"
| "run_node svc g Web_search st =
     (case web_search_node svc st of (cs, r) \<Rightarrow> (cs, map_sum id (\<lambda>u. (u, g)) r))"
| "run_node svc g Generate_answer st =
     (case rag_answer_node svc st of (cs, r) \<Rightarrow> (cs, map_sum id (\<lambda>u. (u, g)) r))"

section \<open>Running the compiled graph\<close>

record run_result =
  rr_calls :: "ext_call list"
  rr_trace :: "(string \<times> state_update) list"
  rr_outcome :: "error + graph_state"
  rr_graph :: compiled_graph

text \<open>One super-step per node; the remaining fuel is what is left of \<open>recursion_limit\<close>.
  A failing node aborts the run and leaves the graph's cache as it was.\<close>

fun exec_from :: "services \<Rightarrow> nat \<Rightarrow> node \<Rightarrow> graph_state \<Rightarrow> compiled_graph \<Rightarrow> run_result" where
  "exec_from svc 0 n s g =
     \<lparr>rr_calls = [], rr_trace = [], rr_outcome = Inl Recursion_limit, rr_graph = g\<rparr>"
| "exec_from svc (Suc fuel) n s g =
     (case run_node svc g n s of
        (cs, Inl e) \<Rightarrow> \<lparr>rr_calls = cs, rr_trace = [], rr_outcome = Inl e, rr_graph = g\<rparr>
      | (cs, Inr (u, g')) \<Rightarrow>
          (let s' = apply_update s u in
           case edge n s' of
             Goto_END \<Rightarrow> \<lparr>rr_calls = cs, rr_trace = [(node_name n, u)], rr_outcome = Inr s', rr_graph = g'\<rparr>
           | Goto m \<Rightarrow>
               (let r = exec_from svc fuel m s' g'
                in r\<lparr>rr_calls := cs @ rr_calls r, rr_trace := (node_name n, u) # rr_trace r\<rparr>)))"

text \<open>\<open>graph.stream(inputs, config)\<close> and \<open>graph.invoke(inputs, config)\<close> run the same
  execution from \<open>START\<close>; the first yields its trace, the second its final state.\<close>

definition graph_run :: "services \<Rightarrow> nat \<Rightarrow> compiled_graph \<Rightarrow> graph_state \<Rightarrow> run_result" where
  "graph_run svc limit g inputs = exec_from svc limit Retrieve inputs g"

section \<open>The orchestration the workflow implements\<close>

text \<open>The straight-line program of the state machine \<open>START \<rightarrow> RETRIEVE \<rightarrow> (GENERATE |
  WEB_SEARCH \<rightarrow> GENERATE) \<rightarrow> END\<close>: no fuel, each node at most once.\<close>

definition graph_ref :: "services \<Rightarrow> compiled_graph \<Rightarrow> graph_state \<Rightarrow> run_result" where
  "graph_ref svc g s =
     (case retrieve_node svc g s of
        (cs1, Inl e) \<Rightarrow> \<lparr>rr_calls = cs1, rr_trace = [], rr_outcome = Inl e, rr_graph = g\<rparr>
      | (cs1, Inr (u1, g1)) \<Rightarrow>
          (let s1 = apply_update s u1 in
           case check_documents s1 of
             Has_documents \<Rightarrow>
               (case rag_answer_node svc s1 of
                  (cs2, Inl e) \<Rightarrow> \<lparr>rr_calls = cs1 @ cs2, rr_trace = [(''retrieve'', u1)], rr_outcome = Inl e, rr_graph = g1\<rparr>
                | (cs2, Inr u2) \<Rightarrow> \<lparr>rr_calls = cs1 @ cs2, rr_trace = [(''retrieve'', u1), (''generate_answer'', u2)],
                                    rr_outcome = Inr (apply_update s1 u2), rr_graph = g1\<rparr>)
           | No_documents \<Rightarrow>
               (case web_search_node svc s1 of
                  (cs2, Inl e) \<Rightarrow> \<lparr>rr_calls = cs1 @ cs2, rr_trace = [(''retrieve'', u1)], rr_outcome = Inl e, rr_graph = g1\<rparr>
                | (cs2, Inr u2) \<Rightarrow>
                    (let s2 = apply_update s1 u2 in
                     case rag_answer_node svc s2 of
                       (cs3, Inl e) \<Rightarrow> \<lparr>rr_calls = cs1 @ cs2 @ cs3, rr_trace = [(''retrieve'', u1), (''web_search'', u2)],
                                         rr_outcome = Inl e, rr_graph = g1\<rparr>
                     | (cs3, Inr u3) \<Rightarrow> \<lparr>rr_calls = cs1 @ cs2 @ cs3,
                                         rr_trace = [(''retrieve'', u1), (''web_search'', u2), (''generate_answer'', u3)],
                                         rr_outcome = Inr (apply_update s2 u3), rr_graph = g1\<rparr>))))"

text \<open>A retrieval cache is consistent when every cached answer is what the retriever
  returns for that question.\<close>

definition cache_consistent :: "services \<Rightarrow> compiled_graph \<Rightarrow> bool" where
  "cache_consistent svc g =
     (\<forall>q docs. dict_get (g_cache g) q = Some docs \<longrightarrow> ensemble_invoke svc (g_retriever g) q = Inr docs)"

section \<open>Example configuration\<close>

text \<open>A corpus holding one document about RAG, used by the witnesses below.\<close>

definition demo_doc :: document where
  "demo_doc = \<lparr>page_content = ''RAG combines retrieval with generation.'',
               doc_source = Some ''data/rag.pdf'', doc_page = Some 0\<rparr>"

definition demo_services :: services where
  "demo_services =
     \<lparr>faiss_load = (\<lambda>_. None),
      faiss_search = (\<lambda>_ _ q. if q = ''What is RAG?'' then Inr [demo_doc] else Inr []),
      bm25_score = (\<lambda>_ _ _. 0),
      web_search = (\<lambda>_ _. Inr [\<lparr>wr_content = ''RAG is retrieval-augmented generation.'',
                                 wr_url = ''https://example.org/rag''\<rparr>]),
      llm = (\<lambda>p. if pi_context p = [] then Inl (Service_error ''empty context'')
                 else Inr ''RAG answers from retrieved documents.''),
      prompt_load = (\<lambda>_. None)\<rparr>"

definition demo_retriever :: retriever where
  "demo_retriever =
     \<lparr>r_db_index = ''LANGCHAIN_DB_INDEX_demo'', r_bm25_docs = [], r_bm25_k = 3, r_fetch_k = 10,
      r_weights = [7/10, 3/10], r_c = 60\<rparr>"

definition demo_graph :: compiled_graph where
  "demo_graph = \<lparr>g_retriever = demo_retriever, g_cache = []\<rparr>"

definition demo_state :: "string \<Rightarrow> graph_state" where
  "demo_state q = \<lparr>question = q, documents = Some [], generation = Some [], chat_history = Some []\<rparr>"

lemmas demo_defs = demo_doc_def demo_services_def demo_retriever_def demo_graph_def demo_state_def

section \<open>Lemmas\<close>

lemma exec_from_Generate:
  "exec_from svc (Suc f) Generate_answer s g =
     (case rag_answer_node svc s of
        (cs, Inl e) \<Rightarrow> \<lparr>rr_calls = cs, rr_trace = [], rr_outcome = Inl e, rr_graph = g\<rparr>
      | (cs, Inr u) \<Rightarrow> \<lparr>rr_calls = cs, rr_trace = [(''generate_answer'', u)], rr_outcome = Inr (apply_update s u), rr_graph = g\<rparr>)"
  by (simp split: prod.splits sum.splits)

lemma exec_from_Web:
  "exec_from svc (Suc (Suc f)) Web_search s g =
     (case web_search_node svc s of
        (cs, Inl e) \<Rightarrow> \<lparr>rr_calls = cs, rr_trace = [], rr_outcome = Inl e, rr_graph = g\<rparr>
      | (cs, Inr u) \<Rightarrow> (let r = exec_from svc (Suc f) Generate_answer (apply_update s u) g
                        in r\<lparr>rr_calls := cs @ rr_calls r, rr_trace := (''web_search'', u) # rr_trace r\<rparr>))"
  by (simp split: prod.splits sum.splits)

lemma Suc3_cases: "3 \<le> n \<Longrightarrow> \<exists>f. n = Suc (Suc (Suc f))"
  by presburger

lemma apply_docs_update [simp]:
  "apply_update s (docs_update q docs) = s\<lparr>question := q, documents := Some docs\<rparr>"
  by (simp add: apply_update_def docs_update_def)

lemma check_documents_Some [simp]:
  "check_documents (s\<lparr>documents := Some docs\<rparr>) = (if docs = [] then No_documents else Has_documents)"
  by (cases docs) (simp_all add: check_documents_def)

lemma retrieve_node_hit:
  "dict_get (g_cache g) (question s) = Some docs \<Longrightarrow>
   retrieve_node svc g s = ([], Inr (docs_update (question s) docs, g))"
  by (simp add: retrieve_node_def)

lemma retrieve_node_miss:
  "dict_get (g_cache g) (question s) = None \<Longrightarrow>
   retrieve_node svc g s =
     ([Faiss_call (r_db_index (g_retriever g)) (question s)],
      case ensemble_invoke svc (g_retriever g) (question s) of
        Inl e \<Rightarrow> Inl e
      | Inr docs \<Rightarrow> Inr (docs_update (question s) docs,
                            g\<lparr>g_cache := dict_set (g_cache g) (question s) docs\<rparr>))"
  by (simp add: retrieve_node_def Let_def)

lemma apply_answer_update [simp]:
  "apply_update s \<lparr>upd_question = Some q, upd_documents = Some d, upd_generation = Some a,
                    upd_chat_history = Some h\<rparr> =
   s\<lparr>question := q, documents := Some d, generation := Some a, chat_history := Some h\<rparr>"
  by (simp add: apply_update_def)

lemma rag_answer_node_ok:
  "documents s = Some docs \<Longrightarrow> chat_history s = Some hist \<Longrightarrow>
   llm svc (rag_prompt_input docs (question s) hist) = Inr a \<Longrightarrow>
   rag_answer_node svc s =
     ([Llm_call (rag_prompt_input docs (question s) hist)],
      Inr \<lparr>upd_question = Some (question s), upd_documents = Some docs,
           upd_generation = Some a, upd_chat_history = Some hist\<rparr>)"
  by (simp add: rag_answer_node_def)

lemma web_search_node_ok:
  "web_search svc 3 (question s) = Inr rs \<Longrightarrow>
   web_search_node svc s = ([Web_search_call (question s)], Inr (docs_update (question s) (map web_doc rs)))"
  by (simp add: web_search_node_def Let_def)

lemma edge_not_Retrieve: "edge n s = Goto m \<Longrightarrow> m \<noteq> Retrieve"
  by (cases n) (auto split: doc_check.splits)

lemma map_sum_pair_Inr: "map_sum id (\<lambda>u. (u, g)) x = Inr (u, g') \<Longrightarrow> g' = g"
  by (cases x) auto

lemma run_node_graph:
  "run_node svc g n s = (cs, Inr (u, g')) \<Longrightarrow>
   g' = g \<or> (n = Retrieve \<and> (\<exists>docs. dict_get (g_cache g) (question s) = None
      \<and> ensemble_invoke svc (g_retriever g) (question s) = Inr docs
      \<and> g' = g\<lparr>g_cache := dict_set (g_cache g) (question s) docs\<rparr>))"
  by (cases n) (auto simp: retrieve_node_def Let_def dest: map_sum_pair_Inr
                     split: option.splits sum.splits prod.splits)

lemma exec_from_graph:
  "rr_graph (exec_from svc f n s g) = g \<or>
   (n = Retrieve \<and> (\<exists>docs. dict_get (g_cache g) (question s) = None
      \<and> ensemble_invoke svc (g_retriever g) (question s) = Inr docs
      \<and> rr_graph (exec_from svc f n s g) = g\<lparr>g_cache := dict_set (g_cache g) (question s) docs\<rparr>))"
proof (induction f arbitrary: n s g)
  case 0
  then show ?case by simp
next
  case (Suc f)
  show ?case
  proof (cases "run_node svc g n s")
    case (Pair cs r)
    show ?thesis
    proof (cases r)
      case (Inl e)
      with Pair show ?thesis by simp
    next
      case (Inr ug)
      obtain u g' where ug: "ug = (u, g')" by fastforce
      have g': "g' = g \<or> (n = Retrieve \<and> (\<exists>docs. dict_get (g_cache g) (question s) = None
          \<and> ensemble_invoke svc (g_retriever g) (question s) = Inr docs
          \<and> g' = g\<lparr>g_cache := dict_set (g_cache g) (question s) docs\<rparr>))"
        using run_node_graph [of svc g n s cs u g'] Pair Inr ug by simp
      show ?thesis
      proof (cases "edge n (apply_update s u)")
        case (Goto m)
        then have "m \<noteq> Retrieve" by (rule edge_not_Retrieve)
        then have "rr_graph (exec_from svc f m (apply_update s u) g') = g'"
          using Suc.IH [of m "apply_update s u" g'] by auto
        with g' Pair Inr ug Goto show ?thesis by (auto simp: Let_def)
      next
        case Goto_END
        with g' Pair Inr ug show ?thesis by (auto simp: Let_def)
      qed
    qed
  qed
qed

lemma exec_from_graph_other: "n \<noteq> Retrieve \<Longrightarrow> rr_graph (exec_from svc f n s g) = g"
  using exec_from_graph [of svc f n s g] by auto

lemma exec_from_Generate_names:
  "map fst (rr_trace (exec_from svc f Generate_answer s g)) \<in> {[], [''generate_answer'']}"
  by (cases f) (auto split: prod.splits sum.splits)

lemma exec_from_Web_names:
  "map fst (rr_trace (exec_from svc f Web_search s g)) \<in>
     {[], [''web_search''], [''web_search'', ''generate_answer'']}"
proof (cases f)
  case (Suc f')
  then show ?thesis
    using exec_from_Generate_names by (auto simp: Let_def split: prod.splits sum.splits)
qed simp

lemma exec_from_Retrieve_names:
  "map fst (rr_trace (exec_from svc f Retrieve s g)) \<in>
     {[], [''retrieve''], [''retrieve'', ''generate_answer''], [''retrieve'', ''web_search''],
      [''retrieve'', ''web_search'', ''generate_answer'']}"
proof (cases f)
  case (Suc f')
  obtain cs r where rn: "retrieve_node svc g s = (cs, r)" by fastforce
  show ?thesis
  proof (cases r)
    case (Inl e)
    with rn Suc show ?thesis by simp
  next
    case (Inr ug)
    obtain u g' where ug: "ug = (u, g')" by fastforce
    show ?thesis
    proof (cases "check_documents (apply_update s u)")
      case Has_documents
      then show ?thesis
        using rn Inr ug Suc exec_from_Generate_names [of svc f' "apply_update s u" g'] by (auto simp: Let_def)
    next
      case No_documents
      then show ?thesis
        using rn Inr ug Suc exec_from_Web_names [of svc f' "apply_update s u" g'] by (auto simp: Let_def)
    qed
  qed
qed simp

lemma exec_from_Generate_no_web:
  "Web_search_call q \<notin> set (rr_calls (exec_from svc f Generate_answer s g))"
  by (cases f) (auto simp: rag_answer_node_def Let_def split: prod.splits sum.splits option.splits)

lemma graph_run_Suc3: "graph_run svc (Suc (Suc (Suc f))) g s = graph_ref svc g s"
  unfolding graph_run_def graph_ref_def
  by (simp add: exec_from_Web exec_from_Generate Let_def split: prod.splits sum.splits doc_check.splits)

lemma graph_run_eq_ref: "3 \<le> limit \<Longrightarrow> graph_run svc limit g s = graph_ref svc g s"
  using Suc3_cases graph_run_Suc3 by blast

lemma graph_run_retriever: "g_retriever (rr_graph (graph_run svc limit g s)) = g_retriever g"
  using exec_from_graph [of svc limit Retrieve s g] by (auto simp: graph_run_def)


lemma graph_run_found:
  assumes "3 \<le> limit"
    and "dict_get (g_cache g) (question s) = None"
    and "ensemble_invoke svc (g_retriever g) (question s) = Inr docs" and "docs \<noteq> []"
    and "chat_history s = Some h"
    and "llm svc (rag_prompt_input docs (question s) h) = Inr a"
  shows "graph_run svc limit g s =
     \<lparr>rr_calls = [Faiss_call (r_db_index (g_retriever g)) (question s), Llm_call (rag_prompt_input docs (question s) h)],
      rr_trace = [(''retrieve'', docs_update (question s) docs),
                  (''generate_answer'', \<lparr>upd_question = Some (question s), upd_documents = Some docs,
                                          upd_generation = Some a, upd_chat_history = Some h\<rparr>)],
      rr_outcome = Inr (s\<lparr>documents := Some docs, generation := Some a, chat_history := Some h\<rparr>),
      rr_graph = g\<lparr>g_cache := dict_set (g_cache g) (question s) docs\<rparr>\<rparr>"
  using assms by (simp add: graph_run_eq_ref graph_ref_def retrieve_node_miss rag_answer_node_ok Let_def)

lemma graph_run_cached:
  assumes "3 \<le> limit"
    and "dict_get (g_cache g) (question s) = Some docs" and "docs \<noteq> []"
    and "chat_history s = Some h"
    and "llm svc (rag_prompt_input docs (question s) h) = Inr a"
  shows "graph_run svc limit g s =
     \<lparr>rr_calls = [Llm_call (rag_prompt_input docs (question s) h)],
      rr_trace = [(''retrieve'', docs_update (question s) docs),
                  (''generate_answer'', \<lparr>upd_question = Some (question s), upd_documents = Some docs,
                                          upd_generation = Some a, upd_chat_history = Some h\<rparr>)],
      rr_outcome = Inr (s\<lparr>documents := Some docs, generation := Some a, chat_history := Some h\<rparr>),
      rr_graph = g\<rparr>"
  using assms by (simp add: graph_run_eq_ref graph_ref_def retrieve_node_hit rag_answer_node_ok Let_def)

section \<open>Properties\<close>

text \<open>
  C7 (functional): when retrieval finds documents for a new question, the run visits
  \<open>retrieve\<close> then \<open>generate_answer\<close>, calls the vector store once and the language model
  once, never searches the web, and returns the state with the retrieved documents and the
  model's answer.
\<close>

theorem graph_run_scenario_a:
  assumes "3 \<le> limit"
    and "dict_get (g_cache g) (question s) = None"
    and "ensemble_invoke svc (g_retriever g) (question s) = Inr docs" and "docs \<noteq> []"
    and "chat_history s = Some hist"
    and "llm svc (rag_prompt_input docs (question s) hist) = Inr a"
  shows "map fst (rr_trace (graph_run svc limit g s)) = [''retrieve'', ''generate_answer'']
       \<and> rr_calls (graph_run svc limit g s) =
           [Faiss_call (r_db_index (g_retriever g)) (question s), Llm_call (rag_prompt_input docs (question s) hist)]
       \<and> rr_outcome (graph_run svc limit g s) =
           Inr (s\<lparr>documents := Some docs, generation := Some a, chat_history := Some hist\<rparr>)"
  using assms
  by (simp add: graph_run_eq_ref graph_ref_def retrieve_node_miss rag_answer_node_ok Let_def)


theorem graph_run_scenario_a_witness:
  "map fst (rr_trace (graph_run demo_services 30 demo_graph (demo_state ''What is RAG?'')))
     = [''retrieve'', ''generate_answer'']"
  using graph_run_scenario_a [of 30 demo_graph "demo_state ''What is RAG?''" demo_services "[demo_doc]" "[]"
      "''RAG answers from retrieved documents.''"]
  by (simp add: demo_defs ensemble_invoke_def bm25_top_n_def weighted_rrf_def rag_prompt_input_def
                format_rag_docs_def format_rag_doc_def)

text \<open>
  The web-search branch of the graph: when retrieval returns no document, the run visits
  \<open>retrieve\<close>, \<open>web_search\<close> and \<open>generate_answer\<close> in that order, and the answer is
  generated from the web results turned into documents with their URL as source. No retriever
  that \<open>init_retriever\<close> builds returns no document (\<open>web_search_unreachable\<close>), so the
  deployed program never takes this branch.
\<close>

theorem graph_run_scenario_b:
  assumes "3 \<le> limit"
    and "dict_get (g_cache g) (question s) = None"
    and "ensemble_invoke svc (g_retriever g) (question s) = Inr []"
    and "web_search svc 3 (question s) = Inr rs"
    and "chat_history s = Some hist"
    and "llm svc (rag_prompt_input (map web_doc rs) (question s) hist) = Inr a"
  shows "map fst (rr_trace (graph_run svc limit g s)) = [''retrieve'', ''web_search'', ''generate_answer'']
       \<and> rr_calls (graph_run svc limit g s) =
           [Faiss_call (r_db_index (g_retriever g)) (question s), Web_search_call (question s),
            Llm_call (rag_prompt_input (map web_doc rs) (question s) hist)]
       \<and> rr_outcome (graph_run svc limit g s) =
           Inr (s\<lparr>documents := Some (map web_doc rs), generation := Some a, chat_history := Some hist\<rparr>)"
  using assms
  by (simp add: graph_run_eq_ref graph_ref_def retrieve_node_miss web_search_node_ok rag_answer_node_ok Let_def)

theorem graph_run_scenario_b_witness:
  "map fst (rr_trace (graph_run demo_services 30 demo_graph (demo_state ''Who wrote it?'')))
     = [''retrieve'', ''web_search'', ''generate_answer'']"
  using graph_run_scenario_b [of 30 demo_graph "demo_state ''Who wrote it?''" demo_services
      "[\<lparr>wr_content = ''RAG is retrieval-augmented generation.'', wr_url = ''https://example.org/rag''\<rparr>]"
      "[]" "''RAG answers from retrieved documents.''"]
  by (simp add: demo_defs ensemble_invoke_def bm25_top_n_def weighted_rrf_def rag_prompt_input_def
                format_rag_docs_def format_rag_doc_def web_doc_def)

text \<open>
  C16 (invariant): in every run, whatever the services answer and whatever the limit, no
  node name occurs twice in the stream of node outputs: the graph has no cycle, so each
  node is visited at most once per execution.
\<close>

theorem graph_trace_distinct: "distinct (map fst (rr_trace (graph_run svc limit g s)))"
  using exec_from_Retrieve_names [of svc limit s g] by (auto simp: graph_run_def)

text \<open>
  C17 (error): when the retriever raises for an uncached question, the run stops at the
  \<open>retrieve\<close> node with that error: nothing is streamed, no later node runs, and the
  cache is left as it was.
\<close>

theorem graph_retrieval_failure:
  assumes "1 \<le> limit"
    and "dict_get (g_cache g) (question s) = None"
    and "ensemble_invoke svc (g_retriever g) (question s) = Inl e"
  shows "graph_run svc limit g s =
     \<lparr>rr_calls = [Faiss_call (r_db_index (g_retriever g)) (question s)], rr_trace = [],
      rr_outcome = Inl e, rr_graph = g\<rparr>"
proof -
  obtain f where "limit = Suc f" using assms(1) by (cases limit) auto
  with assms show ?thesis by (simp add: graph_run_def retrieve_node_miss)
qed

theorem graph_retrieval_failure_witness:
  "rr_outcome (graph_run (demo_services\<lparr>faiss_search := (\<lambda>_ _ _. Inl (Service_error ''faiss''))\<rparr>)
                 30 demo_graph (demo_state ''What is RAG?'')) = Inl (Service_error ''faiss'')"
  using graph_retrieval_failure [of 30 demo_graph "demo_state ''What is RAG?''"
      "demo_services\<lparr>faiss_search := (\<lambda>_ _ _. Inl (Service_error ''faiss''))\<rparr>" "Service_error ''faiss''"]
  by (simp add: demo_defs ensemble_invoke_def)

text \<open>
  C18 (error): when the language model fails after a successful retrieval, the run ends
  with that error after streaming only the \<open>retrieve\<close> output, and the question's
  documents stay cached in the graph.
\<close>

theorem graph_generation_failure:
  assumes "3 \<le> limit"
    and "dict_get (g_cache g) (question s) = None"
    and "ensemble_invoke svc (g_retriever g) (question s) = Inr docs" and "docs \<noteq> []"
    and "chat_history s = Some hist"
    and "llm svc (rag_prompt_input docs (question s) hist) = Inl e"
  shows "rr_outcome (graph_run svc limit g s) = Inl e
       \<and> map fst (rr_trace (graph_run svc limit g s)) = [''retrieve'']
       \<and> g_cache (rr_graph (graph_run svc limit g s)) = dict_set (g_cache g) (question s) docs"
  using assms
  by (simp add: graph_run_eq_ref graph_ref_def retrieve_node_miss rag_answer_node_def Let_def)

theorem graph_generation_failure_witness:
  "rr_outcome (graph_run (demo_services\<lparr>llm := (\<lambda>_. Inl (Service_error ''openai''))\<rparr>)
                 30 demo_graph (demo_state ''What is RAG?'')) = Inl (Service_error ''openai'')"
  using graph_generation_failure [of 30 demo_graph "demo_state ''What is RAG?''"
      "demo_services\<lparr>llm := (\<lambda>_. Inl (Service_error ''openai''))\<rparr>" "[demo_doc]" "[]" "Service_error ''openai''"]
  by (simp add: demo_defs ensemble_invoke_def bm25_top_n_def weighted_rrf_def)

text \<open>
  C23 (equivalence): the question cache of \<open>RetrieveNode\<close> is an optimisation only:
  from a consistent cache, the run's outcome and its streamed outputs are those of the
  same run with an empty cache.
\<close>

theorem retrieve_cache_transparent:
  assumes "3 \<le> limit" and "cache_consistent svc g"
  shows "rr_outcome (graph_run svc limit g s) = rr_outcome (graph_run svc limit (g\<lparr>g_cache := []\<rparr>) s)
       \<and> rr_trace (graph_run svc limit g s) = rr_trace (graph_run svc limit (g\<lparr>g_cache := []\<rparr>) s)"
proof (cases "dict_get (g_cache g) (question s)")
  case None
  then show ?thesis using assms(1)
    by (simp add: graph_run_eq_ref graph_ref_def retrieve_node_miss Let_def
             split: sum.splits prod.splits doc_check.splits)
next
  case (Some docs)
  then have "ensemble_invoke svc (g_retriever g) (question s) = Inr docs"
    using assms(2) by (simp add: cache_consistent_def)
  with Some show ?thesis using assms(1)
    by (simp add: graph_run_eq_ref graph_ref_def retrieve_node_miss retrieve_node_hit Let_def
             split: sum.splits prod.splits doc_check.splits)
qed

theorem retrieve_cache_transparent_witness:
  "rr_outcome (graph_run demo_services 30 (demo_graph\<lparr>g_cache := [(''What is RAG?'', [demo_doc])]\<rparr>)
                (demo_state ''What is RAG?''))
   = rr_outcome (graph_run demo_services 30 demo_graph (demo_state ''What is RAG?''))"
proof -
  have "cache_consistent demo_services (demo_graph\<lparr>g_cache := [(''What is RAG?'', [demo_doc])]\<rparr>)"
    by (simp add: cache_consistent_def dict_get_def demo_defs ensemble_invoke_def bm25_top_n_def
                  weighted_rrf_def)
  from retrieve_cache_transparent [OF _ this, of 30 "demo_state ''What is RAG?''"]
  show ?thesis by (simp add: demo_graph_def)
qed

text \<open>
  C24 (invariant): every run keeps the cache consistent: each entry the run adds is what
  the retriever returned for that question.
\<close>

theorem cache_consistent_preserved:
  "cache_consistent svc g \<Longrightarrow> cache_consistent svc (rr_graph (graph_run svc limit g s))"
  using exec_from_graph [of svc limit Retrieve s g]
  by (auto simp: graph_run_def cache_consistent_def dict_get_set split: if_splits)

theorem cache_consistent_preserved_witness:
  "cache_consistent demo_services (rr_graph (graph_run demo_services 30 demo_graph (demo_state ''What is RAG?'')))"
  by (rule cache_consistent_preserved) (simp add: cache_consistent_def demo_graph_def)

text \<open>
  C25 (bounds): the question cache is unbounded: every successful retrieval of a new
  question appends an entry and no entry is ever evicted, so the cache grows with the
  number of distinct questions the graph has answered.
\<close>

theorem retrieve_cache_grows:
  assumes "1 \<le> limit"
    and "dict_get (g_cache g) (question s) = None"
    and "ensemble_invoke svc (g_retriever g) (question s) = Inr docs"
  shows "dict_keys (g_cache (rr_graph (graph_run svc limit g s))) = dict_keys (g_cache g) @ [question s]"
proof -
  obtain f where f: "limit = Suc f" using assms(1) by (cases limit) auto
  have "rr_graph (graph_run svc limit g s) = g\<lparr>g_cache := dict_set (g_cache g) (question s) docs\<rparr>"
    using f assms by (auto simp: graph_run_def retrieve_node_miss Let_def exec_from_graph_other
                             split: target.splits)
  moreover have "question s \<notin> set (dict_keys (g_cache g))"
    using assms(2) dict_mem_iff [of "question s" "g_cache g"] by (simp add: dict_mem_def)
  ultimately show ?thesis by (simp add: dict_keys_set)
qed

theorem retrieve_cache_grows_witness:
  "dict_keys (g_cache (rr_graph (graph_run demo_services 30 demo_graph (demo_state ''What is RAG?''))))
     = [''What is RAG?'']"
  using retrieve_cache_grows [of 30 demo_graph "demo_state ''What is RAG?''" demo_services "[demo_doc]"]
  by (simp add: demo_defs ensemble_invoke_def bm25_top_n_def weighted_rrf_def dict_keys_def)

text \<open>
  C1 (safety): with a retriever built by \<open>init_retriever\<close>, no run ever calls web
  search: the BM25 half of the ensemble indexes the characters of the index directory's
  name, so it returns at least one document for every query and \<open>check_documents\<close>
  always routes to \<open>generate_answer\<close>.
\<close>

theorem web_search_unreachable:
  assumes "init_retriever svc db fetch_k top_n = Inr r"
    and "g_retriever g = r" and "cache_consistent svc g"
  shows "Web_search_call q \<notin> set (rr_calls (graph_run svc limit g s))"
proof (cases limit)
  case 0
  then show ?thesis by (simp add: graph_run_def)
next
  case (Suc f)
  have nonempty: "docs \<noteq> []" if "ensemble_invoke svc r (question s) = Inr docs" for docs
    using init_retriever_ensemble_nonempty [OF assms(1) that] .
  show ?thesis
  proof (cases "dict_get (g_cache g) (question s)")
    case None
    then show ?thesis using Suc assms(2) nonempty exec_from_Generate_no_web
      by (auto simp: graph_run_def retrieve_node_miss Let_def split: sum.splits)
  next
    case (Some docs)
    with assms(2,3) have "docs \<noteq> []"
      using nonempty by (auto simp: cache_consistent_def)
    with Some Suc show ?thesis using exec_from_Generate_no_web
      by (auto simp: graph_run_def retrieve_node_hit Let_def)
  qed
qed

theorem web_search_unreachable_witness:
  "Web_search_call ''Who wrote it?'' \<notin> set (rr_calls (graph_run demo_services 30
     \<lparr>g_retriever = projr (init_retriever demo_services ''LANGCHAIN_DB_INDEX_demo'' 10 3), g_cache = []\<rparr>
     (demo_state ''Who wrote it?'')))"
  by (rule web_search_unreachable [of demo_services "''LANGCHAIN_DB_INDEX_demo''" 10 3])
     (simp_all add: demo_defs init_retriever_def bm25_from_texts_def cache_consistent_def)

end
