(* ===== verification/Progress.thy ===== *)
theory Progress
  imports Prelude
begin

text \<open>
  The progress channel of \<open>app.py\<close>. \<open>progress_queues\<close> maps a thread id to a
  \<open>queue.Queue\<close> object; a queue is shared by reference, so the model keeps an explicit
  store of queue objects (\<open>store\<close>, allocated from \<open>next_obj\<close>) and a registry from
  ids to objects. \<open>run_graph\<close> is the producer: it looks its queue up once (creating it
  when absent) and then puts its messages into that object, whether or not the registry
  still lists it. \<open>stream_progress\<close> is the consumer: the request handler picks the key
  (the given id when registered, otherwise a fresh \<open>str(time.time())\<close> with a new queue),
  the generator fetches the queue, yields the opening step, polls with a one-second
  timeout until \<open>"DONE"\<close> or 60 consecutive empty polls, yields \<open>{"done": true}\<close> and
  deletes the registry entry. Producers and consumers are processes whose atomic steps a
  scheduler interleaves (\<open>sys_step\<close>); \<open>sys_reach\<close> is the reachability relation.
  The step texts of the user interface are opaque display strings; \<open>ui_text\<close> names
  them, the sentinel \<open>"DONE"\<close> is \<open>QDone\<close>.
\<close>

section \<open>Messages\<close>

datatype ui_text = Txt_analyzing | Txt_retrieve | Txt_grade | Txt_answer | Txt_web

datatype qmsg = QStep ui_text | QDone

datatype sse = Sse_step ui_text | Sse_done

section \<open>The registry and the queue objects\<close>

record bus =
  registry :: "(string, nat) pydict"
  store :: "nat \<Rightarrow> qmsg list"
  next_obj :: nat

definition new_queue :: "bus \<Rightarrow> nat \<times> bus" where
  "new_queue b = (next_obj b, b\<lparr>store := (store b)(next_obj b := []), next_obj := Suc (next_obj b)\<rparr>)"

text \<open>\<open>if thread_id not in progress_queues: progress_queues[thread_id] = queue.Queue()\<close>
  followed by \<open>q = progress_queues[thread_id]\<close> (\<open>run_graph\<close>).\<close>

definition get_queue :: "string \<Rightarrow> bus \<Rightarrow> nat \<times> bus" where
  "get_queue tid b =
     (case dict_get (registry b) tid of
        Some r \<Rightarrow> (r, b)
      | None \<Rightarrow> (let (r, b') = new_queue b in (r, b'\<lparr>registry := dict_set (registry b') tid r\<rparr>)))"

definition q_put :: "nat \<Rightarrow> qmsg \<Rightarrow> bus \<Rightarrow> bus" where
  "q_put r m b = b\<lparr>store := (store b)(r := store b r @ [m])\<rparr>"

definition q_puts :: "nat \<Rightarrow> qmsg list \<Rightarrow> bus \<Rightarrow> bus" where
  "q_puts r ms b = fold (q_put r) ms b"

section \<open>The consumer: stream_progress\<close>

text \<open>Where a consumer is: its request not yet handled (the \<open>thread_id\<close> argument and the
  value \<open>str(time.time())\<close> would have), its generator not yet started, polling its queue
  with the \<open>timeout_counter\<close>, about to yield the closing event, about to clean up,
  finished, or failed.\<close>

datatype cstate =
    C_request "string option" string
  | C_start string
  | C_poll string nat nat
  | C_close string
  | C_cleanup string
  | C_end
  | C_error error

definition sse_timeout :: nat where
  "sse_timeout = 60"

text \<open>The request handler: \<open>if not thread_id or thread_id not in progress_queues\<close>.\<close>

definition stream_request :: "string option \<Rightarrow> string \<Rightarrow> bus \<Rightarrow> string \<times> bus" where
  "stream_request tid now b =
     (case tid of
        Some t \<Rightarrow> if t \<noteq> [] \<and> dict_mem t (registry b) then (t, b)
                  else (let (r, b') = new_queue b in (now, b'\<lparr>registry := dict_set (registry b') now r\<rparr>))
      | None \<Rightarrow> (let (r, b') = new_queue b in (now, b'\<lparr>registry := dict_set (registry b') now r\<rparr>)))"

fun consumer_step :: "bus \<Rightarrow> cstate \<Rightarrow> bus \<times> cstate \<times> sse list" where
  "consumer_step b (C_request tid now) = (case stream_request tid now b of (k, b') \<Rightarrow> (b', C_start k, []))"
| "consumer_step b (C_start k) =
     (case dict_get (registry b) k of
        None \<Rightarrow> (b, C_error (Key_error k), [])
      | Some r \<Rightarrow> (b, C_poll k r 0, [Sse_step Txt_analyzing]))"
| "consumer_step b (C_poll k r n) =
     (if n < sse_timeout then
        (case store b r of
           [] \<Rightarrow> (b, C_poll k r (Suc n), [])
         | m # ms \<Rightarrow>
             (let b' = b\<lparr>store := (store b)(r := ms)\<rparr> in
              case m of
                QDone \<Rightarrow> (b', C_close k, [])
              | QStep t \<Rightarrow> (b', C_poll k r 0, [Sse_step t])))
      else (b, C_close k, []))"
| "consumer_step b (C_close k) = (b, C_cleanup k, [Sse_done])"
| "consumer_step b (C_cleanup k) =
     ((if dict_mem k (registry b) then b\<lparr>registry := dict_del (registry b) k\<rparr> else b), C_end, [])"
| "consumer_step b C_end = (b, C_end, [])"
| "consumer_step b (C_error e) = (b, C_error e, [])"

section \<open>The producer: run_graph's use of the channel\<close>

text \<open>A producer first opens its queue for its thread id, then puts its messages one by
  one into the object it obtained.\<close>

datatype pstate = P_open string "qmsg list" | P_put nat "qmsg list" | P_end

fun producer_step :: "bus \<Rightarrow> pstate \<Rightarrow> bus \<times> pstate" where
  "producer_step b (P_open tid ms) = (case get_queue tid b of (r, b') \<Rightarrow> (b', P_put r ms))"
| "producer_step b (P_put r []) = (b, P_end)"
| "producer_step b (P_put r (m # ms)) = (q_put r m b, P_put r ms)"
| "producer_step b P_end = (b, P_end)"

section \<open>Interleavings\<close>

datatype proc = Producer pstate | Consumer cstate "sse list"

record sysm =
  sys_bus :: bus
  procs :: "proc list"

fun proc_step :: "bus \<Rightarrow> proc \<Rightarrow> bus \<times> proc" where
  "proc_step b (Producer p) = (case producer_step b p of (b', p') \<Rightarrow> (b', Producer p'))"
| "proc_step b (Consumer c out) =
     (case consumer_step b c of (b', c', evs) \<Rightarrow> (b', Consumer c' (out @ evs)))"

text \<open>The scheduler picks a process by its index; an index past the end is an idle step.\<close>

definition sys_step :: "sysm \<Rightarrow> nat \<Rightarrow> sysm" where
  "sys_step s i =
     (if i < length (procs s) then
        (case proc_step (sys_bus s) (procs s ! i) of
           (b', p') \<Rightarrow> \<lparr>sys_bus = b', procs = (procs s)[i := p']\<rparr>)
      else s)"

definition run_sched :: "sysm \<Rightarrow> nat list \<Rightarrow> sysm" where
  "run_sched s sched = fold (\<lambda>i t. sys_step t i) sched s"

inductive sys_reach :: "sysm \<Rightarrow> sysm \<Rightarrow> bool" where
  reach_refl: "sys_reach s s"
| reach_step: "sys_reach s t \<Longrightarrow> sys_reach s (sys_step t i)"

definition empty_bus :: bus where
  "empty_bus = \<lparr>registry = [], store = (\<lambda>_. []), next_obj = 0\<rparr>"

text \<open>The bus is well formed when the registry has no duplicate key and names only
  allocated queue objects.\<close>

definition bus_wf :: "bus \<Rightarrow> bool" where
  "bus_wf b = (dict_wf (registry b) \<and> (\<forall>k r. dict_get (registry b) k = Some r \<longrightarrow> r < next_obj b))"

text \<open>The invariant of the early-subscriber interleaving: a consumer that subscribed
  before the producer opened its queue owns a fresh queue object \<open>rc\<close> under the key
  \<open>now\<close>; the producer writes to another object, and its thread id, once registered,
  stays registered.\<close>

fun race_producer_ok :: "string \<Rightarrow> nat \<Rightarrow> bus \<Rightarrow> proc \<Rightarrow> bool" where
  "race_producer_ok tid rc b (Producer (P_open t ms)) = (t = tid \<and> \<not> dict_mem tid (registry b))"
| "race_producer_ok tid rc b (Producer (P_put r ms)) = (r \<noteq> rc \<and> dict_mem tid (registry b))"
| "race_producer_ok tid rc b (Producer P_end) = dict_mem tid (registry b)"
| "race_producer_ok tid rc b (Consumer c out) = False"

fun race_consumer_ok :: "string \<Rightarrow> nat \<Rightarrow> bus \<Rightarrow> proc \<Rightarrow> bool" where
  "race_consumer_ok now rc b (Consumer (C_start k) out) = (k = now \<and> dict_get (registry b) now = Some rc \<and> out = [])"
| "race_consumer_ok now rc b (Consumer (C_poll k r n) out) = (k = now \<and> r = rc \<and> out = [Sse_step Txt_analyzing])"
| "race_consumer_ok now rc b (Consumer (C_close k) out) = (k = now \<and> out = [Sse_step Txt_analyzing])"
| "race_consumer_ok now rc b (Consumer (C_cleanup k) out) = (k = now \<and> out = [Sse_step Txt_analyzing, Sse_done])"
| "race_consumer_ok now rc b (Consumer C_end out) = (out = [Sse_step Txt_analyzing, Sse_done])"
| "race_consumer_ok now rc b _ = False"

definition race_inv :: "string \<Rightarrow> string \<Rightarrow> nat \<Rightarrow> sysm \<Rightarrow> bool" where
  "race_inv tid now rc s =
     (length (procs s) = 2 \<and> race_producer_ok tid rc (sys_bus s) (procs s ! 0)
      \<and> race_consumer_ok now rc (sys_bus s) (procs s ! 1)
      \<and> store (sys_bus s) rc = [] \<and> rc < next_obj (sys_bus s)
      \<and> (\<forall>k. dict_get (registry (sys_bus s)) k = Some rc \<longrightarrow> k = now))"

definition race_demo :: sysm where
  "race_demo = \<lparr>sys_bus = empty_bus,
     procs = [Producer (P_open ''t1'' [QStep Txt_retrieve, QStep Txt_answer, QDone]), Consumer (C_request (Some ''t1'') ''n1'') []]\<rparr>"

section \<open>Schedules\<close>

lemma run_sched_Nil [simp]: "run_sched s [] = s"
  by (simp add: run_sched_def)

lemma run_sched_Cons [simp]: "run_sched s (i # is) = run_sched (sys_step s i) is"
  by (simp add: run_sched_def)

lemma run_sched_append: "run_sched s (xs @ ys) = run_sched (run_sched s xs) ys"
  by (simp add: run_sched_def)

lemma sys_step_consumer:
  "i < length (procs s) \<Longrightarrow> procs s ! i = Consumer c out \<Longrightarrow> consumer_step (sys_bus s) c = (b', c', evs) \<Longrightarrow>
   sys_step s i = \<lparr>sys_bus = b', procs = (procs s)[i := Consumer c' (out @ evs)]\<rparr>"
  by (simp add: sys_step_def)

lemma sys_step_producer:
  "i < length (procs s) \<Longrightarrow> procs s ! i = Producer p \<Longrightarrow> producer_step (sys_bus s) p = (b', p') \<Longrightarrow>
   sys_step s i = \<lparr>sys_bus = b', procs = (procs s)[i := Producer p']\<rparr>"
  by (simp add: sys_step_def)

lemma consumer_drain:
  assumes "i < length (procs s)" and "procs s ! i = Consumer (C_poll k r 0) out"
    and "store (sys_bus s) r = map QStep ts @ QDone # rest"
  shows "run_sched s (replicate (Suc (length ts)) i) =
    \<lparr>sys_bus = (sys_bus s)\<lparr>store := (store (sys_bus s))(r := rest)\<rparr>,
     procs = (procs s)[i := Consumer (C_close k) (out @ map Sse_step ts)]\<rparr>"
  using assms
proof (induction ts arbitrary: s out)
  case Nil
  then show ?case by (simp add: sys_step_def sse_timeout_def Let_def fun_upd_def)
next
  case (Cons t ts)
  let ?s' = "\<lparr>sys_bus = (sys_bus s)\<lparr>store := (store (sys_bus s))(r := map QStep ts @ QDone # rest)\<rparr>,
             procs = (procs s)[i := Consumer (C_poll k r 0) (out @ [Sse_step t])]\<rparr>"
  have step: "sys_step s i = ?s'"
    using Cons.prems by (simp add: sys_step_def sse_timeout_def Let_def)
  have ih: "run_sched ?s' (replicate (Suc (length ts)) i) =
    \<lparr>sys_bus = (sys_bus ?s')\<lparr>store := (store (sys_bus ?s'))(r := rest)\<rparr>,
     procs = (procs ?s')[i := Consumer (C_close k) ((out @ [Sse_step t]) @ map Sse_step ts)]\<rparr>"
    using Cons.prems by (intro Cons.IH) simp_all
  have "run_sched s (replicate (Suc (length (t # ts))) i) = run_sched (sys_step s i) (replicate (Suc (length ts)) i)"
    by simp
  also have "\<dots> = run_sched ?s' (replicate (Suc (length ts)) i)"
    unfolding step ..
  also note ih
  also have "\<lparr>sys_bus = (sys_bus ?s')\<lparr>store := (store (sys_bus ?s'))(r := rest)\<rparr>,
     procs = (procs ?s')[i := Consumer (C_close k) ((out @ [Sse_step t]) @ map Sse_step ts)]\<rparr> =
    \<lparr>sys_bus = (sys_bus s)\<lparr>store := (store (sys_bus s))(r := rest)\<rparr>,
     procs = (procs s)[i := Consumer (C_close k) (out @ map Sse_step (t # ts))]\<rparr>"
    by simp
  finally show ?case .
qed

lemma consumer_timeout:
  assumes "i < length (procs s)" and "procs s ! i = Consumer (C_poll k r n) out"
    and "store (sys_bus s) r = []" and "n \<le> sse_timeout"
  shows "run_sched s (replicate (Suc (sse_timeout - n)) i) = s\<lparr>procs := (procs s)[i := Consumer (C_close k) out]\<rparr>"
  using assms
proof (induction "sse_timeout - n" arbitrary: n s)
  case 0
  then have "n = sse_timeout" by simp
  with 0 show ?case by (simp add: sys_step_def)
next
  case (Suc m)
  then have n: "n < sse_timeout" by simp
  let ?s' = "s\<lparr>procs := (procs s)[i := Consumer (C_poll k r (Suc n)) out]\<rparr>"
  have step: "sys_step s i = ?s'"
    using Suc.prems n by (simp add: sys_step_def)
  have "run_sched ?s' (replicate (Suc (sse_timeout - Suc n)) i) = ?s'\<lparr>procs := (procs ?s')[i := Consumer (C_close k) out]\<rparr>"
    using Suc n by (intro Suc.hyps) simp_all
  moreover have "Suc (sse_timeout - n) = Suc (Suc (sse_timeout - Suc n))" using n by simp
  ultimately show ?case using step by simp
qed

lemma sys_reach_run_sched: "sys_reach s (run_sched s sched)"
proof (induction sched rule: rev_induct)
  case Nil
  then show ?case by (simp add: reach_refl)
next
  case (snoc i sched)
  then show ?case by (simp add: run_sched_def reach_step)
qed

section \<open>Well-formedness of the registry\<close>

lemma bus_wf_empty [simp]: "bus_wf empty_bus"
  by (simp add: bus_wf_def empty_bus_def dict_get_def)

lemma bus_wf_fresh:
  "bus_wf b \<Longrightarrow> registry b' = dict_set (registry b) k (next_obj b) \<Longrightarrow> next_obj b' = Suc (next_obj b) \<Longrightarrow> bus_wf b'"
  by (auto simp: bus_wf_def dict_get_set less_Suc_eq)

lemma get_queue_wf: "bus_wf b \<Longrightarrow> get_queue tid b = (r, b') \<Longrightarrow> bus_wf b'"
  by (auto simp: get_queue_def new_queue_def intro: bus_wf_fresh split: option.splits)

lemma stream_request_wf: "bus_wf b \<Longrightarrow> stream_request tid now b = (k, b') \<Longrightarrow> bus_wf b'"
  by (auto simp: stream_request_def new_queue_def intro: bus_wf_fresh split: option.splits if_splits)

lemma bus_wf_store [simp]: "bus_wf (b\<lparr>store := st\<rparr>) = bus_wf b"
  by (simp add: bus_wf_def)

lemma bus_wf_del: "bus_wf b \<Longrightarrow> bus_wf (b\<lparr>registry := dict_del (registry b) k\<rparr>)"
  by (auto simp: bus_wf_def dict_get_del)

lemma consumer_step_wf: "bus_wf b \<Longrightarrow> bus_wf (fst (consumer_step b c))"
  by (cases "(b, c)" rule: consumer_step.cases)
     (auto simp: Let_def bus_wf_del stream_request_wf split: prod.split option.split list.split qmsg.split)

lemma q_put_wf [simp]: "bus_wf (q_put r m b) = bus_wf b"
  by (simp add: q_put_def)

lemma producer_step_wf: "bus_wf b \<Longrightarrow> bus_wf (fst (producer_step b p))"
  by (cases "(b, p)" rule: producer_step.cases) (auto simp: get_queue_wf split: prod.split)

lemma proc_step_wf: "bus_wf b \<Longrightarrow> bus_wf (fst (proc_step b p))"
  using consumer_step_wf producer_step_wf
  by (cases p) (auto split: prod.split, metis fst_conv, metis fst_conv)

lemma sys_step_wf: "bus_wf (sys_bus s) \<Longrightarrow> bus_wf (sys_bus (sys_step s i))"
  using proc_step_wf [of "sys_bus s" "procs s ! i"]
  by (auto simp: sys_step_def split: prod.split)

text \<open>Every state reachable by any interleaving of producers and consumers
  keeps the registry well formed: no thread id twice, and every registered id names an
  allocated queue object.\<close>

theorem progress_registry_wf:
  "sys_reach s t \<Longrightarrow> bus_wf (sys_bus s) \<Longrightarrow> bus_wf (sys_bus t)"
  by (induction rule: sys_reach.induct) (auto intro: sys_step_wf)

theorem progress_registry_wf_witness:
  "bus_wf (sys_bus (run_sched race_demo [1, 0, 0, 1, 0, 1, 0, 1, 1, 1]))"
  by (rule progress_registry_wf [OF sys_reach_run_sched]) (simp add: race_demo_def)

section \<open>Runs of a single process\<close>

lemma q_puts_bus [simp]:
  "store (q_puts r ms b) = (store b)(r := store b r @ ms)"
  "registry (q_puts r ms b) = registry b" "next_obj (q_puts r ms b) = next_obj b"
  by (induction ms arbitrary: b) (simp_all add: q_puts_def q_put_def)

lemma producer_puts:
  assumes "i < length (procs s)" and "procs s ! i = Producer (P_put r ms)"
  shows "run_sched s (replicate (Suc (length ms)) i) =
    \<lparr>sys_bus = q_puts r ms (sys_bus s), procs = (procs s)[i := Producer P_end]\<rparr>"
  using assms
proof (induction ms arbitrary: s)
  case Nil
  then show ?case by (simp add: sys_step_def q_puts_def)
next
  case (Cons m ms)
  let ?s' = "\<lparr>sys_bus = q_put r m (sys_bus s), procs = (procs s)[i := Producer (P_put r ms)]\<rparr>"
  have "run_sched s (replicate (Suc (length (m # ms))) i) = run_sched (sys_step s i) (replicate (Suc (length ms)) i)"
    by simp
  also have "\<dots> = run_sched ?s' (replicate (Suc (length ms)) i)"
    using Cons.prems by (simp add: sys_step_def)
  also have "\<dots> = \<lparr>sys_bus = q_puts r ms (sys_bus ?s'), procs = (procs ?s')[i := Producer P_end]\<rparr>"
    using Cons.prems by (intro Cons.IH) simp_all
  also have "\<dots> = \<lparr>sys_bus = q_puts r (m # ms) (sys_bus s), procs = (procs s)[i := Producer P_end]\<rparr>"
    by (simp add: q_puts_def)
  finally show ?case .
qed

lemma replicate_split_5: "replicate (n + 5) x = [x, x] @ replicate (Suc n) x @ [x, x]"
  by (simp add: numeral_eq_Suc replicate_append_same [symmetric])

section \<open>A subscriber whose id never started\<close>

text \<open>C15 (functional) \<open>stream_progress\<close> for a thread id that is not registered opens a
  fresh queue under the key \<open>str(time.time())\<close>, yields the opening step, polls 60 times,
  yields \<open>{"done": true}\<close> and deletes the key: the observer sees one step event and the
  terminal event, and the registry is back to what it was.\<close>

theorem progress_unknown_id_times_out:
  assumes "\<not> dict_mem tid (registry b)" and "\<not> dict_mem now (registry b)"
  shows "run_sched \<lparr>sys_bus = b, procs = [Consumer (C_request (Some tid) now) []]\<rparr> (replicate (sse_timeout + 5) 0) =
    \<lparr>sys_bus = b\<lparr>store := (store b)(next_obj b := []), next_obj := Suc (next_obj b)\<rparr>,
     procs = [Consumer C_end [Sse_step Txt_analyzing, Sse_done]]\<rparr>"
proof -
  let ?b1 = "b\<lparr>store := (store b)(next_obj b := []), next_obj := Suc (next_obj b),
              registry := dict_set (registry b) now (next_obj b)\<rparr>"
  let ?s2 = "\<lparr>sys_bus = ?b1, procs = [Consumer (C_poll now (next_obj b) 0) [Sse_step Txt_analyzing]]\<rparr>"
  have "run_sched \<lparr>sys_bus = b, procs = [Consumer (C_request (Some tid) now) []]\<rparr> [0, 0] = ?s2"
    using assms by (simp add: sys_step_def stream_request_def new_queue_def dict_get_set)
  moreover have "run_sched ?s2 (replicate (Suc (sse_timeout - 0)) 0) = ?s2\<lparr>procs := [Consumer (C_close now) [Sse_step Txt_analyzing]]\<rparr>"
    by (rule trans [OF consumer_timeout [where r = "next_obj b" and n = 0]]) simp_all
  moreover have "run_sched (?s2\<lparr>procs := [Consumer (C_close now) [Sse_step Txt_analyzing]]\<rparr>) [0, 0] =
    \<lparr>sys_bus = b\<lparr>store := (store b)(next_obj b := []), next_obj := Suc (next_obj b)\<rparr>,
     procs = [Consumer C_end [Sse_step Txt_analyzing, Sse_done]]\<rparr>"
    using assms by (auto simp: sys_step_def dict_mem_set dict_del_set_fresh)
  ultimately show ?thesis
    by (simp only: replicate_split_5 run_sched_append diff_zero)
qed

theorem progress_timeout_witness:
  "run_sched \<lparr>sys_bus = empty_bus, procs = [Consumer (C_request (Some ''t1'') ''n1'') []]\<rparr> (replicate (sse_timeout + 5) 0) =
    \<lparr>sys_bus = empty_bus\<lparr>store := (store empty_bus)(next_obj empty_bus := []), next_obj := Suc (next_obj empty_bus)\<rparr>,
     procs = [Consumer C_end [Sse_step Txt_analyzing, Sse_done]]\<rparr>"
  by (rule progress_unknown_id_times_out) (simp_all add: empty_bus_def dict_mem_def dict_keys_def)

section \<open>Ordered delivery\<close>

text \<open>C14 (functional) When \<open>run_graph\<close> has put its step messages and its \<open>"DONE"\<close>
  before the observer subscribes with its thread id, the observer receives the opening
  step, then every step message in the order put, then the terminal event, and the
  consumer deletes the thread's registry entry.\<close>

theorem progress_delivers_in_order:
  assumes "tid \<noteq> []" and "\<not> dict_mem tid (registry b)"
  shows "run_sched \<lparr>sys_bus = b, procs = [Producer (P_open tid (map QStep ts @ [QDone])), Consumer (C_request (Some tid) now) []]\<rparr>
      (replicate (length ts + 3) 0 @ replicate (length ts + 5) 1) =
    \<lparr>sys_bus = b\<lparr>store := (store b)(next_obj b := []), next_obj := Suc (next_obj b)\<rparr>,
     procs = [Producer P_end, Consumer C_end (Sse_step Txt_analyzing # map Sse_step ts @ [Sse_done])]\<rparr>"
proof -
  let ?r = "next_obj b"
  let ?ms = "map QStep ts @ [QDone]"
  let ?b1 = "b\<lparr>store := (store b)(?r := []), next_obj := Suc ?r, registry := dict_set (registry b) tid ?r\<rparr>"
  let ?c0 = "Consumer (C_request (Some tid) now) []"
  have "run_sched \<lparr>sys_bus = b, procs = [Producer (P_open tid ?ms), ?c0]\<rparr> [0] =
    \<lparr>sys_bus = ?b1, procs = [Producer (P_put ?r ?ms), ?c0]\<rparr>"
    using assms by (simp add: sys_step_def get_queue_def new_queue_def dict_mem_iff)
  moreover have "run_sched \<lparr>sys_bus = ?b1, procs = [Producer (P_put ?r ?ms), ?c0]\<rparr> (replicate (Suc (length ?ms)) 0) =
    \<lparr>sys_bus = q_puts ?r ?ms ?b1, procs = [Producer P_end, ?c0]\<rparr>"
    by (rule trans [OF producer_puts]) simp_all
  ultimately have p: "run_sched \<lparr>sys_bus = b, procs = [Producer (P_open tid ?ms), ?c0]\<rparr> (replicate (length ts + 3) 0) =
    \<lparr>sys_bus = q_puts ?r ?ms ?b1, procs = [Producer P_end, ?c0]\<rparr>"
    by (simp add: numeral_eq_Suc)
  let ?b2 = "q_puts ?r ?ms ?b1"
  let ?s4 = "\<lparr>sys_bus = ?b2, procs = [Producer P_end, Consumer (C_poll tid ?r 0) [Sse_step Txt_analyzing]]\<rparr>"
  let ?s5 = "\<lparr>sys_bus = ?b2\<lparr>store := (store ?b2)(?r := [])\<rparr>,
     procs = [Producer P_end, Consumer (C_close tid) ([Sse_step Txt_analyzing] @ map Sse_step ts)]\<rparr>"
  have "run_sched \<lparr>sys_bus = ?b2, procs = [Producer P_end, ?c0]\<rparr> [1, 1] = ?s4"
    using assms by (simp add: sys_step_def stream_request_def dict_mem_set dict_get_set)
  moreover have "run_sched ?s4 (replicate (Suc (length ts)) 1) = ?s5"
    by (rule trans [OF consumer_drain [where r = ?r and rest = "[]"]]) simp_all
  moreover have "run_sched ?s5 [1, 1] =
    \<lparr>sys_bus = b\<lparr>store := (store b)(next_obj b := []), next_obj := Suc (next_obj b)\<rparr>,
     procs = [Producer P_end, Consumer C_end (Sse_step Txt_analyzing # map Sse_step ts @ [Sse_done])]\<rparr>"
    using assms by (auto simp: sys_step_def dict_mem_set dict_del_set_fresh)
  ultimately show ?thesis
    using p by (simp only: replicate_split_5 run_sched_append)
qed

theorem progress_delivery_witness:
  "run_sched \<lparr>sys_bus = empty_bus, procs = [Producer (P_open ''t1'' (map QStep [Txt_retrieve, Txt_answer] @ [QDone])),
       Consumer (C_request (Some ''t1'') ''n1'') []]\<rparr>
      (replicate (length [Txt_retrieve, Txt_answer] + 3) 0 @ replicate (length [Txt_retrieve, Txt_answer] + 5) 1) =
    \<lparr>sys_bus = empty_bus\<lparr>store := (store empty_bus)(next_obj empty_bus := []), next_obj := Suc (next_obj empty_bus)\<rparr>,
     procs = [Producer P_end, Consumer C_end (Sse_step Txt_analyzing # map Sse_step [Txt_retrieve, Txt_answer] @ [Sse_done])]\<rparr>"
  by (rule progress_delivers_in_order) (simp_all add: empty_bus_def dict_mem_def dict_keys_def)

section \<open>The early subscriber\<close>

lemma race_producer_ok_bus:
  "race_producer_ok tid rc b p \<Longrightarrow> dict_mem tid (registry b') = dict_mem tid (registry b) \<Longrightarrow> race_producer_ok tid rc b' p"
  by (cases "(tid, rc, b, p)" rule: race_producer_ok.cases) auto

lemma race_consumer_ok_bus:
  "race_consumer_ok now rc b p \<Longrightarrow> dict_get (registry b') now = dict_get (registry b) now \<Longrightarrow> race_consumer_ok now rc b' p"
  by (cases "(now, rc, b, p)" rule: race_consumer_ok.cases) auto

lemma race_inv_shape:
  "race_inv tid now rc s \<Longrightarrow> \<exists>ps c out. procs s = [Producer ps, Consumer c out]"
  unfolding race_inv_def
  by (cases "procs s" rule: remdups_adj.cases; cases "procs s ! 0"; cases "procs s ! 1") auto

lemma race_producer_step:
  assumes "race_inv tid now rc \<lparr>sys_bus = b, procs = [Producer ps, Consumer c out]\<rparr>" and "now \<noteq> tid"
  shows "race_inv tid now rc (sys_step \<lparr>sys_bus = b, procs = [Producer ps, Consumer c out]\<rparr> 0)"
  using assms
  by (cases "(b, ps)" rule: producer_step.cases)
     (auto simp: race_inv_def sys_step_def get_queue_def new_queue_def q_put_def dict_mem_set dict_get_set
      dict_mem_iff split: option.splits elim!: race_consumer_ok_bus)

lemma race_consumer_step:
  assumes "race_inv tid now rc \<lparr>sys_bus = b, procs = [Producer ps, Consumer c out]\<rparr>" and "now \<noteq> tid"
  shows "race_inv tid now rc (sys_step \<lparr>sys_bus = b, procs = [Producer ps, Consumer c out]\<rparr> 1)"
  using assms
  by (cases c) (auto simp: race_inv_def sys_step_def dict_mem_del dest: dict_get_del_Some elim!: race_producer_ok_bus)

lemma race_inv_step:
  assumes "race_inv tid now rc s" and "now \<noteq> tid"
  shows "race_inv tid now rc (sys_step s i)"
proof -
  obtain ps c out where p: "procs s = [Producer ps, Consumer c out]"
    using race_inv_shape [OF assms(1)] by blast
  then have s: "s = \<lparr>sys_bus = sys_bus s, procs = [Producer ps, Consumer c out]\<rparr>" by simp
  consider "i = 0" | "i = 1" | "2 \<le> i" by linarith
  then show ?thesis
  proof cases
    case 1
    then show ?thesis using race_producer_step assms s by metis
  next
    case 2
    then show ?thesis using race_consumer_step assms s by metis
  next
    case 3
    then show ?thesis using assms p by (simp add: sys_step_def)
  qed
qed

lemma race_inv_reach: "sys_reach s t \<Longrightarrow> race_inv tid now rc s \<Longrightarrow> now \<noteq> tid \<Longrightarrow> race_inv tid now rc t"
  by (induction rule: sys_reach.induct) (auto intro: race_inv_step)

lemma race_inv_init:
  assumes "bus_wf b" and "\<not> dict_mem tid (registry b)" and "now \<noteq> tid"
  shows "race_inv tid now (next_obj b)
    (sys_step \<lparr>sys_bus = b, procs = [Producer (P_open tid ms), Consumer (C_request (Some tid) now) []]\<rparr> 1)"
  using assms
  by (auto simp: race_inv_def sys_step_def stream_request_def new_queue_def dict_mem_set dict_get_set bus_wf_def)

text \<open>C5 (safety) An observer that subscribes before \<open>run_graph\<close> has created the
  thread's queue gets a fresh queue under another key: under every interleaving it sees at
  most the opening step and the terminal event, never a step of the run.\<close>

theorem progress_early_subscriber_sees_no_steps:
  assumes "bus_wf b" and "\<not> dict_mem tid (registry b)" and "now \<noteq> tid"
    and "sys_reach (sys_step \<lparr>sys_bus = b, procs = [Producer (P_open tid ms), Consumer (C_request (Some tid) now) []]\<rparr> 1) t"
  shows "\<exists>c out. procs t ! 1 = Consumer c out \<and> prefix out [Sse_step Txt_analyzing, Sse_done]"
proof -
  have "race_inv tid now (next_obj b) t"
    using race_inv_reach [OF assms(4) race_inv_init [OF assms(1-3)] assms(3)] .
  then have "race_consumer_ok now (next_obj b) (sys_bus t) (procs t ! 1)"
    by (simp add: race_inv_def)
  then show ?thesis
    by (cases "(now, next_obj b, sys_bus t, procs t ! 1)" rule: race_consumer_ok.cases) auto
qed

theorem progress_early_subscriber_witness:
  "\<exists>c out. procs (run_sched (sys_step race_demo 1) [0, 0, 0, 0, 0, 1, 1, 1, 1, 1]) ! 1 = Consumer c out
     \<and> prefix out [Sse_step Txt_analyzing, Sse_done]"
  unfolding race_demo_def
  by (rule progress_early_subscriber_sees_no_steps [OF bus_wf_empty _ _ sys_reach_run_sched])
     (simp_all add: empty_bus_def dict_mem_def dict_keys_def)

text \<open>C6 (safety) In the same interleaving the producer's queue is never removed: once
  \<open>run_graph\<close> has opened its queue, the thread id stays in \<open>progress_queues\<close> in every
  reachable state, so the queue and its messages leak.\<close>

theorem progress_early_subscriber_leaks_channel:
  assumes "bus_wf b" and "\<not> dict_mem tid (registry b)" and "now \<noteq> tid"
    and "sys_reach (sys_step \<lparr>sys_bus = b, procs = [Producer (P_open tid ms), Consumer (C_request (Some tid) now) []]\<rparr> 1) t"
  shows "(\<exists>ms'. procs t ! 0 = Producer (P_open tid ms')) \<or> dict_mem tid (registry (sys_bus t))"
proof -
  have "race_inv tid now (next_obj b) t"
    using race_inv_reach [OF assms(4) race_inv_init [OF assms(1-3)] assms(3)] .
  then have "race_producer_ok tid (next_obj b) (sys_bus t) (procs t ! 0)"
    by (simp add: race_inv_def)
  then show ?thesis
    by (cases "(tid, next_obj b, sys_bus t, procs t ! 0)" rule: race_producer_ok.cases) auto
qed

theorem progress_leak_witness:
  "(\<exists>ms'. procs (run_sched (sys_step race_demo 1) [0, 0, 0, 0, 0, 1, 1, 1, 1, 1]) ! 0 = Producer (P_open ''t1'' ms'))
     \<or> dict_mem ''t1'' (registry (sys_bus (run_sched (sys_step race_demo 1) [0, 0, 0, 0, 0, 1, 1, 1, 1, 1])))"
  unfolding race_demo_def
  by (rule progress_early_subscriber_leaks_channel [OF bus_wf_empty _ _ sys_reach_run_sched])
     (simp_all add: empty_bus_def dict_mem_def dict_keys_def)

end
