(* ===== verification/RunGraph.thy ===== *)
theory RunGraph
  imports Graph Progress
begin

text \<open>
  \<open>app.run_graph(graph, query, thread_id)\<close>: it builds the inputs from the session's
  messages, opens the progress queue of \<open>thread_id\<close>, runs \<open>graph.stream\<close> and puts
  one message per new stream key found in its \<open>actions\<close> table, puts \<open>"DONE"\<close>, and
  then runs the graph a second time with \<open>graph.invoke\<close> for the value it returns; on
  any exception it puts \<open>"DONE"\<close> and re-raises. The graph is the object cached for the
  corpus (\<open>None\<close> when \<open>create_graph\<close> failed), so the second run starts from the
  retrieval cache the first one left. The external services answer each call anew, so
  the model gives \<open>run_graph\<close> their behaviour during the streamed execution
  (\<open>svc\<close>) and during the invoked one (\<open>svc'\<close>); with deterministic services the
  two are equal.
\<close>

section \<open>Session messages\<close>

record chat_message =
  role :: string
  content :: string

text \<open>\<open>get_message_history\<close>: role \<open>user\<close> gives a \<open>HumanMessage\<close>, any other role an
  \<open>AIMessage\<close>.\<close>

definition to_message :: "chat_message \<Rightarrow> message" where
  "to_message m = (if role m = ''user'' then HumanMessage (content m) else AIMessage (content m))"

definition get_message_history :: "chat_message list \<Rightarrow> message list" where
  "get_message_history msgs = map to_message msgs"

section \<open>The step messages\<close>

definition actions :: "(string, ui_text) pydict" where
  "actions =
     [(''retrieve'', Txt_retrieve), (''grade_documents'', Txt_grade), (''rag_answer'', Txt_answer),
      (''general_answer'', Txt_answer), (''web_search'', Txt_web)]"

text \<open>\<open>process_steps\<close> over the keys of the stream's outputs, with \<open>processed_steps\<close>.\<close>

fun process_steps :: "string set \<Rightarrow> string list \<Rightarrow> string set \<times> qmsg list" where
  "process_steps seen [] = (seen, [])"
| "process_steps seen (k # ks) =
     (case dict_get actions k of
        Some t \<Rightarrow>
          if k \<notin> seen then (case process_steps (insert k seen) ks of (d, ms) \<Rightarrow> (d, QStep t # ms))
          else process_steps seen ks
      | None \<Rightarrow> process_steps seen ks)"

section \<open>run_graph\<close>

definition recursion_limit :: nat where
  "recursion_limit = 30"

definition run_graph_inputs :: "string \<Rightarrow> message list \<Rightarrow> graph_state" where
  "run_graph_inputs query hist =
     \<lparr>question = query, documents = Some [], generation = Some [], chat_history = Some hist\<rparr>"

record rg_result =
  rg_bus :: bus
  rg_graph :: "compiled_graph option"
  rg_calls :: "ext_call list"
  rg_puts :: "qmsg list"
  rg_outcome :: "error + graph_state"

definition run_graph ::
  "services \<Rightarrow> services \<Rightarrow> compiled_graph option \<Rightarrow> string \<Rightarrow> string \<Rightarrow> chat_message list \<Rightarrow> bus
   \<Rightarrow> rg_result" where
  "run_graph svc svc' graph query tid msgs b =
     (let inputs = run_graph_inputs query (get_message_history msgs) in
      case get_queue tid b of
        (r, b1) \<Rightarrow>
          (case graph of
             None \<Rightarrow>
               \<lparr>rg_bus = q_puts r [QDone] b1, rg_graph = None, rg_calls = [], rg_puts = [QDone],
                rg_outcome = Inl (Attribute_error ''stream'')\<rparr>
           | Some g \<Rightarrow>
               (let r1 = graph_run svc recursion_limit g inputs;
                    steps = snd (process_steps {} (map fst (rr_trace r1)))
                in case rr_outcome r1 of
                     Inl e \<Rightarrow>
                       \<lparr>rg_bus = q_puts r (steps @ [QDone]) b1, rg_graph = Some (rr_graph r1),
                        rg_calls = rr_calls r1, rg_puts = steps @ [QDone], rg_outcome = Inl e\<rparr>
                   | Inr _ \<Rightarrow>
                       (let r2 = graph_run svc' recursion_limit (rr_graph r1) inputs
                        in case rr_outcome r2 of
                             Inl e \<Rightarrow>
                               \<lparr>rg_bus = q_puts r (steps @ [QDone, QDone]) b1,
                                rg_graph = Some (rr_graph r2), rg_calls = rr_calls r1 @ rr_calls r2,
                                rg_puts = steps @ [QDone, QDone], rg_outcome = Inl e\<rparr>
                           | Inr s \<Rightarrow>
                               \<lparr>rg_bus = q_puts r (steps @ [QDone]) b1,
                                rg_graph = Some (rr_graph r2), rg_calls = rr_calls r1 @ rr_calls r2,
                                rg_puts = steps @ [QDone], rg_outcome = Inr s\<rparr>))))"

section \<open>Lemmas\<close>

lemma process_steps_filter:
  "distinct ks \<Longrightarrow>
   snd (process_steps P ks) =
     map (\<lambda>k. QStep (the (dict_get actions k))) (filter (\<lambda>k. dict_mem k actions \<and> k \<notin> P) ks)"
proof (induction ks arbitrary: P)
  case (Cons k ks)
  then have ks: "distinct ks" and k: "k \<notin> set ks" by simp_all
  show ?case
  proof (cases "dict_get actions k")
    case None
    then show ?thesis using Cons.IH [OF ks, of P] by (simp add: dict_mem_iff)
  next
    case (Some t)
    show ?thesis
    proof (cases "k \<in> P")
      case True
      with Some show ?thesis using Cons.IH [OF ks, of P] by (simp add: dict_mem_iff)
    next
      case False
      have step: "snd (process_steps P (k # ks)) = QStep t # snd (process_steps (insert k P) ks)"
        using Some False by (simp split: prod.split)
      have "filter (\<lambda>k'. dict_mem k' actions \<and> k' \<notin> insert k P) ks =
            filter (\<lambda>k'. dict_mem k' actions \<and> k' \<notin> P) ks"
        using k by (auto intro: filter_cong)
      with step Some False show ?thesis using Cons.IH [OF ks, of "insert k P"] by (simp add: dict_mem_iff)
    qed
  qed
qed simp

lemma graph_names_subset:
  "set (map fst (rr_trace (graph_run svc limit g s))) \<subseteq> {''retrieve'', ''web_search'', ''generate_answer''}"
  using exec_from_Retrieve_names [of svc limit s g] by (auto simp: graph_run_def)

lemma actions_lookup:
  "k \<in> {''retrieve'', ''web_search'', ''generate_answer''} \<Longrightarrow>
   dict_get actions k = (if k = ''retrieve'' then Some Txt_retrieve
                         else if k = ''web_search'' then Some Txt_web else None)"
  by (auto simp: actions_def dict_get_def)

lemma run_graph_puts_cases:
  "\<exists>r. rg_puts (run_graph svc svc' graph query tid msgs b) \<in>
     {[QDone], snd (process_steps {} (map fst (rr_trace r))) @ [QDone],
      snd (process_steps {} (map fst (rr_trace r))) @ [QDone, QDone]}
     \<and> (\<exists>svc0 g s. r = graph_run svc0 recursion_limit g s)"
  by (auto simp: run_graph_def Let_def split: prod.splits option.splits sum.splits)

lemma process_steps_set:
  "m \<in> set (snd (process_steps P ks)) \<Longrightarrow> \<exists>k t. m = QStep t \<and> k \<in> set ks \<and> dict_get actions k = Some t"
proof (induction P ks rule: process_steps.induct)
  case (2 d k ks)
  show ?case
  proof (cases "dict_get actions k")
    case None
    with 2 show ?thesis by auto
  next
    case (Some t)
    with 2 show ?thesis by (auto split: if_splits prod.splits)
  qed
qed simp

lemma run_graph_step_texts:
  "m \<in> set (snd (process_steps P (map fst (rr_trace (graph_run svc limit g s))))) \<Longrightarrow>
   m = QStep Txt_retrieve \<or> m = QStep Txt_web"
proof -
  assume "m \<in> set (snd (process_steps P (map fst (rr_trace (graph_run svc limit g s)))))"
  then obtain k t where m: "m = QStep t" and k: "k \<in> set (map fst (rr_trace (graph_run svc limit g s)))"
    and t: "dict_get actions k = Some t"
    using process_steps_set by blast
  from k have "k \<in> {''retrieve'', ''web_search'', ''generate_answer''}"
    using graph_names_subset by blast
  with t m show ?thesis by (auto simp: actions_lookup split: if_splits)
qed

lemma QDone_notin_steps: "QDone \<notin> set (snd (process_steps P ks))"
  using process_steps_set by blast

lemma graph_names_distinct: "distinct (map fst (rr_trace (graph_run svc limit g s)))"
  using exec_from_Retrieve_names [of svc limit s g] by (auto simp: graph_run_def)

lemma run_graph_retriever:
  "rg_graph (run_graph svc svc' (Some g) q tid msgs b) = Some g' \<Longrightarrow> g_retriever g' = g_retriever g"
  by (auto simp: run_graph_def Let_def graph_run_retriever split: prod.splits sum.splits)


lemma run_graph_None: "rg_graph (run_graph svc svc' None q tid msgs b) = None"
  by (simp add: run_graph_def split: prod.split)


lemma run_graph_Some: "\<exists>g'. rg_graph (run_graph svc svc' (Some g) q tid msgs b) = Some g'"
  by (auto simp: run_graph_def Let_def split: prod.splits sum.splits)


section \<open>Properties\<close>

text \<open>
  C38 (termination): the \<open>recursion_limit\<close> of 30 that \<open>run_graph\<close> configures is
  never reached: every run of the compiled graph under that limit is the straight-line
  orchestration \<open>graph_ref\<close>, so no execution ends in \<open>GraphRecursionError\<close>.
\<close>

theorem recursion_limit_sufficient: "graph_run svc recursion_limit g s = graph_ref svc g s"
  by (simp add: graph_run_eq_ref recursion_limit_def)

text \<open>
  C21 (functional, negative): \<open>run_graph\<close> never puts the answer-generation or the
  grading step message: its \<open>actions\<close> table knows \<open>rag_answer\<close>,
  \<open>general_answer\<close> and \<open>grade_documents\<close>, but the graph's generation node is named
  \<open>generate_answer\<close> and no node is named after the others.
\<close>

theorem run_graph_no_answer_event:
  "QStep Txt_answer \<notin> set (rg_puts (run_graph svc svc' graph query tid msgs b))
   \<and> QStep Txt_grade \<notin> set (rg_puts (run_graph svc svc' graph query tid msgs b))"
proof -
  obtain r svc0 g s where
    puts: "rg_puts (run_graph svc svc' graph query tid msgs b) \<in>
       {[QDone], snd (process_steps {} (map fst (rr_trace r))) @ [QDone],
        snd (process_steps {} (map fst (rr_trace r))) @ [QDone, QDone]}"
    and r: "r = graph_run svc0 recursion_limit g s"
    using run_graph_puts_cases by blast
  have "m \<in> set (snd (process_steps {} (map fst (rr_trace r)))) \<Longrightarrow> m \<noteq> QStep Txt_answer \<and> m \<noteq> QStep Txt_grade" for m
    using run_graph_step_texts [of m "{}" svc0 recursion_limit g s] r by auto
  with puts show ?thesis by fastforce
qed

text \<open>
  The step messages \<open>run_graph\<close> puts are exactly one per node of
  the streamed run that has an entry in \<open>actions\<close>, in the order the nodes ran, with no
  repetition.
\<close>

theorem run_graph_step_events:
  "filter (\<lambda>m. m \<noteq> QDone) (rg_puts (run_graph svc svc' (Some g) query tid msgs b)) =
   map (\<lambda>k. QStep (the (dict_get actions k)))
     (filter (\<lambda>k. dict_mem k actions)
        (map fst (rr_trace (graph_run svc recursion_limit g (run_graph_inputs query (get_message_history msgs))))))"
proof -
  let ?ks = "map fst (rr_trace (graph_run svc recursion_limit g (run_graph_inputs query (get_message_history msgs))))"
  have steps: "snd (process_steps {} ?ks) = map (\<lambda>k. QStep (the (dict_get actions k))) (filter (\<lambda>k. dict_mem k actions) ?ks)"
    using process_steps_filter [OF graph_names_distinct] by simp
  have nodone: "filter (\<lambda>m. m \<noteq> QDone) (snd (process_steps {} ?ks)) = snd (process_steps {} ?ks)"
    using QDone_notin_steps by (metis (mono_tags, lifting) filter_id_conv)
  obtain r b1 where q: "get_queue tid b = (r, b1)" by fastforce
  show ?thesis
  proof (cases "rr_outcome (graph_run svc recursion_limit g (run_graph_inputs query (get_message_history msgs)))")
    case (Inl e)
    with q steps nodone show ?thesis by (simp add: run_graph_def Let_def)
  next
    case (Inr s1)
    with q steps nodone show ?thesis by (simp add: run_graph_def Let_def split: sum.splits)
  qed
qed

text \<open>
  C22 (liveness): every call of \<open>run_graph\<close>, whatever happens, ends its messages with
  \<open>"DONE"\<close>, after every step message; \<open>"DONE"\<close> is put twice exactly when a graph was
  given, the streamed run succeeded and the call still failed (the invoked run raised: its
  handler puts a second \<open>"DONE"\<close>), and once on every other path.
\<close>

theorem run_graph_done_last:
  "\<exists>steps. QDone \<notin> set steps \<and>
     rg_puts (run_graph svc svc' graph query tid msgs b) =
       steps @ replicate
         (if (\<exists>g. graph = Some g \<and>
                  \<not> isl (rr_outcome (graph_run svc recursion_limit g (run_graph_inputs query (get_message_history msgs)))))
             \<and> isl (rg_outcome (run_graph svc svc' graph query tid msgs b))
          then 2 else 1) QDone"
proof -
  obtain r b1 where q: "get_queue tid b = (r, b1)" by fastforce
  show ?thesis
  proof (cases graph)
    case None
    with q show ?thesis by (simp add: run_graph_def)
  next
    case (Some g)
    let ?inp = "run_graph_inputs query (get_message_history msgs)"
    let ?steps = "snd (process_steps {} (map fst (rr_trace (graph_run svc recursion_limit g ?inp))))"
    have nd: "QDone \<notin> set ?steps" by (rule QDone_notin_steps)
    show ?thesis
    proof (cases "rr_outcome (graph_run svc recursion_limit g ?inp)")
      case (Inl e)
      with Some q nd show ?thesis by (simp add: run_graph_def Let_def)
    next
      case (Inr s1)
      show ?thesis
      proof (cases "rr_outcome (graph_run svc' recursion_limit (rr_graph (graph_run svc recursion_limit g ?inp)) ?inp)")
        case (Inl e2)
        with Some q nd Inr show ?thesis by (simp add: run_graph_def Let_def numeral_2_eq_2)
      next
        case (Inr s2)
        with Some q nd \<open>rr_outcome _ = Inr s1\<close> show ?thesis by (simp add: run_graph_def Let_def)
      qed
    qed
  qed
qed

text \<open>
  C2 (functional): \<open>run_graph\<close> executes the graph twice: for a question whose
  documents are found, the vector store is queried once (the second run hits the node's
  cache) but the language model is called twice, only the retrieval step is reported,
  and the answer returned is the second call's, not the one produced while streaming.
\<close>

theorem run_graph_generates_twice:
  assumes "dict_get (g_cache g) query = None"
    and "ensemble_invoke svc (g_retriever g) query = Inr docs" and "docs \<noteq> []"
    and "llm svc (rag_prompt_input docs query (get_message_history msgs)) = Inr a"
    and "llm svc' (rag_prompt_input docs query (get_message_history msgs)) = Inr a'"
  shows "rg_calls (run_graph svc svc' (Some g) query tid msgs b) =
           [Faiss_call (r_db_index (g_retriever g)) query,
            Llm_call (rag_prompt_input docs query (get_message_history msgs)),
            Llm_call (rag_prompt_input docs query (get_message_history msgs))]
       \<and> rg_puts (run_graph svc svc' (Some g) query tid msgs b) = [QStep Txt_retrieve, QDone]
       \<and> rg_outcome (run_graph svc svc' (Some g) query tid msgs b) =
           Inr \<lparr>question = query, documents = Some docs, generation = Some a',
                chat_history = Some (get_message_history msgs)\<rparr>"
proof -
  let ?h = "get_message_history msgs"
  let ?inp = "run_graph_inputs query ?h"
  let ?p = "rag_prompt_input docs query ?h"
  let ?g' = "g\<lparr>g_cache := dict_set (g_cache g) query docs\<rparr>"
  have in_q: "question ?inp = query" and in_h: "chat_history ?inp = Some ?h"
    by (simp_all add: run_graph_inputs_def)
  have hit: "dict_get (g_cache ?g') query = Some docs" by (simp add: dict_get_set)
  have r1: "graph_run svc recursion_limit g ?inp =
     \<lparr>rr_calls = [Faiss_call (r_db_index (g_retriever g)) query, Llm_call ?p],
      rr_trace = [(''retrieve'', docs_update query docs),
                  (''generate_answer'', \<lparr>upd_question = Some query, upd_documents = Some docs,
                                          upd_generation = Some a, upd_chat_history = Some ?h\<rparr>)],
      rr_outcome = Inr (?inp\<lparr>documents := Some docs, generation := Some a, chat_history := Some ?h\<rparr>),
      rr_graph = ?g'\<rparr>"
    using graph_run_found [of recursion_limit g ?inp svc docs ?h a] assms in_q in_h
    by (simp add: recursion_limit_def)
  have r2: "graph_run svc' recursion_limit ?g' ?inp =
     \<lparr>rr_calls = [Llm_call ?p],
      rr_trace = [(''retrieve'', docs_update query docs),
                  (''generate_answer'', \<lparr>upd_question = Some query, upd_documents = Some docs,
                                          upd_generation = Some a', upd_chat_history = Some ?h\<rparr>)],
      rr_outcome = Inr (?inp\<lparr>documents := Some docs, generation := Some a', chat_history := Some ?h\<rparr>),
      rr_graph = ?g'\<rparr>"
    using graph_run_cached [of recursion_limit ?g' ?inp docs ?h svc' a'] assms in_q in_h hit
    by (simp add: recursion_limit_def)
  obtain r b1 where q: "get_queue tid b = (r, b1)" by fastforce
  show ?thesis
    using q r1 r2 by (simp add: run_graph_def Let_def actions_def dict_get_def run_graph_inputs_def)
qed

theorem run_graph_generates_twice_witness:
  "rg_outcome (run_graph demo_services (demo_services\<lparr>llm := (\<lambda>_. Inr ''Second answer.'')\<rparr>)
      (Some demo_graph) ''What is RAG?'' ''t1'' [] empty_bus) =
   Inr \<lparr>question = ''What is RAG?'', documents = Some [demo_doc], generation = Some ''Second answer.'',
        chat_history = Some []\<rparr>"
  using run_graph_generates_twice [of demo_graph "''What is RAG?''" demo_services "[demo_doc]" "[]"
      "''RAG answers from retrieved documents.''" "demo_services\<lparr>llm := (\<lambda>_. Inr ''Second answer.'')\<rparr>"
      "''Second answer.''" "''t1''" empty_bus]
  by (simp add: demo_defs ensemble_invoke_def bm25_top_n_def weighted_rrf_def rag_prompt_input_def
                format_rag_docs_def format_rag_doc_def get_message_history_def)

end
