(* ===== verification/Cache.thy ===== *)
theory Cache
  imports Graph
begin

text \<open>
  The per-corpus cache of \<open>streamlit_wrapper.py\<close>. \<open>db_cache\<close> maps a vector-store
  directory name to an entry holding the retriever built by \<open>init_retriever\<close>, the display
  name and the compiled graph (\<open>None\<close> until built); \<open>GRAPHS_LOADED\<close> records that the
  start-up preload has run. A compiled graph is an object: \<open>db_cache\<close>, \<open>app.current_graph\<close>
  and every request that runs it share it, and its \<open>RetrieveNode\<close> cache is mutated in
  place, so graphs live in a heap (\<open>gheap\<close>, allocated from \<open>next_gref\<close>) and entries hold
  references. \<open>build_log\<close> records every call of \<open>create_graph_internal\<close>, the expensive
  build whose count the single-flight contract bounds. Timings and prints are not modelled.
\<close>

section \<open>State\<close>

definition vector_db_folder :: string where
  "vector_db_folder = ''LANGCHAIN_DB_INDEX_''"

record cache_entry =
  ce_retriever :: retriever
  ce_display_name :: json
  ce_graph :: "nat option"

record pcache =
  db_cache :: "(string, cache_entry) pydict"
  graphs_loaded :: bool
  gheap :: "(nat, compiled_graph) pydict"
  next_gref :: nat
  build_log :: "string list"

text \<open>\<open>db_index[len(VECTOR_DB_FOLDER):]\<close>.\<close>

definition db_suffix :: "string \<Rightarrow> string" where
  "db_suffix db = drop (length vector_db_folder) db"

text \<open>\<open>db_cache[db].get('graph')\<close>, \<open>None\<close> also when \<open>db\<close> is not cached.\<close>

definition cached_graph :: "pcache \<Rightarrow> string \<Rightarrow> nat option" where
  "cached_graph c db = (case dict_get (db_cache c) db of Some e \<Rightarrow> ce_graph e | None \<Rightarrow> None)"

section \<open>preload_vector_dbs\<close>

text \<open>\<open>[folder for folder in os.listdir() if folder.startswith(VECTOR_DB_FOLDER) and
  os.path.isdir(folder)]\<close>, the directory listing given as names with their directory flag.\<close>

definition existing_folders :: "(string \<times> bool) list \<Rightarrow> string list" where
  "existing_folders listing = map fst (filter (\<lambda>(n, d). prefix vector_db_folder n \<and> d) listing)"

text \<open>\<open>metadata.get(folder, {}).get('display_name', folder[len(VECTOR_DB_FOLDER):])\<close>.\<close>

definition meta_display_name :: "(string, json) pydict \<Rightarrow> string \<Rightarrow> error + json" where
  "meta_display_name md folder =
     json_get (case dict_get md folder of Some v \<Rightarrow> v | None \<Rightarrow> JObj []) ''display_name'' (JStr (db_suffix folder))"

text \<open>One iteration of the loop; an exception skips the folder.\<close>

definition preload_one :: "services \<Rightarrow> (string, json) pydict \<Rightarrow> pcache \<Rightarrow> string \<Rightarrow> pcache" where
  "preload_one svc md c folder =
     (case init_retriever svc folder 10 3 of
        Inl e \<Rightarrow> c
      | Inr r \<Rightarrow>
          (case meta_display_name md folder of
             Inl e \<Rightarrow> c
           | Inr dn \<Rightarrow> c\<lparr>db_cache := dict_set (db_cache c) folder
                          \<lparr>ce_retriever = r, ce_display_name = dn, ce_graph = None\<rparr>\<rparr>))"

definition preload_vector_dbs :: "services \<Rightarrow> (string \<times> bool) list \<Rightarrow> (string, json) pydict \<Rightarrow> pcache \<Rightarrow> pcache" where
  "preload_vector_dbs svc listing md c = fold (\<lambda>f c. preload_one svc md c f) (existing_folders listing) c"

section \<open>create_graph_internal\<close>

text \<open>\<open>create_rag_chain()\<close> loads the prompt file, which may fail; the graph itself is a fresh
  \<open>RetrieveNode\<close> (empty cache) over the retriever, with the fixed edge table of
  \<open>Graph.edge\<close>.\<close>

definition rag_prompt_file :: string where
  "rag_prompt_file = ''prompts/code-rag-prompt.yaml''"

definition create_graph_internal :: "services \<Rightarrow> string \<Rightarrow> retriever \<Rightarrow> error + compiled_graph" where
  "create_graph_internal svc db r =
     (case prompt_load svc rag_prompt_file of
        Some e \<Rightarrow> Inl e
      | None \<Rightarrow> Inr \<lparr>g_retriever = r, g_cache = []\<rparr>)"

text \<open>A call of \<open>create_graph_internal\<close>, logged, with the new graph object allocated.\<close>

definition build_graph :: "services \<Rightarrow> string \<Rightarrow> retriever \<Rightarrow> pcache \<Rightarrow> (error + nat) \<times> pcache" where
  "build_graph svc db r c =
     (let c1 = c\<lparr>build_log := build_log c @ [db]\<rparr> in
      case create_graph_internal svc db r of
        Inl e \<Rightarrow> (Inl e, c1)
      | Inr g \<Rightarrow> (Inr (next_gref c1), c1\<lparr>gheap := dict_set (gheap c1) (next_gref c1) g, next_gref := Suc (next_gref c1)\<rparr>))"

text \<open>\<open>db_cache[db]['graph'] = graph\<close>.\<close>

definition set_graph :: "string \<Rightarrow> nat \<Rightarrow> pcache \<Rightarrow> pcache" where
  "set_graph db ref c = c\<lparr>db_cache := dict_upd (db_cache c) db (ce_graph_update (\<lambda>_. Some ref))\<rparr>"

section \<open>preload_graphs\<close>

definition preload_graph_one :: "services \<Rightarrow> pcache \<Rightarrow> string \<Rightarrow> pcache" where
  "preload_graph_one svc c db =
     (case dict_get (db_cache c) db of
        None \<Rightarrow> c
      | Some e \<Rightarrow>
          if ce_graph e \<noteq> None then c
          else (case build_graph svc db (ce_retriever e) c of
                  (Inl err, c') \<Rightarrow> c'
                | (Inr ref, c') \<Rightarrow> set_graph db ref c'))"

definition preload_graphs :: "services \<Rightarrow> pcache \<Rightarrow> pcache" where
  "preload_graphs svc c =
     (if graphs_loaded c then c
      else (fold (\<lambda>db c. preload_graph_one svc c db) (dict_keys (db_cache c)) c)\<lparr>graphs_loaded := True\<rparr>)"

section \<open>create_graph\<close>

text \<open>The guards of \<open>create_graph\<close>, evaluated on the cache as the caller finds it: a result
  without building (\<open>Inl\<close>), or the entry observed for the build (\<open>Inr\<close>; \<open>None\<close> when the
  corpus is not cached).\<close>

definition cg_check :: "pcache \<Rightarrow> string \<Rightarrow> nat option + cache_entry option" where
  "cg_check c db =
     (if db = [] then Inl None
      else if graphs_loaded c \<and> cached_graph c db \<noteq> None then Inl (cached_graph c db)
      else Inr (dict_get (db_cache c) db))"

text \<open>The build, on the cache as it is when the build runs: with the observed entry's
  retriever, or after loading the corpus with \<open>init_retriever\<close> and caching a new entry.
  Any exception returns \<open>None\<close>, keeping what was already written.\<close>

definition cg_build :: "services \<Rightarrow> string \<Rightarrow> cache_entry option \<Rightarrow> pcache \<Rightarrow> nat option \<times> pcache" where
  "cg_build svc db obs c =
     (case obs of
        Some e \<Rightarrow>
          (case build_graph svc db (ce_retriever e) c of
             (Inl err, c') \<Rightarrow> (None, c')
           | (Inr ref, c') \<Rightarrow>
               if dict_mem db (db_cache c') then (Some ref, set_graph db ref c') else (None, c'))
      | None \<Rightarrow>
          (case init_retriever svc db 10 3 of
             Inl err \<Rightarrow> (None, c)
           | Inr r \<Rightarrow>
               (let c1 = c\<lparr>db_cache := dict_set (db_cache c) db
                          \<lparr>ce_retriever = r, ce_display_name = JStr (db_suffix db), ce_graph = None\<rparr>\<rparr> in
                case build_graph svc db r c1 of
                  (Inl err, c') \<Rightarrow> (None, c')
                | (Inr ref, c') \<Rightarrow> (Some ref, set_graph db ref c'))))"

definition create_graph :: "services \<Rightarrow> string \<Rightarrow> pcache \<Rightarrow> nat option \<times> pcache" where
  "create_graph svc db c = (case cg_check c db of Inl res \<Rightarrow> (res, c) | Inr obs \<Rightarrow> cg_build svc db obs c)"

section \<open>init_app\<close>

definition init_app :: "services \<Rightarrow> (string \<times> bool) list \<Rightarrow> (string, json) pydict \<Rightarrow> pcache \<Rightarrow> pcache" where
  "init_app svc listing md c =
     (if graphs_loaded c then c
      else (preload_graphs svc (preload_vector_dbs svc listing md c))\<lparr>graphs_loaded := True\<rparr>)"

definition empty_pcache :: pcache where
  "empty_pcache = \<lparr>db_cache = [], graphs_loaded = False, gheap = [], next_gref = 0, build_log = []\<rparr>"

section \<open>Two concurrent create_graph calls\<close>

text \<open>Two requests call \<open>create_graph\<close> for corpora \<open>db1\<close> and \<open>db2\<close>; both evaluate their
  guards before either build has written the cache (the builds block on file and network
  I/O, which releases the interpreter lock). The result is both return values and the
  final cache.\<close>

definition create_graph_race :: "services \<Rightarrow> string \<Rightarrow> string \<Rightarrow> pcache \<Rightarrow> (nat option \<times> nat option) \<times> pcache" where
  "create_graph_race svc db1 db2 c =
     (case (cg_check c db1, cg_check c db2) of
        (Inr o1, Inr o2) \<Rightarrow>
          (case cg_build svc db1 o1 c of
             (r1, c1) \<Rightarrow> (case cg_build svc db2 o2 c1 of (r2, c2) \<Rightarrow> ((r1, r2), c2)))
      | (Inl r1, Inr o2) \<Rightarrow> (case cg_build svc db2 o2 c of (r2, c2) \<Rightarrow> ((r1, r2), c2))
      | (Inr o1, Inl r2) \<Rightarrow> (case cg_build svc db1 o1 c of (r1, c1) \<Rightarrow> ((r1, r2), c1))
      | (Inl r1, Inl r2) \<Rightarrow> ((r1, r2), c))"

text \<open>An entry is sound when its retriever is over the entry's own corpus and its graph
  reference, if any, names an allocated graph whose retriever is over that corpus; the
  cache is sound when
  every entry is and the heap allocates only below \<open>next_gref\<close>.\<close>

definition entry_sound :: "pcache \<Rightarrow> string \<Rightarrow> cache_entry \<Rightarrow> bool" where
  "entry_sound c db e =
     (r_db_index (ce_retriever e) = db \<and>
      (case ce_graph e of
         None \<Rightarrow> True
       | Some ref \<Rightarrow> (case dict_get (gheap c) ref of Some g \<Rightarrow> r_db_index (g_retriever g) = db | None \<Rightarrow> False)))"

definition cache_sound :: "pcache \<Rightarrow> bool" where
  "cache_sound c =
     (dict_wf (db_cache c) \<and> dict_wf (gheap c) \<and> (\<forall>ref \<in> set (dict_keys (gheap c)). ref < next_gref c) \<and>
      (\<forall>(db, e) \<in> set (db_cache c). entry_sound c db e))"

text \<open>A directory listing and a metadata file for the examples.\<close>

definition demo_listing :: "(string \<times> bool) list" where
  "demo_listing = [(''LANGCHAIN_DB_INDEX_demo'', True), (''README.md'', False), (''LANGCHAIN_DB_INDEX_docs'', True)]"

definition demo_metadata :: "(string, json) pydict" where
  "demo_metadata = [(''LANGCHAIN_DB_INDEX_demo'', JObj [(''display_name'', JStr ''Demo'')])]"

section \<open>Lemmas\<close>

lemma cache_sound_iff:
  "cache_sound c =
     (dict_wf (db_cache c) \<and> dict_wf (gheap c) \<and> (\<forall>ref. dict_get (gheap c) ref \<noteq> None \<longrightarrow> ref < next_gref c) \<and>
      (\<forall>db e. dict_get (db_cache c) db = Some e \<longrightarrow> entry_sound c db e))"
proof -
  have h: "(\<forall>ref \<in> set (dict_keys (gheap c)). ref < next_gref c) = (\<forall>ref. dict_get (gheap c) ref \<noteq> None \<longrightarrow> ref < next_gref c)"
    by (auto simp: dict_keys_mem)
  show ?thesis
    unfolding cache_sound_def h by (cases "dict_wf (db_cache c)") (simp_all add: dict_all_get)
qed

lemma entry_sound_heap:
  "entry_sound c db e \<Longrightarrow> (\<And>ref. dict_get (gheap c) ref \<noteq> None \<Longrightarrow> dict_get (gheap c') ref = dict_get (gheap c) ref) \<Longrightarrow>
   entry_sound c' db e"
  by (auto simp: entry_sound_def split: option.splits)

lemma cache_sound_same:
  "db_cache c' = db_cache c \<Longrightarrow> gheap c' = gheap c \<Longrightarrow> next_gref c' = next_gref c \<Longrightarrow> cache_sound c' = cache_sound c"
  by (simp add: cache_sound_def entry_sound_def cong: option.case_cong)

lemma cache_sound_log [simp]: "cache_sound (c\<lparr>build_log := l\<rparr>) = cache_sound c"
  by (rule cache_sound_same) simp_all

lemma cache_sound_loaded [simp]: "cache_sound (c\<lparr>graphs_loaded := b\<rparr>) = cache_sound c"
  by (rule cache_sound_same) simp_all

lemma cache_sound_alloc:
  assumes "cache_sound c"
  shows "cache_sound (c\<lparr>build_log := l, gheap := dict_set (gheap c) (next_gref c) g, next_gref := Suc (next_gref c)\<rparr>)"
proof -
  let ?c' = "c\<lparr>build_log := l, gheap := dict_set (gheap c) (next_gref c) g, next_gref := Suc (next_gref c)\<rparr>"
  have fresh: "\<And>ref. dict_get (gheap c) ref \<noteq> None \<Longrightarrow> dict_get (gheap ?c') ref = dict_get (gheap c) ref"
    using assms by (auto simp: cache_sound_iff dict_get_set)
  show ?thesis
    using assms entry_sound_heap [OF _ fresh]
    by (auto simp: cache_sound_iff dict_get_set dict_wf_set less_Suc_eq)
qed

lemma build_graph_sound:
  assumes "cache_sound c" and "build_graph svc db r c = (res, c')"
  shows "cache_sound c' \<and> db_cache c' = db_cache c \<and> graphs_loaded c' = graphs_loaded c
    \<and> build_log c' = build_log c @ [db]
    \<and> (\<forall>ref. res = Inr ref \<longrightarrow> ref = next_gref c \<and> dict_get (gheap c') ref = Some \<lparr>g_retriever = r, g_cache = []\<rparr>)"
proof (cases "prompt_load svc rag_prompt_file")
  case None
  then show ?thesis
    using assms cache_sound_alloc [OF assms(1)]
    by (auto simp: build_graph_def create_graph_internal_def dict_get_set)
next
  case (Some e)
  then show ?thesis
    using assms by (auto simp: build_graph_def create_graph_internal_def)
qed

lemma entry_sound_same: "gheap c' = gheap c \<Longrightarrow> entry_sound c' = entry_sound c"
  by (simp add: entry_sound_def fun_eq_iff cong: option.case_cong)

lemma cache_sound_set_entry:
  assumes "cache_sound c" and "r_db_index (ce_retriever e) = db" and "ce_graph e = None"
  shows "cache_sound (c\<lparr>db_cache := dict_set (db_cache c) db e\<rparr>)"
  using assms entry_sound_same [of "c\<lparr>db_cache := dict_set (db_cache c) db e\<rparr>" c]
  by (auto simp: cache_sound_iff dict_get_set dict_wf_set entry_sound_def)

lemma set_graph_sound:
  assumes "cache_sound c" and "dict_get (gheap c) ref = Some g" and "r_db_index (g_retriever g) = db"
  shows "cache_sound (set_graph db ref c)"
  using assms entry_sound_same [of "set_graph db ref c" c]
  by (auto simp: cache_sound_iff set_graph_def dict_get_upd entry_sound_def)

lemma preload_one_sound: "cache_sound c \<Longrightarrow> cache_sound (preload_one svc md c f)"
  by (auto simp: preload_one_def intro!: cache_sound_set_entry dest: init_retriever_db split: sum.split)

lemma preload_vector_dbs_sound: "cache_sound c \<Longrightarrow> cache_sound (preload_vector_dbs svc listing md c)"
  unfolding preload_vector_dbs_def by (rule fold_preserve) (auto intro: preload_one_sound)

lemma build_set_sound:
  assumes "cache_sound c" and "r_db_index r = db" and "build_graph svc db r c = (Inr ref, c')"
  shows "cache_sound (set_graph db ref c')"
  using build_graph_sound [OF assms(1,3)] assms(2) by (auto intro: set_graph_sound)

lemma build_fail_sound:
  "cache_sound c \<Longrightarrow> build_graph svc db r c = (Inl err, c') \<Longrightarrow> cache_sound c'"
  using build_graph_sound by blast

lemma cache_sound_entry_db:
  "cache_sound c \<Longrightarrow> dict_get (db_cache c) db = Some e \<Longrightarrow> r_db_index (ce_retriever e) = db"
  by (simp add: cache_sound_iff entry_sound_def)

lemma preload_graph_one_sound: "cache_sound c \<Longrightarrow> cache_sound (preload_graph_one svc c db)"
  unfolding preload_graph_one_def
  by (auto split: option.split prod.split sum.split intro: build_set_sound build_fail_sound
      dest: cache_sound_entry_db)

lemma preload_graphs_sound: "cache_sound c \<Longrightarrow> cache_sound (preload_graphs svc c)"
  unfolding preload_graphs_def by (auto intro: fold_preserve preload_graph_one_sound)

lemma cached_graph_set_graph:
  "dict_mem db (db_cache c) \<Longrightarrow> cached_graph (set_graph db ref c) db = Some ref"
  by (auto simp: cached_graph_def set_graph_def dict_get_upd dict_mem_iff)

lemma cached_graph_sound:
  assumes "cache_sound c" and "cached_graph c db = Some ref"
  shows "\<exists>g. dict_get (gheap c) ref = Some g \<and> r_db_index (g_retriever g) = db"
proof -
  obtain e where e: "dict_get (db_cache c) db = Some e" "ce_graph e = Some ref"
    using assms(2) by (auto simp: cached_graph_def split: option.splits)
  then have "entry_sound c db e" using assms(1) by (simp add: cache_sound_iff)
  with e show ?thesis by (auto simp: entry_sound_def split: option.splits)
qed

lemma cg_build_sound:
  assumes "cache_sound c" and "\<forall>e. obs = Some e \<longrightarrow> r_db_index (ce_retriever e) = db"
    and "cg_build svc db obs c = (res, c')"
  shows "cache_sound c' \<and> (\<forall>ref. res = Some ref \<longrightarrow> cached_graph c' db = Some ref)"
proof (cases obs)
  case (Some e)
  obtain b c1 where b: "build_graph svc db (ce_retriever e) c = (b, c1)" by fastforce
  show ?thesis
  proof (cases b)
    case (Inl err)
    then show ?thesis using assms Some b by (auto simp: cg_build_def intro: build_fail_sound)
  next
    case (Inr ref)
    then show ?thesis
      using assms Some b build_set_sound [of c "ce_retriever e" db svc ref c1]
      by (auto simp: cg_build_def cached_graph_set_graph dest: build_graph_sound split: if_splits)
  qed
next
  case None
  show ?thesis
  proof (cases "init_retriever svc db 10 3")
    case (Inl err)
    then show ?thesis using assms None by (simp add: cg_build_def)
  next
    case (Inr r)
    let ?c1 = "c\<lparr>db_cache := dict_set (db_cache c) db \<lparr>ce_retriever = r, ce_display_name = JStr (db_suffix db), ce_graph = None\<rparr>\<rparr>"
    have s1: "cache_sound ?c1"
      using assms(1) init_retriever_db [OF Inr] by (intro cache_sound_set_entry) simp_all
    obtain b c2 where b: "build_graph svc db r ?c1 = (b, c2)" by fastforce
    have m: "dict_mem db (db_cache c2)"
      using build_graph_sound [OF s1 b] by (simp add: dict_mem_set)
    show ?thesis
      using assms None Inr b s1 m init_retriever_db [OF Inr] build_set_sound [OF s1 _ ] build_fail_sound [OF s1]
      by (cases b) (auto simp: cg_build_def Let_def cached_graph_set_graph)
  qed
qed

lemma cg_check_obs:
  "cache_sound c \<Longrightarrow> cg_check c db = Inr obs \<Longrightarrow> \<forall>e. obs = Some e \<longrightarrow> r_db_index (ce_retriever e) = db"
  by (auto simp: cg_check_def dest: cache_sound_entry_db split: if_splits)

lemma create_graph_caches:
  assumes "cache_sound c" and "create_graph svc db c = (Some ref, c')"
  shows "cache_sound c' \<and> cached_graph c' db = Some ref"
proof (cases "cg_check c db")
  case (Inl res)
  then have "c' = c" and "cached_graph c db = Some ref"
    using assms(2) by (auto simp: create_graph_def cg_check_def split: if_splits)
  then show ?thesis using assms(1) by simp
next
  case (Inr obs)
  then show ?thesis
    using assms cg_build_sound [OF assms(1) cg_check_obs [OF assms(1) Inr]] by (auto simp: create_graph_def)
qed

lemma build_graph_loaded: "build_graph svc db r c = (res, c') \<Longrightarrow> graphs_loaded c' = graphs_loaded c"
  by (auto simp: build_graph_def Let_def split: sum.splits)

lemma cg_build_loaded: "cg_build svc db obs c = (res, c') \<Longrightarrow> graphs_loaded c' = graphs_loaded c"
  by (auto simp: cg_build_def set_graph_def Let_def dest: build_graph_loaded
      split: option.splits sum.splits prod.splits if_splits)

lemma create_graph_current:
  assumes "cache_sound c" and "create_graph svc db c = (g, c')"
  shows "cache_sound c' \<and> (\<forall>ref. g = Some ref \<longrightarrow> (\<exists>gr. dict_get (gheap c') ref = Some gr \<and> r_db_index (g_retriever gr) = db))"
proof (cases g)
  case None
  have "cache_sound c'"
  proof (cases "cg_check c db")
    case (Inl res)
    then show ?thesis using assms by (auto simp: create_graph_def)
  next
    case (Inr obs)
    then show ?thesis
      using assms cg_build_sound [OF assms(1) cg_check_obs [OF assms(1) Inr]] by (auto simp: create_graph_def)
  qed
  with None show ?thesis by simp
next
  case (Some ref)
  then show ?thesis using create_graph_caches [OF assms(1)] assms(2) cached_graph_sound by blast
qed


lemma create_graph_loaded_cached:
  "graphs_loaded c \<Longrightarrow> db \<noteq> [] \<Longrightarrow> cached_graph c db \<noteq> None \<Longrightarrow> create_graph svc db c = (cached_graph c db, c)"
  by (simp add: create_graph_def cg_check_def)


text \<open>C19 (safety) \<open>create_graph\<close> returns a graph only over the corpus it was asked for:
  from a sound cache, a returned reference is the one cached for that corpus, names an
  allocated graph whose retriever was loaded from that corpus, and the cache stays
  sound.\<close>

theorem create_graph_sound:
  assumes "cache_sound c" and "create_graph svc db c = (Some ref, c')"
  shows "cache_sound c' \<and> cached_graph c' db = Some ref
    \<and> (\<exists>g. dict_get (gheap c') ref = Some g \<and> r_db_index (g_retriever g) = db)"
  using create_graph_caches [OF assms] cached_graph_sound by blast

theorem create_graph_sound_witness:
  "cache_sound (snd (create_graph demo_services ''LANGCHAIN_DB_INDEX_demo'' empty_pcache))
   \<and> cached_graph (snd (create_graph demo_services ''LANGCHAIN_DB_INDEX_demo'' empty_pcache)) ''LANGCHAIN_DB_INDEX_demo'' = Some 0
   \<and> (\<exists>g. dict_get (gheap (snd (create_graph demo_services ''LANGCHAIN_DB_INDEX_demo'' empty_pcache))) 0 = Some g
        \<and> r_db_index (g_retriever g) = ''LANGCHAIN_DB_INDEX_demo'')"
  by (rule create_graph_sound [where c = empty_pcache and svc = demo_services])
     (simp_all add: set_graph_def dict_upd_def Let_def dict_wf_def dict_keys_def cache_sound_def empty_pcache_def create_graph_def cg_check_def cg_build_def init_retriever_def
      bm25_from_texts_def demo_services_def build_graph_def create_graph_internal_def)

text \<open>Once the start-up preload has run, a corpus whose graph
  \<open>create_graph\<close> has returned is served from the cache: a second call returns the same
  graph object and builds nothing.\<close>

theorem create_graph_idempotent:
  assumes "cache_sound c" and "graphs_loaded c" and "create_graph svc db c = (Some ref, c')"
  shows "create_graph svc db c' = (Some ref, c')"
proof -
  have "graphs_loaded c'"
    using assms(2,3) by (auto simp: create_graph_def dest: cg_build_loaded split: sum.splits)
  moreover have "cached_graph c' db = Some ref"
    using create_graph_caches [OF assms(1,3)] by blast
  moreover have "db \<noteq> []"
    using assms(3) by (auto simp: create_graph_def cg_check_def)
  ultimately show ?thesis by (simp add: create_graph_def cg_check_def)
qed

text \<open>C4 (safety) \<open>create_graph\<close> is not single-flight: two requests for a corpus that
  was never loaded, both passing the guards before either build lands, load the corpus
  twice and call \<open>create_graph_internal\<close> twice; they receive two different graph objects
  and the cache keeps the second.\<close>

theorem create_graph_race_double_build:
  assumes "db \<noteq> []" and "\<not> dict_mem db (db_cache c)"
    and "init_retriever svc db 10 3 = Inr r" and "prompt_load svc rag_prompt_file = None"
  shows "fst (create_graph_race svc db db c) = (Some (next_gref c), Some (Suc (next_gref c)))
    \<and> build_log (snd (create_graph_race svc db db c)) = build_log c @ [db, db]
    \<and> cached_graph (snd (create_graph_race svc db db c)) db = Some (Suc (next_gref c))"
proof -
  have chk: "cg_check c db = Inr None"
    using assms(1,2) by (simp add: cg_check_def cached_graph_def dict_mem_iff)
  show ?thesis
    using assms
    by (simp add: create_graph_race_def chk cg_build_def build_graph_def create_graph_internal_def
        cached_graph_def set_graph_def dict_get_upd dict_get_set dict_mem_set)
qed

lemma build_graph_cache: "build_graph svc db r c = (res, c') \<Longrightarrow> db_cache c' = db_cache c"
  by (auto simp: build_graph_def Let_def split: sum.splits)

lemma build_graph_ok:
  "prompt_load svc rag_prompt_file = None \<Longrightarrow> \<exists>ref c'. build_graph svc db r c = (Inr ref, c')"
  by (simp add: build_graph_def create_graph_internal_def)

lemma preload_graph_one_keys [simp]:
  "dict_keys (db_cache (preload_graph_one svc c db)) = dict_keys (db_cache c)"
  by (auto simp: preload_graph_one_def set_graph_def dict_keys_upd dest: build_graph_cache
      split: option.split prod.split sum.split)

lemma cached_graph_set_other: "d \<noteq> db \<Longrightarrow> cached_graph (set_graph db ref c) d = cached_graph c d"
  by (simp add: cached_graph_def set_graph_def dict_get_upd)

lemma cached_graph_same: "db_cache c' = db_cache c \<Longrightarrow> cached_graph c' = cached_graph c"
  by (simp add: cached_graph_def fun_eq_iff)

lemma preload_graph_one_other:
  assumes "d \<noteq> db"
  shows "cached_graph (preload_graph_one svc c db) d = cached_graph c d"
proof (cases "dict_get (db_cache c) db")
  case (Some e)
  obtain res c' where b: "build_graph svc db (ce_retriever e) c = (res, c')" by fastforce
  have same: "cached_graph c' = cached_graph c" using build_graph_cache [OF b] by (rule cached_graph_same)
  show ?thesis
    using Some b same assms by (cases res) (auto simp: preload_graph_one_def cached_graph_set_other)
qed (simp add: preload_graph_one_def)

lemma preload_graph_one_keeps:
  assumes "cached_graph c d \<noteq> None"
  shows "cached_graph (preload_graph_one svc c db) d \<noteq> None"
proof (cases "d = db")
  case True
  then show ?thesis using assms by (auto simp: preload_graph_one_def cached_graph_def split: option.splits)
next
  case False
  then show ?thesis using assms by (simp add: preload_graph_one_other)
qed

lemma preload_graph_one_builds:
  assumes "dict_mem db (db_cache c)" and "prompt_load svc rag_prompt_file = None"
  shows "cached_graph (preload_graph_one svc c db) db \<noteq> None"
proof -
  obtain e where e: "dict_get (db_cache c) db = Some e" using assms(1) by (auto simp: dict_mem_iff)
  obtain ref c' where b: "build_graph svc db (ce_retriever e) c = (Inr ref, c')"
    using build_graph_ok [OF assms(2)] by blast
  have "dict_mem db (db_cache c')" using assms(1) build_graph_cache [OF b] by simp
  then show ?thesis
  proof (cases "ce_graph e")
    case None
    then show ?thesis using e b \<open>dict_mem db (db_cache c')\<close> by (simp add: preload_graph_one_def cached_graph_set_graph)
  next
    case (Some y)
    then show ?thesis using e by (simp add: preload_graph_one_def cached_graph_def)
  qed
qed

lemma preload_graphs_fold_builds:
  assumes "set xs \<subseteq> set (dict_keys (db_cache c))" and "prompt_load svc rag_prompt_file = None"
  shows "\<forall>d \<in> set xs. cached_graph (fold (\<lambda>db c. preload_graph_one svc c db) xs c) d \<noteq> None"
  using assms(1)
proof (induction xs arbitrary: c)
  case Nil
  then show ?case by simp
next
  case (Cons x xs)
  let ?c1 = "preload_graph_one svc c x"
  have "cached_graph ?c1 x \<noteq> None"
    using Cons.prems assms(2) by (intro preload_graph_one_builds) (simp_all add: dict_mem_def)
  then have "cached_graph (fold (\<lambda>db c. preload_graph_one svc c db) xs ?c1) x \<noteq> None"
    by (rule fold_preserve) (rule preload_graph_one_keeps)
  moreover have "\<forall>d \<in> set xs. cached_graph (fold (\<lambda>db c. preload_graph_one svc c db) xs ?c1) d \<noteq> None"
    using Cons by (intro Cons.IH) simp
  ultimately show ?case by simp
qed

lemma cached_graph_loaded [simp]: "cached_graph (c\<lparr>graphs_loaded := b\<rparr>) = cached_graph c"
  by (simp add: cached_graph_def fun_eq_iff)

lemma preload_graphs_fold_keys:
  "dict_keys (db_cache (fold (\<lambda>db c. preload_graph_one svc c db) xs c)) = dict_keys (db_cache c)"
  by (induction xs arbitrary: c) simp_all

text \<open>C26 (functional) \<open>init_app\<close> leaves a compiled graph in every cache entry when the
  prompt file loads, and sets \<open>GRAPHS_LOADED\<close>.\<close>

theorem init_app_builds_all:
  assumes "\<not> graphs_loaded c" and "prompt_load svc rag_prompt_file = None"
  shows "graphs_loaded (init_app svc listing md c) \<and>
    (\<forall>db \<in> set (dict_keys (db_cache (init_app svc listing md c))). cached_graph (init_app svc listing md c) db \<noteq> None)"
proof -
  let ?c1 = "preload_vector_dbs svc listing md c"
  let ?f = "\<lambda>db c. preload_graph_one svc c db"
  have "\<not> graphs_loaded ?c1"
    unfolding preload_vector_dbs_def using assms(1)
    by (rule fold_preserve) (auto simp: preload_one_def split: sum.split)
  then have i: "init_app svc listing md c = (fold ?f (dict_keys (db_cache ?c1)) ?c1)\<lparr>graphs_loaded := True\<rparr>"
    using assms(1) by (simp add: init_app_def preload_graphs_def)
  have "\<forall>d \<in> set (dict_keys (db_cache ?c1)). cached_graph (fold ?f (dict_keys (db_cache ?c1)) ?c1) d \<noteq> None"
    using assms(2) by (intro preload_graphs_fold_builds) simp_all
  then show ?thesis
    unfolding i by (simp add: preload_graphs_fold_keys)
qed

text \<open>\<open>init_app\<close> (\<open>preload_vector_dbs\<close> then \<open>preload_graphs\<close>) keeps the
  cache sound: every entry's retriever and graph are over the entry's own corpus.\<close>

theorem init_app_sound: "cache_sound c \<Longrightarrow> cache_sound (init_app svc listing md c)"
  by (simp add: init_app_def preload_graphs_sound preload_vector_dbs_sound)

theorem init_app_sound_witness: "cache_sound (init_app demo_services demo_listing demo_metadata empty_pcache)"
  by (rule init_app_sound) (simp add: cache_sound_def empty_pcache_def dict_keys_def dict_wf_def)

theorem create_graph_idempotent_witness:
  "create_graph demo_services ''LANGCHAIN_DB_INDEX_demo''
     (snd (create_graph demo_services ''LANGCHAIN_DB_INDEX_demo'' (empty_pcache\<lparr>graphs_loaded := True\<rparr>)))
   = (Some 0, snd (create_graph demo_services ''LANGCHAIN_DB_INDEX_demo'' (empty_pcache\<lparr>graphs_loaded := True\<rparr>)))"
  by (rule create_graph_idempotent [where c = "empty_pcache\<lparr>graphs_loaded := True\<rparr>" and svc = demo_services])
     (simp_all add: set_graph_def dict_upd_def Let_def dict_wf_def dict_keys_def cache_sound_def empty_pcache_def create_graph_def cg_check_def cg_build_def init_retriever_def
      bm25_from_texts_def demo_services_def build_graph_def create_graph_internal_def cached_graph_def)

theorem create_graph_race_witness:
  "fst (create_graph_race demo_services ''LANGCHAIN_DB_INDEX_demo'' ''LANGCHAIN_DB_INDEX_demo'' empty_pcache) = (Some 0, Some 1)
   \<and> build_log (snd (create_graph_race demo_services ''LANGCHAIN_DB_INDEX_demo'' ''LANGCHAIN_DB_INDEX_demo'' empty_pcache))
       = [''LANGCHAIN_DB_INDEX_demo'', ''LANGCHAIN_DB_INDEX_demo'']
   \<and> cached_graph (snd (create_graph_race demo_services ''LANGCHAIN_DB_INDEX_demo'' ''LANGCHAIN_DB_INDEX_demo'' empty_pcache))
       ''LANGCHAIN_DB_INDEX_demo'' = Some 1"
  using create_graph_race_double_build [of "''LANGCHAIN_DB_INDEX_demo''" empty_pcache demo_services
      "projr (init_retriever demo_services ''LANGCHAIN_DB_INDEX_demo'' 10 3)"]
  by (simp add: empty_pcache_def init_retriever_def bm25_from_texts_def demo_services_def dict_mem_def dict_keys_def)

lemma preload_graphs_keys [simp]: "dict_keys (db_cache (preload_graphs svc c)) = dict_keys (db_cache c)"
  by (simp add: preload_graphs_def preload_graphs_fold_keys)

lemma init_app_demo_keys: "dict_keys (db_cache (init_app demo_services demo_listing demo_metadata empty_pcache)) = [''LANGCHAIN_DB_INDEX_demo'', ''LANGCHAIN_DB_INDEX_docs'']"
  by (simp add: init_app_def empty_pcache_def,
      simp add: preload_vector_dbs_def existing_folders_def
      demo_listing_def vector_db_folder_def preload_one_def init_retriever_def bm25_from_texts_def demo_services_def
      meta_display_name_def json_get_def demo_metadata_def empty_pcache_def dict_keys_def dict_get_def)

theorem init_app_builds_all_witness:
  "graphs_loaded (init_app demo_services demo_listing demo_metadata empty_pcache) \<and>
   cached_graph (init_app demo_services demo_listing demo_metadata empty_pcache) ''LANGCHAIN_DB_INDEX_demo'' \<noteq> None \<and>
   cached_graph (init_app demo_services demo_listing demo_metadata empty_pcache) ''LANGCHAIN_DB_INDEX_docs'' \<noteq> None"
proof -
  have p: "prompt_load demo_services rag_prompt_file = None" by (simp add: demo_services_def)
  have l: "\<not> graphs_loaded empty_pcache" by (simp add: empty_pcache_def)
  show ?thesis using init_app_builds_all [OF l p, of demo_listing demo_metadata] by (simp add: init_app_demo_keys)
qed

end
