(* ===== verification/Metadata.thy ===== *)
theory Metadata
  imports Cache "HOL-Library.List_Lexorder" "HOL-Library.Char_ord"
begin

text \<open>
  The corpus metadata of \<open>document_manager.py\<close>: the file \<open>db_metadata.json\<close> holds a JSON
  object mapping each vector-store directory to an object with its \<open>display_name\<close> and
  \<open>category\<close>, and under the key \<open>_categories\<close> the list of user-defined categories. The
  file is the state (\<open>None\<close> when it does not exist; its content is the value
  \<open>json.load\<close> returns); \<open>load_db_metadata\<close> reads and normalises it, the routes modify the
  loaded dictionary and write it back with \<open>save_db_metadata\<close>. Python sorts strings by code
  point, which for UTF-8 byte strings is the lexicographic order of \<open>List_Lexorder\<close>.
  \<open>str.strip()\<close> is modelled on ASCII whitespace.
\<close>

section \<open>Strings\<close>

text \<open>The Korean default category \<open>'gita'\<close> ("other"), as UTF-8 bytes.\<close>

definition etc_category :: string where
  "etc_category = map char_of [0xEA, 0xB8, 0xB0, 0xED, 0x83, 0x80 :: nat]"

text \<open>\<open>s.replace(old, new)\<close> for a non-empty \<open>old\<close>: every occurrence, left to right.\<close>

function str_replace :: "string \<Rightarrow> string \<Rightarrow> string \<Rightarrow> string" where
  "str_replace old new s =
     (if s = [] then []
      else if old \<noteq> [] \<and> prefix old s then new @ str_replace old new (drop (length old) s)
      else hd s # str_replace old new (tl s))"
  by pat_completeness auto
termination by (relation "measure (\<lambda>(old, new, s). length s)") auto

definition py_space :: "char \<Rightarrow> bool" where
  "py_space c = (of_char c \<in> ({9, 10, 11, 12, 13, 28, 29, 30, 31, 32} :: nat set))"

definition py_strip :: "string \<Rightarrow> string" where
  "py_strip s = rev (dropWhile py_space (rev (dropWhile py_space s)))"

section \<open>The metadata file\<close>

definition categories_key :: string where
  "categories_key = ''_categories''"

definition default_metadata :: "(string, json) pydict" where
  "default_metadata = [(categories_key, JList [JStr etc_category])]"

text \<open>The repair of one entry in \<open>load_db_metadata\<close>: an empty or missing display name
  becomes the key without the \<open>VECTOR_DB_FOLDER\<close> prefix, an empty or missing category
  becomes \<open>etc_category\<close>.\<close>

definition fill_field :: "string \<Rightarrow> json \<Rightarrow> (string, json) pydict \<Rightarrow> (string, json) pydict" where
  "fill_field f v obj =
     (case dict_get obj f of
        Some x \<Rightarrow> if json_truthy x then obj else dict_set obj f v
      | None \<Rightarrow> dict_set obj f v)"

definition normalise_entry :: "string \<Rightarrow> json \<Rightarrow> json" where
  "normalise_entry k v =
     (if k = categories_key then v
      else case v of
             JObj obj \<Rightarrow> JObj (fill_field ''category'' (JStr etc_category)
                                (fill_field ''display_name'' (JStr (str_replace vector_db_folder [] k)) obj))
           | _ \<Rightarrow> v)"

text \<open>A missing file and a file whose content is not an object (the code's assignments then
  raise and its handler returns the default) both give the default metadata.\<close>

definition load_db_metadata :: "json option \<Rightarrow> (string, json) pydict" where
  "load_db_metadata file =
     (case file of
        Some (JObj md) \<Rightarrow>
          (let md1 = (if dict_mem categories_key md then md else dict_set md categories_key (JList []))
           in map (\<lambda>(k, v). (k, normalise_entry k v)) md1)
      | _ \<Rightarrow> default_metadata)"

definition save_db_metadata :: "(string, json) pydict \<Rightarrow> json option" where
  "save_db_metadata md = Some (JObj md)"

text \<open>\<open>get_db_display_name\<close>.\<close>

definition get_db_display_name :: "(string, json) pydict \<Rightarrow> string \<Rightarrow> error + json" where
  "get_db_display_name md db =
     json_get (case dict_get md db of Some v \<Rightarrow> v | None \<Rightarrow> JObj []) ''display_name''
       (JStr (str_replace vector_db_folder [] db))"

section \<open>get_all_categories\<close>

text \<open>The non-empty string categories used by the corpora, and those of the \<open>_categories\<close>
  list.\<close>

definition str_of :: "json \<Rightarrow> string list" where
  "str_of v = (case v of JStr s \<Rightarrow> if s \<noteq> [] then [s] else [] | _ \<Rightarrow> [])"

definition used_categories :: "(string, json) pydict \<Rightarrow> string list" where
  "used_categories md =
     concat (map (\<lambda>(k, v). if k = categories_key then []
                          else case v of
                                 JObj obj \<Rightarrow> (case dict_get obj ''category'' of Some c \<Rightarrow> str_of c | None \<Rightarrow> [])
                               | _ \<Rightarrow> []) md)"

definition listed_categories :: "(string, json) pydict \<Rightarrow> string list" where
  "listed_categories md =
     (case dict_get md categories_key of Some (JList cs) \<Rightarrow> concat (map str_of cs) | _ \<Rightarrow> [])"

text \<open>\<open>sorted(list(categories))\<close> of a set.\<close>

definition get_all_categories :: "(string, json) pydict \<Rightarrow> string list" where
  "get_all_categories md = sort (remdups (used_categories md @ listed_categories md @ [etc_category]))"

section \<open>The category routes\<close>

datatype cat_error = No_name | Cat_exists | Cat_exception error

text \<open>\<open>x in v\<close> for a value \<open>v\<close> read from JSON: membership in a list, substring of a
  string, key of an object; a \<open>TypeError\<close> for a non-string in a string, an unhashable key
  (list or object) in an object, and a \<open>v\<close> that is not a container. List membership
  compares with the structural equality of \<open>json\<close>, which is Python's \<open>==\<close> except that
  Python also equates \<open>True\<close> with \<open>1\<close> and objects with the same items in another order;
  the category routes compare strings only, where the two agree.\<close>

definition json_contains :: "json \<Rightarrow> json \<Rightarrow> error + bool" where
  "json_contains v x =
     (case v of
        JList xs \<Rightarrow> Inr (x \<in> set xs)
      | JStr s \<Rightarrow> (case x of JStr t \<Rightarrow> Inr (sublist t s) | _ \<Rightarrow> Inl (Type_error ''in''))
      | JObj obj \<Rightarrow> (case x of
                      JStr t \<Rightarrow> Inr (dict_mem t obj)
                    | JList _ \<Rightarrow> Inl (Type_error ''unhashable'')
                    | JObj _ \<Rightarrow> Inl (Type_error ''unhashable'')
                    | _ \<Rightarrow> Inr False)
      | _ \<Rightarrow> Inl (Type_error ''in''))"

text \<open>\<open>metadata['_categories'].append(x)\<close> unless \<open>x\<close> is already in it.\<close>

definition append_category :: "json \<Rightarrow> (string, json) pydict \<Rightarrow> error + (string, json) pydict" where
  "append_category x md =
     (let cs = (case dict_get md categories_key of Some v \<Rightarrow> v | None \<Rightarrow> JList [])
      in case json_contains cs x of
           Inl e \<Rightarrow> Inl e
         | Inr True \<Rightarrow> Inr md
         | Inr False \<Rightarrow>
             (case cs of
                JList xs \<Rightarrow> Inr (dict_set md categories_key (JList (xs @ [x])))
              | _ \<Rightarrow> Inl (Attribute_error ''append'')))"

definition add_category :: "string \<Rightarrow> json option \<Rightarrow> (cat_error + string list) \<times> json option" where
  "add_category name file =
     (let n = py_strip name
      in if n = [] then (Inl No_name, file)
         else if n \<in> set (get_all_categories (load_db_metadata file)) then (Inl Cat_exists, file)
         else (case append_category (JStr n) (load_db_metadata file) of
                 Inl e \<Rightarrow> (Inl (Cat_exception e), file)
               | Inr md \<Rightarrow> (let file' = save_db_metadata md
                            in (Inr (get_all_categories (load_db_metadata file')), file'))))"

text \<open>Every corpus whose category is \<open>old\<close> gets \<open>new\<close> (\<open>delete_category\<close>,
  \<open>rename_category\<close>).\<close>

definition recategorise :: "string \<Rightarrow> json \<Rightarrow> (string, json) pydict \<Rightarrow> (string, json) pydict" where
  "recategorise old new md =
     map (\<lambda>(k, v). (k, case v of
                        JObj obj \<Rightarrow> if dict_get obj ''category'' = Some (JStr old)
                                    then JObj (dict_set obj ''category'' new) else v
                      | _ \<Rightarrow> v)) md"

text \<open>\<open>list.remove(x)\<close> and \<open>list[list.index(x)] = y\<close>: the first occurrence only.\<close>

fun remove_first :: "'a \<Rightarrow> 'a list \<Rightarrow> 'a list" where
  "remove_first x [] = []"
| "remove_first x (y # ys) = (if y = x then ys else y # remove_first x ys)"

fun replace_first :: "'a \<Rightarrow> 'a \<Rightarrow> 'a list \<Rightarrow> 'a list" where
  "replace_first x z [] = []"
| "replace_first x z (y # ys) = (if y = x then z # ys else y # replace_first x z ys)"

definition map_category_list :: "(json list \<Rightarrow> json list) \<Rightarrow> (string, json) pydict \<Rightarrow> (string, json) pydict" where
  "map_category_list f md =
     (case dict_get md categories_key of
        Some (JList xs) \<Rightarrow> dict_set md categories_key (JList (f xs))
      | _ \<Rightarrow> md)"

definition delete_category :: "string \<Rightarrow> json option \<Rightarrow> (cat_error + string list) \<times> json option" where
  "delete_category name file =
     (let n = py_strip name
      in if n = [] then (Inl No_name, file)
         else (let md = map_category_list (remove_first (JStr n))
                          (recategorise n (JStr etc_category) (load_db_metadata file));
                   file' = save_db_metadata md
               in (Inr (get_all_categories (load_db_metadata file')), file')))"

definition rename_category :: "string \<Rightarrow> string \<Rightarrow> json option \<Rightarrow> (cat_error + string list) \<times> json option" where
  "rename_category old_name new_name file =
     (let old = py_strip old_name; new = py_strip new_name
      in if old = [] \<or> new = [] then (Inl No_name, file)
         else (let md = map_category_list (replace_first (JStr old) (JStr new))
                          (recategorise old (JStr new) (load_db_metadata file));
                   file' = save_db_metadata md
               in (Inr (get_all_categories (load_db_metadata file')), file')))"

datatype upd_response = Upd_updated json | Upd_added | Upd_missing_args | Upd_exception error

text \<open>\<open>update_db_category\<close>: the new category is whatever JSON value the request carries;
  \<open>now\<close> is \<open>datetime.now().isoformat()\<close>. The old category is returned for an existing
  corpus. The category is added to \<open>_categories\<close> after the membership test (which may
  raise) and the comparison with the default category, in this order.\<close>

definition add_listed_category :: "json \<Rightarrow> (string, json) pydict \<Rightarrow> error + (string, json) pydict" where
  "add_listed_category c md =
     (let cs = (case dict_get md categories_key of Some v \<Rightarrow> v | None \<Rightarrow> JList [])
      in case json_contains cs c of
           Inl e \<Rightarrow> Inl e
         | Inr True \<Rightarrow> Inr md
         | Inr False \<Rightarrow>
             if c = JStr etc_category then Inr md
             else (case cs of
                     JList xs \<Rightarrow> Inr (dict_set md categories_key (JList (xs @ [c])))
                   | _ \<Rightarrow> Inl (Attribute_error ''append'')))"

definition update_db_category ::
  "string \<Rightarrow> json \<Rightarrow> string \<Rightarrow> json option \<Rightarrow> upd_response \<times> json option" where
  "update_db_category db cat now file =
     (if db = [] \<or> \<not> json_truthy cat then (Upd_missing_args, file)
      else
        (let md = load_db_metadata file
         in case dict_get md db of
              Some (JObj obj) \<Rightarrow>
                (let old = (case dict_get obj ''category'' of Some c \<Rightarrow> c | None \<Rightarrow> JStr etc_category)
                 in case add_listed_category cat (dict_set md db (JObj (dict_set obj ''category'' cat))) of
                      Inl e \<Rightarrow> (Upd_exception e, file)
                    | Inr md' \<Rightarrow> (Upd_updated old, save_db_metadata md'))
            | Some _ \<Rightarrow> (Upd_exception (Attribute_error ''get''), file)
            | None \<Rightarrow>
                (let entry = JObj [(''display_name'', JStr (str_replace vector_db_folder [] db)),
                                   (''category'', cat), (''created_at'', JStr now)]
                 in case add_listed_category cat (dict_set md db entry) of
                      Inl e \<Rightarrow> (Upd_exception e, file)
                    | Inr md' \<Rightarrow> (Upd_added, save_db_metadata md'))))"

section \<open>get_vector_dbs\<close>

record vdb_item =
  vi_id :: string
  vi_name :: json
  vi_category :: json

text \<open>One existing folder: its display name and category from the metadata, a missing or
  empty display name replaced by the folder suffix (and written back, with a new entry when
  the folder has none), an empty category replaced by \<open>etc_category\<close>. The flag records
  that the metadata changed. A non-object entry raises (the route has no handler).\<close>

definition vdb_one ::
  "string \<Rightarrow> (string, json) pydict \<Rightarrow> string \<Rightarrow> error + (vdb_item \<times> (string, json) pydict \<times> bool)" where
  "vdb_one now md folder =
     (let info = (case dict_get md folder of Some v \<Rightarrow> v | None \<Rightarrow> JObj [])
      in case json_get info ''display_name'' JNull of
           Inl e \<Rightarrow> Inl e
         | Inr dn \<Rightarrow>
             (let (name, md1, ch1) =
                (if json_truthy dn then (dn, md, False)
                 else (let n = JStr (db_suffix folder)
                       in case dict_get md folder of
                            Some (JObj obj) \<Rightarrow> (n, dict_set md folder (JObj (dict_set obj ''display_name'' n)), True)
                          | Some _ \<Rightarrow> (n, md, True)
                          | None \<Rightarrow> (n, dict_set md folder (JObj [(''display_name'', n), (''category'', JStr etc_category),
                                                                (''created_at'', JStr now)]), True)));
                  info1 = (case dict_get md folder of Some _ \<Rightarrow> (case dict_get md1 folder of Some v \<Rightarrow> v | None \<Rightarrow> info) | None \<Rightarrow> info)
              in case json_get info1 ''category'' (JStr etc_category) of
                   Inl e \<Rightarrow> Inl e
                 | Inr c \<Rightarrow>
                     if json_truthy c then Inr (\<lparr>vi_id = folder, vi_name = name, vi_category = c\<rparr>, md1, ch1)
                     else (case dict_get md1 folder of
                             Some (JObj obj) \<Rightarrow>
                               Inr (\<lparr>vi_id = folder, vi_name = name, vi_category = JStr etc_category\<rparr>,
                                    dict_set md1 folder (JObj (dict_set obj ''category'' (JStr etc_category))), True)
                           | _ \<Rightarrow> Inr (\<lparr>vi_id = folder, vi_name = name, vi_category = JStr etc_category\<rparr>, md1, ch1))))"

fun vdb_loop ::
  "string \<Rightarrow> (string, json) pydict \<Rightarrow> bool \<Rightarrow> string list \<Rightarrow> error + (vdb_item list \<times> (string, json) pydict \<times> bool)" where
  "vdb_loop now md ch [] = Inr ([], md, ch)"
| "vdb_loop now md ch (f # fs) =
     (case vdb_one now md f of
        Inl e \<Rightarrow> Inl e
      | Inr (it, md1, ch1) \<Rightarrow>
          (case vdb_loop now md1 (ch \<or> ch1) fs of
             Inl e \<Rightarrow> Inl e
           | Inr (its, md2, ch2) \<Rightarrow> Inr (it # its, md2, ch2)))"

text \<open>\<open>categorized_dbs\<close>: the items grouped by category, categories in order of first
  appearance.\<close>

definition categorize :: "vdb_item list \<Rightarrow> (json, vdb_item list) pydict" where
  "categorize items =
     fold (\<lambda>it d. case dict_get d (vi_category it) of
                    None \<Rightarrow> dict_set d (vi_category it) [it]
                  | Some its \<Rightarrow> dict_set d (vi_category it) (its @ [it])) items []"

definition get_vector_dbs ::
  "(string \<times> bool) list \<Rightarrow> string \<Rightarrow> json option
   \<Rightarrow> error + ((vdb_item list \<times> (json, vdb_item list) pydict) \<times> json option)" where
  "get_vector_dbs listing now file =
     (case vdb_loop now (load_db_metadata file) False (existing_folders listing) of
        Inl e \<Rightarrow> Inl e
      | Inr (items, md, ch) \<Rightarrow> Inr ((items, categorize items), if ch then save_db_metadata md else file))"


section \<open>The category store as a set\<close>

text \<open>The abstract state the category routes promise to maintain: the set of categories the
  page shows (\<open>get_all_categories\<close> after loading the file). The representation invariant:
  \<open>_categories\<close> is a list whose category names are pairwise distinct.\<close>

definition category_set :: "json option \<Rightarrow> string set" where
  "category_set file = set (get_all_categories (load_db_metadata file))"

definition category_invar :: "json option \<Rightarrow> bool" where
  "category_invar file =
     (case dict_get (load_db_metadata file) categories_key of
        Some (JList xs) \<Rightarrow> distinct (concat (map str_of xs))
      | _ \<Rightarrow> False)"

text \<open>A metadata file with one corpus in category \<open>A\<close> and the listed categories \<open>A\<close>, \<open>B\<close>.\<close>

definition demo_cat_file :: "json option" where
  "demo_cat_file = Some (JObj [(''LANGCHAIN_DB_INDEX_a'', JObj [(''display_name'', JStr ''a''), (''category'', JStr ''A'')]),
                               (''_categories'', JList [JStr ''A'', JStr ''B''])])"

section \<open>Lemmas on the metadata file\<close>

lemma set_remove_first: "set (remove_first x xs) \<subseteq> set xs"
  by (induction xs) auto

lemma load_save:
  "dict_mem categories_key md \<Longrightarrow>
   load_db_metadata (save_db_metadata md) = map (\<lambda>(k, v). (k, normalise_entry k v)) md"
  by (simp add: load_db_metadata_def save_db_metadata_def)

lemma load_has_categories: "dict_mem categories_key (load_db_metadata file)"
proof (cases "file")
  case (Some v)
  then show ?thesis
    by (cases v) (simp_all add: load_db_metadata_def Let_def dict_mem_set,
                  simp_all add: default_metadata_def dict_mem_iff dict_get_def)
qed (simp add: load_db_metadata_def default_metadata_def dict_mem_iff dict_get_def)

lemma fill_field_get:
  "dict_get (fill_field f v obj) g = dict_get obj g \<or> dict_get (fill_field f v obj) g = Some v"
  by (cases "dict_get obj f") (auto simp: fill_field_def dict_get_set)

lemma fill_field_other: "g \<noteq> f \<Longrightarrow> dict_get (fill_field f v obj) g = dict_get obj g"
  by (cases "dict_get obj f") (auto simp: fill_field_def dict_get_set)

lemma fill_field_fixed:
  "dict_get obj f = Some v \<or> (\<exists>x. dict_get obj f = Some x \<and> json_truthy x) \<Longrightarrow> fill_field f v obj = obj"
  by (auto simp: fill_field_def dict_set_same)

lemma fill_field_filled:
  "dict_get (fill_field f v obj) f = Some v \<or> (\<exists>x. dict_get (fill_field f v obj) f = Some x \<and> json_truthy x)"
  by (auto simp: fill_field_def dict_get_set split: option.splits)

lemma fill_field_value:
  "dict_get (fill_field f v obj) f
   = (case dict_get obj f of Some x \<Rightarrow> if json_truthy x then Some x else Some v | None \<Rightarrow> Some v)"
  by (auto simp: fill_field_def dict_get_set split: option.splits)

lemma normalise_category:
  assumes "k \<noteq> categories_key" and "normalise_entry k (JObj obj) = JObj obj'"
  shows "dict_get obj' ''category'' = dict_get obj ''category'' \<or> dict_get obj' ''category'' = Some (JStr etc_category)"
proof -
  let ?X = "fill_field ''display_name'' (JStr (str_replace vector_db_folder [] k)) obj"
  have o: "obj' = fill_field ''category'' (JStr etc_category) ?X"
    using assms by (simp add: normalise_entry_def)
  have "dict_get ?X ''category'' = dict_get obj ''category''" by (simp add: fill_field_other)
  then show ?thesis using fill_field_get [of "''category''" "JStr etc_category" ?X "''category''"] o by simp
qed

lemma normalise_entry_JObj: "normalise_entry k v = JObj obj' \<Longrightarrow> k \<noteq> categories_key \<Longrightarrow> \<exists>obj. v = JObj obj"
  by (cases v) (auto simp: normalise_entry_def)

lemma normalise_entry_idem: "normalise_entry k (normalise_entry k v) = normalise_entry k v"
proof (cases "k = categories_key")
  case False
  show ?thesis
  proof (cases v)
    case (JObj obj)
    let ?Y = "fill_field ''display_name'' (JStr (str_replace vector_db_folder [] k)) obj"
    let ?Z = "fill_field ''category'' (JStr etc_category) ?Y"
    have "fill_field ''display_name'' (JStr (str_replace vector_db_folder [] k)) ?Z = ?Z"
      using fill_field_filled [of "''display_name''" _ obj]
      by (intro fill_field_fixed) (simp add: fill_field_other)
    moreover have "fill_field ''category'' (JStr etc_category) ?Z = ?Z"
      by (intro fill_field_fixed fill_field_filled)
    ultimately show ?thesis using False JObj by (simp add: normalise_entry_def)
  qed (simp_all add: normalise_entry_def)
qed (simp add: normalise_entry_def)

lemma normalise_keeps_category:
  "dict_get obj ''category'' = Some c \<Longrightarrow> json_truthy c \<Longrightarrow>
   \<exists>obj'. normalise_entry k (JObj obj) = JObj obj' \<and> dict_get obj' ''category'' = Some c"
proof -
  let ?Y = "fill_field ''display_name'' (JStr (str_replace vector_db_folder [] k)) obj"
  assume "dict_get obj ''category'' = Some c" "json_truthy c"
  then have "dict_get ?Y ''category'' = Some c" "json_truthy c" by (simp_all add: fill_field_other)
  then have "fill_field ''category'' (JStr etc_category) ?Y = ?Y" by (blast intro: fill_field_fixed)
  then show ?thesis using \<open>dict_get ?Y ''category'' = Some c\<close> \<open>dict_get obj ''category'' = Some c\<close>
    by (simp add: normalise_entry_def del: str_replace.simps)
qed

lemma str_of_iff: "c \<in> set (str_of x) \<longleftrightarrow> x = JStr c \<and> c \<noteq> []"
  by (auto simp: str_of_def split: json.splits)

lemma used_categories_iff:
  "c \<in> set (used_categories md) \<longleftrightarrow>
   (\<exists>k obj x. (k, JObj obj) \<in> set md \<and> k \<noteq> categories_key \<and> dict_get obj ''category'' = Some x \<and> c \<in> set (str_of x))"
  by (auto simp: used_categories_def split: json.splits option.splits if_splits) force+

lemma used_normalised:
  "c \<in> set (used_categories (map (\<lambda>(k, v). (k, normalise_entry k v)) md)) \<Longrightarrow>
   c \<in> set (used_categories md) \<or> c = etc_category"
proof -
  assume "c \<in> set (used_categories (map (\<lambda>(k, v). (k, normalise_entry k v)) md))"
  then obtain k obj' x where
    m: "(k, JObj obj') \<in> set (map (\<lambda>(k, v). (k, normalise_entry k v)) md)" and
    k: "k \<noteq> categories_key" and g: "dict_get obj' ''category'' = Some x" and c: "c \<in> set (str_of x)"
    unfolding used_categories_iff by blast
  from m obtain v where kv: "(k, v) \<in> set md" and n: "normalise_entry k v = JObj obj'" by auto
  from normalise_entry_JObj [OF n k] obtain obj where v: "v = JObj obj" by blast
  from normalise_category [OF k n [unfolded v]] show ?thesis
  proof
    assume "dict_get obj' ''category'' = dict_get obj ''category''"
    then show ?thesis using kv v k g c unfolding used_categories_iff by metis
  next
    assume "dict_get obj' ''category'' = Some (JStr etc_category)"
    then show ?thesis using g c by (simp add: str_of_def)
  qed
qed

lemma used_normalised_sup:
  "c \<in> set (used_categories md) \<Longrightarrow> c \<in> set (used_categories (map (\<lambda>(k, v). (k, normalise_entry k v)) md))"
proof -
  assume "c \<in> set (used_categories md)"
  then obtain k obj x where m: "(k, JObj obj) \<in> set md" and k: "k \<noteq> categories_key"
      and g: "dict_get obj ''category'' = Some x" and c: "c \<in> set (str_of x)"
    unfolding used_categories_iff by blast
  from c have x: "x = JStr c" "json_truthy x" by (auto simp: str_of_iff)
  from normalise_keeps_category [OF g [unfolded x(1)], of k] x obtain obj' where
    "normalise_entry k (JObj obj) = JObj obj'" "dict_get obj' ''category'' = Some (JStr c)" by auto
  with m k c x show ?thesis unfolding used_categories_iff by force
qed

lemma used_dict_set_categories: "used_categories (dict_set md categories_key v) = used_categories md"
  by (induction md) (auto simp: used_categories_def)

lemma listed_normalised:
  "listed_categories (map (\<lambda>(k, v). (k, normalise_entry k v)) md) = listed_categories md"
  by (simp add: listed_categories_def dict_get_map_snd normalise_entry_def option.map_ident)

lemma set_get_all_categories:
  "set (get_all_categories md) = set (used_categories md) \<union> set (listed_categories md) \<union> {etc_category}"
  by (auto simp: get_all_categories_def)

lemma get_all_normalised:
  "set (get_all_categories (map (\<lambda>(k, v). (k, normalise_entry k v)) md)) = set (get_all_categories md)"
  using used_normalised [of _ md] used_normalised_sup [of _ md]
  by (auto simp: set_get_all_categories listed_normalised)

lemma used_recategorise_set:
  assumes "n \<noteq> etc_category"
  shows "set (used_categories (recategorise n (JStr etc_category) md)) \<union> {etc_category}
         = (set (used_categories md) - {n}) \<union> {etc_category}"
proof (intro equalityI subsetI)
  fix c assume "c \<in> set (used_categories (recategorise n (JStr etc_category) md)) \<union> {etc_category}"
  moreover have "c \<in> set (used_categories md) - {n} \<union> {etc_category}"
    if "c \<in> set (used_categories (recategorise n (JStr etc_category) md))"
  proof -
    from that obtain k obj x where
      m: "(k, JObj obj) \<in> set (recategorise n (JStr etc_category) md)" and k: "k \<noteq> categories_key" and
      g: "dict_get obj ''category'' = Some x" and c: "c \<in> set (str_of x)"
      unfolding used_categories_iff by blast
    from m obtain v where kv: "(k, v) \<in> set md" and
      e: "JObj obj = (case v of JObj obj \<Rightarrow> if dict_get obj ''category'' = Some (JStr n)
                       then JObj (dict_set obj ''category'' (JStr etc_category)) else v | _ \<Rightarrow> v)"
      by (auto simp: recategorise_def)
    show ?thesis
    proof (cases "\<exists>o0. v = JObj o0 \<and> dict_get o0 ''category'' = Some (JStr n)")
      case True
      then show ?thesis using e g c by (auto simp: dict_get_set str_of_iff)
    next
      case False
      then have v: "v = JObj obj" using e by (cases v) auto
      then have "c \<noteq> n" using False g c by (auto simp: str_of_iff)
      moreover have "c \<in> set (used_categories md)"
        using kv v k g c unfolding used_categories_iff by blast
      ultimately show ?thesis by blast
    qed
  qed
  ultimately show "c \<in> set (used_categories md) - {n} \<union> {etc_category}" by blast
next
  fix c assume "c \<in> set (used_categories md) - {n} \<union> {etc_category}"
  moreover have "c \<in> set (used_categories (recategorise n (JStr etc_category) md))"
    if "c \<in> set (used_categories md)" "c \<noteq> n"
  proof -
    from that obtain k obj x where m: "(k, JObj obj) \<in> set md" and k: "k \<noteq> categories_key" and
      g: "dict_get obj ''category'' = Some x" and c: "c \<in> set (str_of x)"
      unfolding used_categories_iff by blast
    from c that(2) g have "dict_get obj ''category'' \<noteq> Some (JStr n)" by (auto simp: str_of_iff)
    then have "(k, JObj obj) \<in> set (recategorise n (JStr etc_category) md)"
      using m by (force simp: recategorise_def)
    then show ?thesis using k g c unfolding used_categories_iff by blast
  qed
  ultimately show "c \<in> set (used_categories (recategorise n (JStr etc_category) md)) \<union> {etc_category}"
    by blast
qed

lemma remove_first_str_of_set:
  "distinct (concat (map str_of xs)) \<Longrightarrow>
   set (concat (map str_of (remove_first (JStr n) xs))) = set (concat (map str_of xs)) - {n}"
  by (induction xs) (auto simp: str_of_iff)

lemma remove_first_str_of_distinct:
  "distinct (concat (map str_of xs)) \<Longrightarrow> distinct (concat (map str_of (remove_first (JStr n) xs)))"
proof (induction xs)
  case (Cons x xs)
  then show ?case using set_remove_first [of "JStr n" xs] by fastforce
qed simp

lemma distinct_str_of_snoc:
  "x \<notin> set xs \<Longrightarrow> distinct (concat (map str_of xs)) \<Longrightarrow> distinct (concat (map str_of (xs @ [x])))"
  by (auto simp: str_of_def str_of_iff split: json.splits)

lemma load_normalised:
  "map (\<lambda>(k, v). (k, normalise_entry k v)) (load_db_metadata file) = load_db_metadata file"
proof -
  have n: "map (\<lambda>(k, v). (k, normalise_entry k v)) (map (\<lambda>(k, v). (k, normalise_entry k v)) md)
          = map (\<lambda>(k, v). (k, normalise_entry k v)) md" for md :: "(string, json) pydict"
    by (induction md) (auto simp: normalise_entry_idem)
  show ?thesis
  proof (cases "\<exists>md. file = Some (JObj md)")
    case True
    then show ?thesis using n by (auto simp: load_db_metadata_def Let_def)
  next
    case False
    then have "load_db_metadata file = default_metadata"
      by (auto simp: load_db_metadata_def split: option.splits json.splits)
    then show ?thesis by (simp add: default_metadata_def normalise_entry_def)
  qed
qed

lemma load_save_set:
  "load_db_metadata (save_db_metadata (dict_set (load_db_metadata file) k v))
   = dict_set (load_db_metadata file) k (normalise_entry k v)"
proof -
  have "dict_mem categories_key (dict_set (load_db_metadata file) k v)"
    using load_has_categories [of "file"] by (simp add: dict_mem_set)
  then show ?thesis by (simp add: load_save map_snd_dict_set load_normalised)
qed

lemma normalise_dict_set_categories:
  "map (\<lambda>(k, v). (k, normalise_entry k v)) (dict_set md categories_key v)
   = dict_set (map (\<lambda>(k, v). (k, normalise_entry k v)) md) categories_key v"
  by (induction md) (auto simp: normalise_entry_def)

lemma load_save_del:
  "dict_get (load_db_metadata (save_db_metadata (dict_del (load_db_metadata file) x))) k
   = (if k = x then (if x = categories_key then Some (JList []) else None)
      else dict_get (load_db_metadata file) k)"
proof (cases "x = categories_key")
  case False
  have "dict_mem categories_key (dict_del (load_db_metadata file) x)"
    using load_has_categories [of "file"] False by (simp add: dict_mem_del)
  then have "load_db_metadata (save_db_metadata (dict_del (load_db_metadata file) x)) = dict_del (load_db_metadata file) x"
    by (simp add: load_save map_snd_dict_del load_normalised)
  then show ?thesis using False by (simp add: dict_get_del_same dict_get_del_other)
next
  case True
  let ?D = "dict_del (load_db_metadata file) x"
  have nm: "\<not> dict_mem categories_key ?D" using True by (simp add: dict_mem_iff dict_get_del_same)
  have L: "load_db_metadata (save_db_metadata ?D) = map (\<lambda>(k, v). (k, normalise_entry k v)) (dict_set ?D categories_key (JList []))"
    using nm by (simp add: load_db_metadata_def save_db_metadata_def)
  have D: "map (\<lambda>(k, v). (k, normalise_entry k v)) ?D = ?D"
    by (simp add: map_snd_dict_del load_normalised)
  have "load_db_metadata (save_db_metadata ?D)
        = dict_set (map (\<lambda>(k, v). (k, normalise_entry k v)) ?D) categories_key (JList [])"
    unfolding L by (rule normalise_dict_set_categories)
  then have "load_db_metadata (save_db_metadata ?D) = dict_set ?D categories_key (JList [])"
    by (simp only: D)
  then show ?thesis using True by (simp add: dict_get_set dict_get_del_same dict_get_del_other)
qed

lemma invar_categories:
  "category_invar file \<Longrightarrow>
   \<exists>xs. dict_get (load_db_metadata file) categories_key = Some (JList xs) \<and> distinct (concat (map str_of xs))"
  by (auto simp: category_invar_def split: option.splits json.splits)

lemma listed_of_list:
  "dict_get md categories_key = Some (JList xs) \<Longrightarrow> listed_categories md = concat (map str_of xs)"
  by (simp add: listed_categories_def)

lemma dict_get_recategorise_list:
  "dict_get md k = Some (JList xs) \<Longrightarrow> dict_get (recategorise old new md) k = Some (JList xs)"
  unfolding recategorise_def dict_get_map_snd by simp

lemma append_category_cases:
  assumes "append_category x md = Inr md'"
  shows "md' = md \<or> (\<exists>xs. (dict_get md categories_key = Some (JList xs) \<or> dict_get md categories_key = None \<and> xs = [])
                   \<and> x \<notin> set xs \<and> md' = dict_set md categories_key (JList (xs @ [x])))"
proof (cases "dict_get md categories_key")
  case None
  then show ?thesis using assms by (simp add: append_category_def json_contains_def split: if_splits)
next
  case (Some v)
  then show ?thesis using assms
    by (cases v) (simp_all add: append_category_def json_contains_def split: if_splits sum.splits bool.splits json.splits)
qed

lemma add_listed_category_cases:
  assumes "add_listed_category c md = Inr md'"
  shows "md' = md \<or> (\<exists>xs. (dict_get md categories_key = Some (JList xs) \<or> dict_get md categories_key = None \<and> xs = [])
                   \<and> c \<notin> set xs \<and> md' = dict_set md categories_key (JList (xs @ [c])))"
proof (cases "dict_get md categories_key")
  case None
  then show ?thesis using assms by (simp add: add_listed_category_def json_contains_def split: if_splits)
next
  case (Some v)
  then show ?thesis using assms
    by (cases v) (simp_all add: add_listed_category_def json_contains_def split: if_splits sum.splits bool.splits json.splits)
qed

lemma update_db_category_written:
  assumes "update_db_category db cat now file = (r, file')"
      and "r = Upd_added \<or> (\<exists>old. r = Upd_updated old)"
  shows "\<exists>E md'. (\<exists>obj. E = JObj obj \<and> dict_get obj ''category'' = Some cat) \<and> json_truthy cat \<and>
           add_listed_category cat (dict_set (load_db_metadata file) db E) = Inr md' \<and>
           file' = save_db_metadata md' \<and>
           (dict_get (load_db_metadata file) db = None \<or> (\<exists>obj. dict_get (load_db_metadata file) db = Some (JObj obj)))"
proof -
  let ?md = "load_db_metadata file"
  have g: "db \<noteq> [] \<and> json_truthy cat"
    using assms by (auto simp: update_db_category_def split: if_splits)
  show ?thesis
  proof (cases "dict_get ?md db")
    case None
    let ?E = "JObj [(''display_name'', JStr (str_replace vector_db_folder [] db)),
                    (''category'', cat), (''created_at'', JStr now)]"
    from assms g None obtain md' where "add_listed_category cat (dict_set ?md db ?E) = Inr md'"
        "file' = save_db_metadata md'"
      by (auto simp: update_db_category_def Let_def split: sum.splits simp del: str_replace.simps)
    moreover have "dict_get [(''display_name'', JStr (str_replace vector_db_folder [] db)),
                    (''category'', cat), (''created_at'', JStr now)] ''category'' = Some cat"
      by (simp add: dict_get_def del: str_replace.simps)
    ultimately show ?thesis using g None by blast
  next
    case (Some v)
    then obtain obj where v: "v = JObj obj"
      using assms g by (cases v) (auto simp: update_db_category_def Let_def)
    let ?E = "JObj (dict_set obj ''category'' cat)"
    from assms g Some v obtain md' where "add_listed_category cat (dict_set ?md db ?E) = Inr md'"
        "file' = save_db_metadata md'"
      by (auto simp: update_db_category_def Let_def split: sum.splits)
    moreover have "dict_get (dict_set obj ''category'' cat) ''category'' = Some cat" by (simp add: dict_get_set)
    ultimately show ?thesis using g Some v by blast
  qed
qed

lemma vdb_one_item:
  "vdb_one now md f = Inr (it, md1, ch1) \<Longrightarrow> vi_id it = f \<and> json_truthy (vi_category it)"
  unfolding vdb_one_def Let_def
  by (auto simp: etc_category_def split: sum.splits if_splits option.splits json.splits prod.splits)

lemma vdb_loop_items:
  "vdb_loop now md ch fs = Inr (items, md', ch') \<Longrightarrow>
   map vi_id items = fs \<and> (\<forall>it \<in> set items. json_truthy (vi_category it))"
proof (induction fs arbitrary: md ch items)
  case (Cons f fs)
  then show ?case by (auto dest: vdb_one_item split: sum.splits prod.splits)
qed simp

section \<open>Properties of the category routes\<close>

text \<open>The definitions that evaluate the routes on \<open>demo_cat_file\<close>.\<close>

lemmas demo_eval = category_invar_def delete_category_def rename_category_def add_category_def demo_cat_file_def py_strip_def
      py_space_def load_db_metadata_def categories_key_def dict_mem_def dict_keys_def normalise_entry_def
      fill_field_def dict_get_def recategorise_def map_category_list_def save_db_metadata_def
      get_all_categories_def used_categories_def listed_categories_def str_of_def etc_category_def Let_def
      less_char_def less_eq_char_def append_category_def json_contains_def

text \<open>C10 (delete_category refines set deletion) On a file satisfying the invariant, deleting a
  category other than the default removes exactly that category from the set the page shows,
  the route returns that set, and the invariant still holds.\<close>

lemma category_delete_refines:
  assumes inv: "category_invar file" and n: "py_strip name \<noteq> etc_category"
      and dl: "delete_category name file = (Inr cats, file')"
  shows "category_set file' = category_set file - {py_strip name} \<and> set cats = category_set file'
         \<and> category_invar file'"
proof -
  let ?L = "load_db_metadata file" and ?n = "py_strip name"
  let ?R = "recategorise ?n (JStr etc_category) ?L"
  from invar_categories [OF inv] obtain xs where
    L: "dict_get ?L categories_key = Some (JList xs)" and d: "distinct (concat (map str_of xs))" by blast
  have R: "dict_get ?R categories_key = Some (JList xs)" using L by (rule dict_get_recategorise_list)
  let ?M = "dict_set ?R categories_key (JList (remove_first (JStr ?n) xs))"
  have M: "map_category_list (remove_first (JStr ?n)) ?R = ?M" using R by (simp add: map_category_list_def)
  have mem: "dict_mem categories_key ?M" by (simp add: dict_mem_set)
  from dl have ne: "?n \<noteq> []" by (auto simp: delete_category_def Let_def)
  have f': "file' = save_db_metadata ?M" and cats: "cats = get_all_categories (load_db_metadata file')"
    using dl ne M by (auto simp: delete_category_def Let_def)
  have load': "load_db_metadata file' = map (\<lambda>(k, v). (k, normalise_entry k v)) ?M"
    using mem by (simp add: f' load_save)
  have lM: "listed_categories ?M = concat (map str_of (remove_first (JStr ?n) xs))"
    by (simp add: listed_categories_def dict_get_set)
  have "category_set file' = set (get_all_categories ?M)"
    by (simp add: category_set_def load' get_all_normalised)
  also have "\<dots> = (set (used_categories ?R) \<union> {etc_category}) \<union> set (listed_categories ?M)"
    unfolding set_get_all_categories used_dict_set_categories by blast
  also have "\<dots> = category_set file - {?n}"
    unfolding used_recategorise_set [OF n] category_set_def set_get_all_categories lM
      remove_first_str_of_set [OF d] listed_of_list [OF L]
    using n by blast
  finally have s: "category_set file' = category_set file - {?n}" .
  have "dict_get (load_db_metadata file') categories_key = Some (JList (remove_first (JStr ?n) xs))"
    by (simp add: load' dict_get_map_snd dict_get_set normalise_entry_def)
  then have "category_invar file'" using remove_first_str_of_distinct [OF d] by (simp add: category_invar_def)
  with s show ?thesis by (simp add: cats category_set_def)
qed

theorem category_delete_refines_witness:
  "category_set (snd (delete_category ''A'' demo_cat_file)) = category_set demo_cat_file - {''A''}"
proof -
  have i: "category_invar demo_cat_file" by (simp add: demo_eval)
  have n: "py_strip ''A'' \<noteq> etc_category" by (simp add: py_strip_def py_space_def etc_category_def)
  have d: "delete_category ''A'' demo_cat_file =
           (Inr (projr (fst (delete_category ''A'' demo_cat_file))), snd (delete_category ''A'' demo_cat_file))"
    by (simp add: demo_eval)
  have s: "py_strip ''A'' = ''A''" by (simp add: py_strip_def py_space_def)
  show ?thesis using category_delete_refines [OF i n d] s by simp
qed

text \<open>C30 (add_category refines set insertion) On a file satisfying the invariant, a successful
  \<open>add_category\<close> adds exactly the stripped name to the category set, returns the new set, and
  keeps the invariant.\<close>

lemma category_add_refines:
  assumes inv: "category_invar file" and a: "add_category name file = (Inr cats, file')"
  shows "category_set file' = insert (py_strip name) (category_set file) \<and> set cats = category_set file'
         \<and> category_invar file'"
proof -
  let ?L = "load_db_metadata file" and ?n = "py_strip name"
  from invar_categories [OF inv] obtain xs where
    L: "dict_get ?L categories_key = Some (JList xs)" and d: "distinct (concat (map str_of xs))" by blast
  let ?L' = "dict_set ?L categories_key (JList (xs @ [JStr ?n]))"
  from a have ne: "?n \<noteq> []" and fresh: "?n \<notin> set (get_all_categories ?L)"
    by (auto simp: add_category_def Let_def split: if_splits)
  then have "JStr ?n \<notin> set xs" using L by (auto simp: set_get_all_categories listed_of_list str_of_iff)
  then have app: "append_category (JStr ?n) ?L = Inr ?L'"
    using L by (simp add: append_category_def json_contains_def)
  have mem: "dict_mem categories_key ?L'" by (simp add: dict_mem_set)
  have f': "file' = save_db_metadata ?L'" and c0: "cats = get_all_categories (load_db_metadata file')"
    using a ne fresh app by (auto simp: add_category_def Let_def)
  have load': "load_db_metadata file' = ?L'"
    using mem by (simp add: f' load_save normalise_dict_set_categories load_normalised)
  have cats: "cats = get_all_categories ?L'" by (simp add: c0 load')
  have l': "listed_categories ?L' = concat (map str_of xs) @ [?n]"
    using ne by (simp add: listed_categories_def dict_get_set str_of_def)
  have old: "set (listed_categories ?L) = set (concat (map str_of xs))" by (simp add: listed_of_list [OF L])
  have "category_set file' = insert ?n (category_set file)"
    unfolding category_set_def load' set_get_all_categories used_dict_set_categories l' old by auto
  moreover have "?n \<notin> set (concat (map str_of xs))"
    using fresh unfolding set_get_all_categories old by blast
  then have "category_invar file'"
    using d ne by (simp add: category_invar_def load' dict_get_set str_of_def)
  ultimately show ?thesis by (simp add: cats category_set_def load')
qed

theorem category_add_refines_witness:
  "category_set (snd (add_category ''C'' demo_cat_file)) = insert ''C'' (category_set demo_cat_file)"
proof -
  have i: "category_invar demo_cat_file" by (simp add: demo_eval)
  have a: "add_category ''C'' demo_cat_file =
           (Inr (projr (fst (add_category ''C'' demo_cat_file))), snd (add_category ''C'' demo_cat_file))"
    by (simp add: demo_eval)
  have s: "py_strip ''C'' = ''C''" by (simp add: py_strip_def py_space_def)
  show ?thesis using category_add_refines [OF i a] s by simp
qed

lemma replace_first_in: "x \<in> set xs \<Longrightarrow> z \<in> set (replace_first x z xs)"
  by (induction xs) auto

lemma replace_first_remove_first:
  "x \<in> set xs \<Longrightarrow> z \<in> set xs \<Longrightarrow> x \<noteq> z \<Longrightarrow> z \<in> set (remove_first z (replace_first x z xs))"
proof (induction xs)
  case (Cons y ys)
  show ?case
  proof (cases "y = x")
    case True
    with Cons.prems have "z \<in> set ys" by auto
    with True show ?thesis by simp
  next
    case False
    with Cons show ?thesis by (auto simp: replace_first_in)
  qed
qed simp

lemma rename_category_list:
  assumes L: "dict_get (load_db_metadata file) categories_key = Some (JList xs)"
      and s: "py_strip old = o'" "py_strip new = n'" and ne: "o' \<noteq> []" "n' \<noteq> []"
  shows "dict_get (load_db_metadata (snd (rename_category old new file))) categories_key
           = Some (JList (replace_first (JStr o') (JStr n') xs))"
proof -
  let ?R = "recategorise o' (JStr n') (load_db_metadata file)"
  have R: "dict_get ?R categories_key = Some (JList xs)" using L by (rule dict_get_recategorise_list)
  let ?M = "dict_set ?R categories_key (JList (replace_first (JStr o') (JStr n') xs))"
  have "snd (rename_category old new file) = save_db_metadata ?M"
    using R s ne by (simp add: rename_category_def map_category_list_def Let_def)
  moreover have "dict_mem categories_key ?M" by (simp add: dict_mem_set)
  ultimately show ?thesis
    by (simp add: load_save dict_get_map_snd dict_get_set normalise_entry_def)
qed

lemma delete_category_list:
  assumes L: "dict_get (load_db_metadata file) categories_key = Some (JList xs)"
      and s: "py_strip name = n" and ne: "n \<noteq> []"
  shows "dict_get (load_db_metadata (snd (delete_category name file))) categories_key
           = Some (JList (remove_first (JStr n) xs))"
proof -
  let ?R = "recategorise n (JStr etc_category) (load_db_metadata file)"
  have R: "dict_get ?R categories_key = Some (JList xs)" using L by (rule dict_get_recategorise_list)
  let ?M = "dict_set ?R categories_key (JList (remove_first (JStr n) xs))"
  have "snd (delete_category name file) = save_db_metadata ?M"
    using R s ne by (simp add: delete_category_def map_category_list_def Let_def)
  moreover have "dict_mem categories_key ?M" by (simp add: dict_mem_set)
  ultimately show ?thesis
    by (simp add: load_save dict_get_map_snd dict_get_set normalise_entry_def)
qed

lemma listed_in_category_set:
  "dict_get (load_db_metadata file) categories_key = Some (JList xs) \<Longrightarrow> JStr c \<in> set xs \<Longrightarrow> c \<noteq> []
   \<Longrightarrow> c \<in> category_set file"
  by (auto simp: category_set_def set_get_all_categories listed_of_list str_of_iff)

text \<open>C9 (renaming onto a listed category makes a phantom) When the old and the new name are
  both in \<open>_categories\<close>, \<open>rename_category\<close> overwrites the old entry with the new name
  (\<open>list[index] = new\<close> without a membership test), so the new name is listed twice and the
  invariant fails; a following \<open>delete_category\<close> of the new name removes one occurrence only
  (\<open>list.remove\<close>), and the deleted category is still shown.\<close>

theorem rename_to_listed_phantom:
  assumes L: "dict_get (load_db_metadata file) categories_key = Some (JList xs)"
      and o: "JStr old \<in> set xs" and n: "JStr new \<in> set xs" and d: "old \<noteq> new"
      and s: "py_strip old = old" "py_strip new = new" and ne: "old \<noteq> []" "new \<noteq> []"
  shows "\<not> category_invar (snd (rename_category old new file))
         \<and> new \<in> category_set (snd (delete_category new (snd (rename_category old new file))))"
proof -
  let ?ys = "replace_first (JStr old) (JStr new) xs"
  have L': "dict_get (load_db_metadata (snd (rename_category old new file))) categories_key = Some (JList ?ys)"
    using rename_category_list [OF L s ne] .
  have r: "JStr new \<in> set (remove_first (JStr new) ?ys)"
    using replace_first_remove_first [OF o n] d by simp
  have "\<not> distinct (concat (map str_of ?ys))"
  proof
    assume "distinct (concat (map str_of ?ys))"
    from remove_first_str_of_set [OF this, of new] r ne show False by (auto simp: str_of_iff)
  qed
  then have "\<not> category_invar (snd (rename_category old new file))"
    using L' by (simp add: category_invar_def)
  moreover have "new \<in> category_set (snd (delete_category new (snd (rename_category old new file))))"
    using listed_in_category_set [OF delete_category_list [OF L' s(2) ne(2)] r ne(2)] .
  ultimately show ?thesis ..
qed

theorem rename_to_listed_phantom_witness:
  "\<not> category_invar (snd (rename_category ''A'' ''B'' demo_cat_file))
   \<and> ''B'' \<in> category_set (snd (delete_category ''B'' (snd (rename_category ''A'' ''B'' demo_cat_file))))"
proof -
  have L: "dict_get (load_db_metadata demo_cat_file) categories_key = Some (JList [JStr ''A'', JStr ''B''])"
    by (simp add: demo_eval)
  show ?thesis
    by (rule rename_to_listed_phantom [OF L]) (simp_all add: py_strip_def py_space_def)
qed

text \<open>C31 (update_db_category keeps the invariant) \<open>update_db_category\<close> preserves the
  category invariant on every path: the new category is appended to \<open>_categories\<close> only when
  it is not listed.\<close>

lemma update_db_category_invar:
  assumes "category_invar file"
  shows "category_invar (snd (update_db_category db cat now file))"
proof (cases "update_db_category db cat now file")
  case (Pair r file')
  show ?thesis
  proof (cases "r = Upd_added \<or> (\<exists>old. r = Upd_updated old)")
    case False
    then have "file' = file" using Pair
      by (auto simp: update_db_category_def Let_def simp del: str_replace.simps
               split: if_splits option.splits json.splits sum.splits)
    then show ?thesis using Pair assms by simp
  next
    case True
    let ?L = "load_db_metadata file"
    obtain E md' obj where E: "E = JObj obj"
      and a: "add_listed_category cat (dict_set ?L db E) = Inr md'"
      and f': "file' = save_db_metadata md'"
      and db: "dict_get ?L db = None \<or> (\<exists>obj. dict_get ?L db = Some (JObj obj))"
      using update_db_category_written [OF Pair True] by blast
    from invar_categories [OF assms] obtain xs where
      L: "dict_get ?L categories_key = Some (JList xs)" and d: "distinct (concat (map str_of xs))" by blast
    have ne: "db \<noteq> categories_key" using db L by auto
    then have X: "dict_get (dict_set ?L db E) categories_key = Some (JList xs)" using L by (simp add: dict_get_set)
    then have "\<exists>ys. dict_get md' categories_key = Some (JList ys) \<and> distinct (concat (map str_of ys))"
      using add_listed_category_cases [OF a] d distinct_str_of_snoc by (auto simp: dict_get_set)
    moreover have "dict_mem categories_key md'" using X add_listed_category_cases [OF a]
      by (auto simp: dict_mem_iff dict_get_set)
    ultimately show ?thesis using Pair
      by (auto simp: category_invar_def f' load_save dict_get_map_snd normalise_entry_def)
  qed
qed

theorem update_db_category_invar_witness:
  "category_invar (snd (update_db_category ''LANGCHAIN_DB_INDEX_a'' (JStr ''B'') ''t'' demo_cat_file))"
proof -
  have i: "category_invar demo_cat_file" by (simp add: demo_eval)
  show ?thesis using update_db_category_invar [OF i] .
qed

text \<open>When \<open>update_db_category\<close> reports an
  update or an addition, reloading the file gives the corpus an object entry whose category is
  the requested one.\<close>

lemma update_db_category_sets:
  assumes "update_db_category db cat now file = (r, file')"
      and "r = Upd_added \<or> (\<exists>old. r = Upd_updated old)"
  shows "\<exists>obj. dict_get (load_db_metadata file') db = Some (JObj obj) \<and> dict_get obj ''category'' = Some cat"
proof -
  obtain E md' obj where E: "E = JObj obj" "dict_get obj ''category'' = Some cat" and t: "json_truthy cat"
    and a: "add_listed_category cat (dict_set (load_db_metadata file) db E) = Inr md'"
    and f': "file' = save_db_metadata md'"
    using update_db_category_written [OF assms] by blast
  let ?X = "dict_set (load_db_metadata file) db E"
  have "dict_get md' db = Some E"
    using add_listed_category_cases [OF a] E by (auto simp: dict_get_set)
  moreover have "dict_mem categories_key md'"
    using add_listed_category_cases [OF a] load_has_categories [of "file"] by (auto simp: dict_mem_set)
  ultimately have "dict_get (load_db_metadata file') db = Some (normalise_entry db E)"
    by (simp add: f' load_save dict_get_map_snd)
  then show ?thesis using normalise_keeps_category [OF E(2) t, of db] E(1) by auto
qed

theorem update_db_category_sets_witness:
  "\<exists>obj. dict_get (load_db_metadata (snd (update_db_category ''LANGCHAIN_DB_INDEX_a'' (JStr ''B'') ''t'' demo_cat_file)))
          ''LANGCHAIN_DB_INDEX_a'' = Some (JObj obj) \<and> dict_get obj ''category'' = Some (JStr ''B'')"
proof -
  let ?u = "update_db_category ''LANGCHAIN_DB_INDEX_a'' (JStr ''B'') ''t'' demo_cat_file"
  have u: "?u = (Upd_updated (JStr ''A''), snd ?u)"
    by (simp add: demo_eval update_db_category_def add_listed_category_def)
  show ?thesis using update_db_category_sets [OF u] by simp
qed

text \<open>C32 (load_db_metadata repairs every corpus entry) For a metadata file holding an object,
  \<open>load_db_metadata\<close> gives every corpus entry that is an object a display name (the key
  without the \<open>VECTOR_DB_FOLDER\<close> prefix) and a category (\<open>etc_category\<close>) exactly
  when the field is missing or falsy, keeps truthy values and every other field, and adds an
  empty \<open>_categories\<close> list exactly when the key is missing.\<close>

theorem load_db_metadata_repairs:
  assumes e: "dict_get md k = Some (JObj obj)" and k: "k \<noteq> categories_key"
  shows "\<exists>obj'. dict_get (load_db_metadata (Some (JObj md))) k = Some (JObj obj')
          \<and> dict_get obj' ''display_name''
              = (case dict_get obj ''display_name'' of
                   Some x \<Rightarrow> if json_truthy x then Some x else Some (JStr (str_replace vector_db_folder [] k))
                 | None \<Rightarrow> Some (JStr (str_replace vector_db_folder [] k)))
          \<and> dict_get obj' ''category''
              = (case dict_get obj ''category'' of
                   Some x \<Rightarrow> if json_truthy x then Some x else Some (JStr etc_category)
                 | None \<Rightarrow> Some (JStr etc_category))
          \<and> (\<forall>g. g \<noteq> ''display_name'' \<and> g \<noteq> ''category'' \<longrightarrow> dict_get obj' g = dict_get obj g)
          \<and> dict_get (load_db_metadata (Some (JObj md))) categories_key
              = Some (case dict_get md categories_key of Some v \<Rightarrow> v | None \<Rightarrow> JList [])"
proof -
  let ?md1 = "if dict_mem categories_key md then md else dict_set md categories_key (JList [])"
  let ?Y = "fill_field ''display_name'' (JStr (str_replace vector_db_folder [] k)) obj"
  let ?Z = "fill_field ''category'' (JStr etc_category) ?Y"
  have L: "load_db_metadata (Some (JObj md)) = map (\<lambda>(k, v). (k, normalise_entry k v)) ?md1"
    by (simp add: load_db_metadata_def)
  have "dict_get ?md1 k = Some (JObj obj)" using e k by (simp add: dict_get_set)
  then have g: "dict_get (load_db_metadata (Some (JObj md))) k = Some (JObj ?Z)"
    using k by (simp add: L dict_get_map_snd normalise_entry_def del: str_replace.simps)
  have c: "dict_get (load_db_metadata (Some (JObj md))) categories_key
           = Some (case dict_get md categories_key of Some v \<Rightarrow> v | None \<Rightarrow> JList [])"
    by (cases "dict_get md categories_key")
       (simp_all add: L dict_get_map_snd dict_get_set dict_mem_iff normalise_entry_def)
  have "dict_get ?Z ''display_name'' = dict_get ?Y ''display_name''" by (simp add: fill_field_other)
  moreover have "dict_get ?Z gg = dict_get obj gg" if "gg \<noteq> ''display_name''" "gg \<noteq> ''category''" for gg
    using that by (simp add: fill_field_other)
  moreover have "dict_get ?Z ''category''
              = (case dict_get obj ''category'' of
                   Some x \<Rightarrow> if json_truthy x then Some x else Some (JStr etc_category)
                 | None \<Rightarrow> Some (JStr etc_category))"
    by (simp add: fill_field_value fill_field_other del: str_replace.simps)
  ultimately show ?thesis using g c by (simp add: fill_field_value del: str_replace.simps)
qed

theorem load_db_metadata_repairs_witness:
  "\<exists>obj'. dict_get (load_db_metadata (Some (JObj [(''LANGCHAIN_DB_INDEX_a'', JObj [(''category'', JStr [])])]))) ''LANGCHAIN_DB_INDEX_a'' = Some (JObj obj')
     \<and> dict_get obj' ''display_name'' = Some (JStr ''a'')
     \<and> dict_get obj' ''category'' = Some (JStr etc_category)
     \<and> (\<forall>g. g \<noteq> ''display_name'' \<and> g \<noteq> ''category'' \<longrightarrow> dict_get obj' g = None)
     \<and> dict_get (load_db_metadata (Some (JObj [(''LANGCHAIN_DB_INDEX_a'', JObj [(''category'', JStr [])])]))) categories_key
         = Some (JList [])"
proof -
  have e: "dict_get [(''LANGCHAIN_DB_INDEX_a'', JObj [(''category'', JStr [])])] ''LANGCHAIN_DB_INDEX_a''
           = Some (JObj [(''category'', JStr [])])" by (simp add: dict_get_def)
  have k: "''LANGCHAIN_DB_INDEX_a'' \<noteq> categories_key" by (simp add: categories_key_def)
  have r: "str_replace vector_db_folder [] ''LANGCHAIN_DB_INDEX_a'' = ''a''"
    by (simp add: vector_db_folder_def)
  show ?thesis using load_db_metadata_repairs [OF e k] r
    by (simp add: dict_get_def categories_key_def del: str_replace.simps)
qed

text \<open>\<open>get_vector_dbs\<close> returns one item per existing
  vector-store folder, in listing order, and every item has a non-empty category.\<close>

lemma get_vector_dbs_items:
  "get_vector_dbs listing now file = Inr ((items, groups), file') \<Longrightarrow>
   map vi_id items = existing_folders listing \<and> (\<forall>it \<in> set items. json_truthy (vi_category it))"
  by (auto simp: get_vector_dbs_def split: sum.splits prod.splits dest: vdb_loop_items)

theorem get_vector_dbs_items_witness:
  "map vi_id (fst (fst (projr (get_vector_dbs [(''LANGCHAIN_DB_INDEX_a'', True)] ''t'' demo_cat_file))))
   = [''LANGCHAIN_DB_INDEX_a'']"
proof -
  let ?g = "get_vector_dbs [(''LANGCHAIN_DB_INDEX_a'', True)] ''t'' demo_cat_file"
  have g: "?g = Inr ((fst (fst (projr ?g)), snd (fst (projr ?g))), snd (projr ?g))"
    by (simp add: demo_eval get_vector_dbs_def vdb_one_def existing_folders_def vector_db_folder_def json_get_def
        split: sum.splits)
  show ?thesis using get_vector_dbs_items [OF g] by (simp add: existing_folders_def vector_db_folder_def)
qed

end
