(* ===== verification/App.thy ===== *)
theory App
  imports RunGraph Metadata
begin

text \<open>
  The Flask request handlers of \<open>app.py\<close> over the process-wide state they share: the
  cache of \<open>streamlit_wrapper\<close>, the progress registry, the \<open>INITIALIZED\<close> flag and the
  globals \<open>current_graph\<close> (a reference into the graph heap of \<open>Cache\<close>) and
  \<open>current_db_index\<close>. Each request carries its own session (\<open>session['messages']\<close>,
  \<open>['thread_id']\<close>, \<open>['db_index']\<close>; a missing key is \<open>None\<close>). Fresh values of
  \<open>uuid.uuid4()\<close> are arguments. Python strings are UTF-8 byte lists, so the Korean
  literals the handlers return are written as their bytes. \<open>ask\<close> reads the global
  \<open>current_graph\<close> twice, when it selects the graph and again when it runs it, so it is
  split into \<open>ask_select\<close> and \<open>ask_run\<close>; other requests may run in between.
\<close>

section \<open>State\<close>

record app =
  app_cache :: pcache
  app_bus :: bus
  initialized :: bool
  current_graph :: "nat option"
  current_db_index :: "string option"

record session =
  s_messages :: "chat_message list option"
  s_thread_id :: "string option"
  s_db_index :: "string option"

text \<open>The Korean default answer ("could not generate an answer"), as UTF-8 bytes.\<close>

definition default_answer :: string where
  "default_answer = map char_of [0xEB, 0x8B, 0xB5, 0xEB, 0xB3, 0x80, 0xEC, 0x9D, 0x84, 0x20, 0xEC, 0x83, 0x9D,
     0xEC, 0x84, 0xB1, 0xED, 0x95, 0x98, 0xEC, 0xA7, 0x80, 0x20, 0xEB, 0xAA, 0xBB, 0xED, 0x96, 0x88, 0xEC, 0x8A,
     0xB5, 0xEB, 0x8B, 0x88, 0xEB, 0x8B, 0xA4, 0x2E :: nat]"

section \<open>initialize_app\<close>

definition initialize_app :: "services \<Rightarrow> (string \<times> bool) list \<Rightarrow> (string, json) pydict \<Rightarrow> app \<Rightarrow> app" where
  "initialize_app svc listing md st =
     (if initialized st then st
      else st\<lparr>app_cache := init_app svc listing md (app_cache st), initialized := True\<rparr>)"

section \<open>The conversation: add_message, clear_conversation\<close>

definition msg_limit :: nat where
  "msg_limit = 20"

definition add_message :: "string \<Rightarrow> string \<Rightarrow> session \<Rightarrow> session" where
  "add_message r c sess =
     (let msgs = (case s_messages sess of None \<Rightarrow> [] | Some ms \<Rightarrow> ms) @ [\<lparr>role = r, content = c\<rparr>] in
      sess\<lparr>s_messages := Some (if length msgs > msg_limit then py_last msg_limit msgs else msgs)\<rparr>)"

definition clear_conversation :: "string \<Rightarrow> session \<Rightarrow> session" where
  "clear_conversation uuid sess = sess\<lparr>s_messages := Some [], s_thread_id := Some uuid\<rparr>"

definition session_messages :: "session \<Rightarrow> chat_message list" where
  "session_messages sess = (case s_messages sess of None \<Rightarrow> [] | Some ms \<Rightarrow> ms)"

section \<open>index\<close>

record vdb_view =
  v_id :: string
  v_name :: json
  v_category :: json
  v_has_graph :: bool

text \<open>One entry of \<open>vector_dbs\<close>: the display name from the cache, else from the metadata,
  else the directory suffix; the category from the metadata, \<open>etc_category\<close> by default.\<close>

definition index_entry :: "(string, json) pydict \<Rightarrow> string \<Rightarrow> cache_entry \<Rightarrow> error + vdb_view" where
  "index_entry md db e =
     (let dm = (case dict_get md db of Some v \<Rightarrow> v | None \<Rightarrow> JObj []) in
      case json_get dm ''display_name'' JNull of
        Inl err \<Rightarrow> Inl err
      | Inr mdn \<Rightarrow>
          (let dn = (if json_truthy (ce_display_name e) then ce_display_name e else mdn);
               name = (if json_truthy dn then dn else JStr (db_suffix db))
           in case json_get dm ''category'' (JStr etc_category) of
                Inl err \<Rightarrow> Inl err
              | Inr cat \<Rightarrow> Inr \<lparr>v_id = db, v_name = name, v_category = cat, v_has_graph = (ce_graph e \<noteq> None)\<rparr>))"

fun index_entries :: "(string, json) pydict \<Rightarrow> (string, cache_entry) pydict \<Rightarrow> error + vdb_view list" where
  "index_entries md [] = Inr []"
| "index_entries md ((db, e) # es) =
     (case index_entry md db e of
        Inl err \<Rightarrow> Inl err
      | Inr v \<Rightarrow> (case index_entries md es of Inl err \<Rightarrow> Inl err | Inr vs \<Rightarrow> Inr (v # vs)))"

definition index_page :: "string \<Rightarrow> (string, json) pydict \<Rightarrow> app \<Rightarrow> session \<Rightarrow> session \<times> (error + vdb_view list)" where
  "index_page uuid md st sess =
     (let sess1 = (if s_messages sess = None then sess\<lparr>s_messages := Some []\<rparr> else sess);
          sess2 = (if s_thread_id sess1 = None then sess1\<lparr>s_thread_id := Some uuid\<rparr> else sess1)
      in (sess2, index_entries md (db_cache (app_cache st))))"

section \<open>change_db\<close>

datatype change_response = Change_ok json | Change_no_index | Change_error error

definition change_db ::
  "services \<Rightarrow> (string, json) pydict \<Rightarrow> string \<Rightarrow> string \<Rightarrow> app \<Rightarrow> session \<Rightarrow> change_response \<times> app \<times> session" where
  "change_db svc md uuid db st sess =
     (if db = [] then (Change_no_index, st, sess)
      else
        (let (g, c) = (if cached_graph (app_cache st) db \<noteq> None then (cached_graph (app_cache st) db, app_cache st)
                       else create_graph svc db (app_cache st));
             st1 = st\<lparr>app_cache := c, current_graph := g, current_db_index := Some db\<rparr>;
             sess1 = sess\<lparr>s_db_index := Some db, s_messages := Some [], s_thread_id := Some uuid\<rparr>;
             dn = (case dict_get (db_cache c) db of Some e \<Rightarrow> ce_display_name e | None \<Rightarrow> JNull)
         in if json_truthy dn then (Change_ok dn, st1, sess1)
            else (case get_db_display_name md db of
                    Inl err \<Rightarrow> (Change_error err, st1, sess1)
                  | Inr dn' \<Rightarrow> (Change_ok dn', st1, sess1))))"

section \<open>ask\<close>

datatype ask_response = Ask_answer string | Ask_no_db | Ask_error error

text \<open>The first part of \<open>ask\<close>: the session check, the user message, and the choice of
  \<open>current_graph\<close> (kept when it is set and \<open>current_db_index\<close> is the session's corpus,
  otherwise \<open>create_graph\<close>). \<open>Inl\<close> is the early 400 response.\<close>

definition ask_select ::
  "services \<Rightarrow> string \<Rightarrow> app \<Rightarrow> session \<Rightarrow> ask_response + (app \<times> session)" where
  "ask_select svc q st sess =
     (case s_db_index sess of
        None \<Rightarrow> Inl Ask_no_db
      | Some db \<Rightarrow>
          if db = [] then Inl Ask_no_db
          else
            (let sess1 = add_message ''user'' q sess
             in if current_graph st = None \<or> current_db_index st \<noteq> Some db then
                  (case create_graph svc db (app_cache st) of
                     (g, c) \<Rightarrow> Inr (st\<lparr>app_cache := c, current_graph := g, current_db_index := Some db\<rparr>, sess1))
                else Inr (st, sess1)))"

text \<open>The graph object \<open>current_graph\<close> names.\<close>

definition current_graph_obj :: "app \<Rightarrow> compiled_graph option" where
  "current_graph_obj st =
     (case current_graph st of None \<Rightarrow> None | Some ref \<Rightarrow> dict_get (gheap (app_cache st)) ref)"

text \<open>The second part: \<open>run_graph(current_graph, user_input, thread_id)\<close> with the global as
  it is now, the graph's mutated \<open>RetrieveNode\<close> cache written back to the object, then the
  answer (\<open>result.get('generation', ...)\<close>) recorded in the session; an exception gives
  the 500 response.\<close>

definition ask_run ::
  "services \<Rightarrow> services \<Rightarrow> string \<Rightarrow> string \<Rightarrow> app \<Rightarrow> session \<Rightarrow> ask_response \<times> app \<times> session \<times> rg_result" where
  "ask_run svc svc' q tid st sess =
     (let res = run_graph svc svc' (current_graph_obj st) q tid (session_messages sess) (app_bus st);
          heap = (case (current_graph st, rg_graph res) of
                    (Some ref, Some g) \<Rightarrow> dict_set (gheap (app_cache st)) ref g
                  | _ \<Rightarrow> gheap (app_cache st));
          st1 = st\<lparr>app_bus := rg_bus res, app_cache := (app_cache st)\<lparr>gheap := heap\<rparr>\<rparr>
      in case rg_outcome res of
           Inl e \<Rightarrow> (Ask_error e, st1, sess, res)
         | Inr s \<Rightarrow>
             (let a = (case generation s of Some g \<Rightarrow> g | None \<Rightarrow> default_answer)
              in (Ask_answer a, st1, add_message ''assistant'' a sess, res)))"

definition ask ::
  "services \<Rightarrow> services \<Rightarrow> string \<Rightarrow> string \<Rightarrow> app \<Rightarrow> session \<Rightarrow> ask_response \<times> app \<times> session" where
  "ask svc svc' q tid st sess =
     (case ask_select svc q st sess of
        Inl r \<Rightarrow> (r, st, sess)
      | Inr (st1, sess1) \<Rightarrow> (case ask_run svc svc' q tid st1 sess1 of (r, st2, sess2, _) \<Rightarrow> (r, st2, sess2)))"

section \<open>Interleaved requests\<close>

text \<open>Session A asks on its corpus; between A's graph selection and A's run, session B
  switches to another corpus with \<open>change_db\<close>. The result is A's run record.\<close>

definition ask_change_race ::
  "services \<Rightarrow> services \<Rightarrow> (string, json) pydict \<Rightarrow> string \<Rightarrow> string \<Rightarrow> string \<Rightarrow> string
   \<Rightarrow> app \<Rightarrow> session \<Rightarrow> session \<Rightarrow> ask_response + rg_result" where
  "ask_change_race svc svc' md q tid uuid dbB st sessA sessB =
     (case ask_select svc q st sessA of
        Inl r \<Rightarrow> Inl r
      | Inr (st1, sessA1) \<Rightarrow>
          (case change_db svc md uuid dbB st1 sessB of
             (_, st2, _) \<Rightarrow> (case ask_run svc svc' q tid st2 sessA1 of (_, _, _, res) \<Rightarrow> Inr res)))"

text \<open>The globals are consistent when \<open>current_graph\<close>, if set, names a graph over the corpus
  \<open>current_db_index\<close> names.\<close>

definition app_sound :: "app \<Rightarrow> bool" where
  "app_sound st =
     (cache_sound (app_cache st) \<and>
      (case current_graph st of
         None \<Rightarrow> True
       | Some ref \<Rightarrow>
           (case (current_db_index st, dict_get (gheap (app_cache st)) ref) of
              (Some db, Some g) \<Rightarrow> r_db_index (g_retriever g) = db
            | _ \<Rightarrow> False)))"

definition demo_app :: app where
  "demo_app =
     \<lparr>app_cache =
        \<lparr>db_cache = [(''LANGCHAIN_DB_INDEX_demo'', \<lparr>ce_retriever = demo_retriever, ce_display_name = JStr ''demo'', ce_graph = Some 0\<rparr>),
                     (''LANGCHAIN_DB_INDEX_docs'', \<lparr>ce_retriever = demo_retriever\<lparr>r_db_index := ''LANGCHAIN_DB_INDEX_docs''\<rparr>,
                                                     ce_display_name = JStr ''docs'', ce_graph = Some 1\<rparr>)],
         graphs_loaded = True,
         gheap = [(0, demo_graph), (1, demo_graph\<lparr>g_retriever := demo_retriever\<lparr>r_db_index := ''LANGCHAIN_DB_INDEX_docs''\<rparr>\<rparr>)],
         next_gref = 2, build_log = []\<rparr>,
      app_bus = empty_bus, initialized = True,
      current_graph = Some 0, current_db_index = Some ''LANGCHAIN_DB_INDEX_demo''\<rparr>"


definition demo_session :: "string \<Rightarrow> session" where
  "demo_session db = \<lparr>s_messages = Some [], s_thread_id = Some ''t1'', s_db_index = Some db\<rparr>"


definition demo_turns :: "(string \<times> string) list" where
  "demo_turns = map (\<lambda>i. (if even i then ''user'' else ''assistant'', py_str_nat i)) [0..<21]"


section \<open>Lemmas\<close>

lemma add_message_msgs:
  "session_messages (add_message r c sess) = py_last msg_limit (session_messages sess @ [\<lparr>role = r, content = c\<rparr>])"
  by (simp add: add_message_def session_messages_def Let_def msg_limit_def)


lemma current_graph_obj_sound:
  "app_sound st \<Longrightarrow> current_graph_obj st = Some g \<Longrightarrow> current_db_index st = Some db \<Longrightarrow> r_db_index (g_retriever g) = db"
  by (auto simp: app_sound_def current_graph_obj_def split: option.splits)


lemma ask_select_sound:
  assumes "app_sound st" and "ask_select svc q st sess = Inr (st1, sess1)" and "s_db_index sess = Some db"
  shows "app_sound st1 \<and> (current_graph st1 \<noteq> None \<longrightarrow> current_db_index st1 = Some db)"
proof (cases "current_graph st = None \<or> current_db_index st \<noteq> Some db")
  case True
  obtain g c where cg: "create_graph svc db (app_cache st) = (g, c)" by fastforce
  have st1: "st1 = st\<lparr>app_cache := c, current_graph := g, current_db_index := Some db\<rparr>"
    using assms(2,3) True cg by (auto simp: ask_select_def Let_def split: if_splits)
  have "cache_sound (app_cache st)" using assms(1) by (simp add: app_sound_def)
  from create_graph_current [OF this cg] show ?thesis
    by (auto simp: st1 app_sound_def split: option.splits)
next
  case False
  then have "st1 = st" using assms(2,3) by (auto simp: ask_select_def Let_def split: if_splits)
  with False assms(1) show ?thesis by simp
qed


lemma ask_select_cached:
  assumes "graphs_loaded (app_cache st)" and "s_db_index sess = Some db" and "db \<noteq> []"
    and "cached_graph (app_cache st) db \<noteq> None"
  shows "\<exists>st1. ask_select svc q st sess = Inr (st1, add_message ''user'' q sess) \<and> app_cache st1 = app_cache st"
  using assms by (auto simp: ask_select_def Let_def create_graph_loaded_cached)


lemma change_db_cached:
  "db \<noteq> [] \<Longrightarrow> cached_graph (app_cache st) db = Some ref \<Longrightarrow>
   \<exists>resp sess'. change_db svc md uuid db st sess =
     (resp, st\<lparr>current_graph := Some ref, current_db_index := Some db\<rparr>, sess')"
  by (auto simp: change_db_def Let_def split: sum.split)


lemma cache_sound_replace_graph:
  assumes "cache_sound c" and "dict_get (gheap c) ref = Some g" and "g_retriever g' = g_retriever g"
  shows "cache_sound (c\<lparr>gheap := dict_set (gheap c) ref g'\<rparr>)"
proof -
  let ?c' = "c\<lparr>gheap := dict_set (gheap c) ref g'\<rparr>"
  have e: "entry_sound ?c' db e" if "entry_sound c db e" for db e
    using that assms(2,3) by (auto simp: entry_sound_def dict_get_set split: option.splits)
  show ?thesis
    using assms e by (auto simp: cache_sound_iff dict_get_set dict_wf_set split: if_splits)
qed


lemma ask_run_sound:
  assumes "app_sound st" and "ask_run svc svc' q tid st sess = (r, st', sess', res)"
  shows "app_sound st'"
proof -
  let ?res = "run_graph svc svc' (current_graph_obj st) q tid (session_messages sess) (app_bus st)"
  have st': "current_graph st' = current_graph st \<and> current_db_index st' = current_db_index st
      \<and> app_cache st' = (app_cache st)\<lparr>gheap := (case (current_graph st, rg_graph ?res) of
                    (Some ref, Some g) \<Rightarrow> dict_set (gheap (app_cache st)) ref g | _ \<Rightarrow> gheap (app_cache st))\<rparr>"
    using assms(2) by (auto simp: ask_run_def Let_def split: sum.splits)
  show ?thesis
  proof (cases "current_graph st")
    case None
    then show ?thesis using assms(1) st' by (simp add: app_sound_def)
  next
    case (Some ref)
    show ?thesis
    proof (cases "rg_graph ?res")
      case None
      with Some show ?thesis using assms(1) st' by (simp add: app_sound_def)
    next
      case (Some g')
      obtain g where g: "dict_get (gheap (app_cache st)) ref = Some g" and d: "current_db_index st \<noteq> None"
        using assms(1) \<open>current_graph st = Some ref\<close> by (auto simp: app_sound_def split: option.splits)
      have obj: "current_graph_obj st = Some g" using g \<open>current_graph st = Some ref\<close> by (simp add: current_graph_obj_def)
      have rt: "g_retriever g' = g_retriever g" using Some obj by (auto intro: run_graph_retriever)
      have "cache_sound (app_cache st')"
        using st' Some \<open>current_graph st = Some ref\<close> cache_sound_replace_graph [OF _ g rt] assms(1)
        by (simp add: app_sound_def)
      then show ?thesis
        using st' Some \<open>current_graph st = Some ref\<close> assms(1) g rt d
        by (auto simp: app_sound_def dict_get_set split: option.splits)
    qed
  qed
qed


lemma change_db_sound:
  assumes "app_sound st" and "change_db svc md uuid db st sess = (resp, st', sess')"
  shows "app_sound st'"
proof (cases "db = []")
  case True
  then show ?thesis using assms by (simp add: change_db_def)
next
  case False
  have cs: "cache_sound (app_cache st)" using assms(1) by (simp add: app_sound_def)
  obtain g c where gc: "(if cached_graph (app_cache st) db \<noteq> None then (cached_graph (app_cache st) db, app_cache st)
                       else create_graph svc db (app_cache st)) = (g, c)" by fastforce
  have st': "st' = st\<lparr>app_cache := c, current_graph := g, current_db_index := Some db\<rparr>"
    using assms(2) False gc by (auto simp: change_db_def Let_def split: if_splits sum.splits)
  have "cache_sound c \<and> (\<forall>ref. g = Some ref \<longrightarrow> (\<exists>gr. dict_get (gheap c) ref = Some gr \<and> r_db_index (g_retriever gr) = db))"
  proof (cases "cached_graph (app_cache st) db \<noteq> None")
    case True
    then show ?thesis using gc cs cached_graph_sound by (auto split: if_splits)
  next
    case False
    then show ?thesis using gc cs create_graph_current by simp
  qed
  then show ?thesis by (auto simp: st' app_sound_def split: option.splits)
qed


lemma demo_app_sound: "app_sound demo_app"
  by (simp add: app_sound_def demo_app_def cache_sound_def entry_sound_def demo_defs dict_wf_def dict_keys_def dict_get_def)


section \<open>Properties\<close>

text \<open>C27 (functional) \<open>add_message\<close> keeps the conversation a FIFO buffer of at most 20
  messages: after any sequence of turns the session holds exactly the last 20 messages
  of the history, oldest first.\<close>

theorem add_messages_fifo:
  "length (session_messages sess) \<le> msg_limit \<Longrightarrow>
   session_messages (fold (\<lambda>(r, c). add_message r c) turns sess) =
   py_last msg_limit (session_messages sess @ map (\<lambda>(r, c). \<lparr>role = r, content = c\<rparr>) turns)"
proof (induction turns arbitrary: sess)
  case Nil
  then show ?case by simp
next
  case (Cons t turns)
  obtain r c where t: "t = (r, c)" by fastforce
  have "length (session_messages (add_message r c sess)) \<le> msg_limit"
    by (simp add: add_message_msgs)
  then show ?case
    using Cons.IH [of "add_message r c sess"] by (simp add: t add_message_msgs py_last_append_last)
qed


theorem add_messages_fifo_witness:
  "session_messages (fold (\<lambda>(r, c). add_message r c) demo_turns (demo_session ''LANGCHAIN_DB_INDEX_demo'')) =
   py_last msg_limit (session_messages (demo_session ''LANGCHAIN_DB_INDEX_demo'') @ map (\<lambda>(r, c). \<lparr>role = r, content = c\<rparr>) demo_turns)"
  by (rule add_messages_fifo) (simp add: demo_session_def session_messages_def msg_limit_def)


text \<open>C20 (safety) A request served alone runs a graph over its own corpus: after
  \<open>ask_select\<close> on globals that are consistent, the graph \<open>ask_run\<close> executes is over
  the corpus of the session's \<open>db_index\<close>.\<close>

theorem ask_runs_session_corpus:
  assumes "app_sound st" and "s_db_index sess = Some db" and "ask_select svc q st sess = Inr (st1, sess1)"
    and "ask_run svc svc' q tid st1 sess1 = (r, st2, sess2, res)" and "rg_graph res = Some g"
  shows "r_db_index (g_retriever g) = db"
proof -
  have s1: "app_sound st1" and cur: "current_graph st1 \<noteq> None \<longrightarrow> current_db_index st1 = Some db"
    using ask_select_sound [OF assms(1,3,2)] by simp_all
  have res: "res = run_graph svc svc' (current_graph_obj st1) q tid (session_messages sess1) (app_bus st1)"
    using assms(4) by (auto simp: ask_run_def Let_def split: sum.splits)
  obtain g0 where g0: "current_graph_obj st1 = Some g0"
    using assms(5) res run_graph_None by (cases "current_graph_obj st1") auto
  then have "current_db_index st1 = Some db" using cur by (auto simp: current_graph_obj_def)
  then have "r_db_index (g_retriever g0) = db" using current_graph_obj_sound [OF s1 g0] by simp
  moreover have "g_retriever g = g_retriever g0" using assms(5) res g0 by (auto intro: run_graph_retriever)
  ultimately show ?thesis by simp
qed


theorem ask_runs_session_corpus_witness:
  "r_db_index (g_retriever (the (rg_graph (snd (snd (snd (ask_run demo_services demo_services ''What is RAG?'' ''t1''
      demo_app (add_message ''user'' ''What is RAG?'' (demo_session ''LANGCHAIN_DB_INDEX_demo''))))))))) = ''LANGCHAIN_DB_INDEX_demo''"
proof -
  let ?s = "demo_session ''LANGCHAIN_DB_INDEX_demo''"
  let ?s1 = "add_message ''user'' ''What is RAG?'' ?s"
  have sel: "ask_select demo_services ''What is RAG?'' demo_app ?s = Inr (demo_app, ?s1)"
    by (simp add: ask_select_def demo_app_def demo_session_def)
  obtain r st2 sess2 res where run: "ask_run demo_services demo_services ''What is RAG?'' ''t1'' demo_app ?s1 = (r, st2, sess2, res)"
    by (metis prod_cases4)
  have obj: "current_graph_obj demo_app = Some demo_graph"
    by (simp add: current_graph_obj_def demo_app_def dict_get_def)
  have "res = run_graph demo_services demo_services (Some demo_graph) ''What is RAG?'' ''t1'' (session_messages ?s1) (app_bus demo_app)"
    using run obj by (auto simp: ask_run_def Let_def split: sum.splits)
  then obtain g where g: "rg_graph res = Some g" using run_graph_Some by blast
  have "r_db_index (g_retriever g) = ''LANGCHAIN_DB_INDEX_demo''"
    by (rule ask_runs_session_corpus [OF demo_app_sound _ sel run g]) (simp add: demo_session_def)
  then show ?thesis using run g by simp
qed


text \<open>C3 (safety) Cross-talk between sessions: when session B's \<open>change_db\<close> runs between
  the graph selection and the run of session A's \<open>ask\<close>, A's question runs on B's
  corpus, because \<open>run_graph\<close> reads the global \<open>current_graph\<close> again.\<close>

theorem ask_change_cross_talk:
  assumes "app_sound st" and "graphs_loaded (app_cache st)"
    and "s_db_index sessA = Some dbA" and "dbA \<noteq> []" and "cached_graph (app_cache st) dbA \<noteq> None"
    and "dbB \<noteq> []" and "cached_graph (app_cache st) dbB = Some rb"
  shows "\<exists>res g. ask_change_race svc svc' md q tid uuid dbB st sessA sessB = Inr res
    \<and> rg_graph res = Some g \<and> r_db_index (g_retriever g) = dbB"
proof -
  obtain st1 where s1: "ask_select svc q st sessA = Inr (st1, add_message ''user'' q sessA)"
    and c1: "app_cache st1 = app_cache st"
    using ask_select_cached [OF assms(2,3,4,5)] by blast
  obtain resp sessB' where s2: "change_db svc md uuid dbB st1 sessB =
      (resp, st1\<lparr>current_graph := Some rb, current_db_index := Some dbB\<rparr>, sessB')"
    using change_db_cached [of dbB st1 rb svc md uuid sessB] assms(6,7) c1 by auto
  let ?st2 = "st1\<lparr>current_graph := Some rb, current_db_index := Some dbB\<rparr>"
  obtain gB where gB: "dict_get (gheap (app_cache st)) rb = Some gB" "r_db_index (g_retriever gB) = dbB"
    using cached_graph_sound assms(1,7) by (fastforce simp: app_sound_def)
  have obj: "current_graph_obj ?st2 = Some gB" using gB c1 by (simp add: current_graph_obj_def)
  obtain r st3 sess3 res where run: "ask_run svc svc' q tid ?st2 (add_message ''user'' q sessA) = (r, st3, sess3, res)"
    by (metis prod_cases4)
  have res: "res = run_graph svc svc' (Some gB) q tid (session_messages (add_message ''user'' q sessA)) (app_bus ?st2)"
    using run obj by (auto simp: ask_run_def Let_def split: sum.splits)
  obtain g where g: "rg_graph res = Some g" using run_graph_Some res by blast
  have "g_retriever g = g_retriever gB" using g res by (auto intro: run_graph_retriever)
  moreover have "ask_change_race svc svc' md q tid uuid dbB st sessA sessB = Inr res"
    using s1 s2 run by (simp add: ask_change_race_def)
  ultimately show ?thesis using g gB by auto
qed


theorem ask_change_cross_talk_witness:
  "\<exists>res g. ask_change_race demo_services demo_services [] ''What is RAG?'' ''t1'' ''u2'' ''LANGCHAIN_DB_INDEX_docs''
       demo_app (demo_session ''LANGCHAIN_DB_INDEX_demo'') (demo_session ''LANGCHAIN_DB_INDEX_docs'') = Inr res
     \<and> rg_graph res = Some g \<and> r_db_index (g_retriever g) = ''LANGCHAIN_DB_INDEX_docs''"
  by (rule ask_change_cross_talk [OF demo_app_sound, where dbA = "''LANGCHAIN_DB_INDEX_demo''"])
     (simp_all add: demo_app_def demo_session_def cached_graph_def dict_get_def)


text \<open>C29 (invariant) \<open>ask\<close> and \<open>change_db\<close> keep the globals consistent: the cache
  stays sound and \<open>current_graph\<close>, when set, names a graph over
  \<open>current_db_index\<close>.\<close>

theorem handlers_keep_app_sound:
  assumes "app_sound st"
  shows "app_sound (fst (snd (ask svc svc' q tid st sess))) \<and> app_sound (fst (snd (change_db svc md uuid db st sess)))"
proof
  show "app_sound (fst (snd (ask svc svc' q tid st sess)))"
  proof (cases "ask_select svc q st sess")
    case (Inl r)
    then show ?thesis using assms by (simp add: ask_def)
  next
    case (Inr p)
    obtain st1 sess1 where p: "p = (st1, sess1)" by fastforce
    have s1: "app_sound st1"
    proof (cases "s_db_index sess")
      case None
      then show ?thesis using Inr by (simp add: ask_select_def)
    next
      case (Some db)
      then show ?thesis using ask_select_sound [OF assms] Inr p by blast
    qed
    obtain r st2 sess2 res where run: "ask_run svc svc' q tid st1 sess1 = (r, st2, sess2, res)"
      by (metis prod_cases4)
    then show ?thesis using Inr p ask_run_sound [OF s1 run] by (simp add: ask_def)
  qed
next
  show "app_sound (fst (snd (change_db svc md uuid db st sess)))"
    using change_db_sound [OF assms] by (metis prod.collapse)
qed


theorem handlers_keep_app_sound_witness:
  "app_sound (fst (snd (ask demo_services demo_services ''What is RAG?'' ''t1'' demo_app (demo_session ''LANGCHAIN_DB_INDEX_demo''))))
   \<and> app_sound (fst (snd (change_db demo_services [] ''u2'' ''LANGCHAIN_DB_INDEX_docs'' demo_app (demo_session ''LANGCHAIN_DB_INDEX_demo''))))"
  by (rule handlers_keep_app_sound [OF demo_app_sound])

end
