(* ===== verification/DocStore.thy ===== *)
theory DocStore
  imports Metadata
begin

text \<open>
  The saved vector stores of \<open>document_manager.py\<close>: a LangChain \<open>FAISS\<close> object is a
  FAISS index holding \<open>ntotal\<close> vectors at positions \<open>0..ntotal-1\<close>, the map
  \<open>index_to_docstore_id\<close> from positions to document ids, and an \<open>InMemoryDocstore\<close>
  whose \<open>_dict\<close> maps ids to documents. \<open>FAISS.from_documents\<close>, \<open>add_documents\<close> and the
  lookup of a search's positions are library code, modelled here from LangChain's
  \<open>FAISS.__from\<close>, \<open>FAISS.__add\<close> and \<open>similarity_search_with_score_by_vector\<close>; the
  vectors themselves and the nearest-neighbour search are the external embedding service,
  so a search is given by the positions the index returns (\<open>-1\<close> for a missing neighbour).
  The routes of \<open>document_manager.py\<close> that edit a store (\<open>get_db_documents\<close>,
  \<open>remove_document_from_db\<close>, \<open>remove_documents_by_source\<close>,
  \<open>update_document_custom_name\<close>) act on \<open>_dict\<close> and \<open>index_to_docstore_id\<close> directly.
\<close>

section \<open>Documents and stores\<close>

text \<open>A stored LangChain \<open>Document\<close>: its text and its metadata dictionary.\<close>

record sdoc =
  sd_content :: string
  sd_meta :: "(string, json) pydict"

record vstore =
  vs_ntotal :: nat
  vs_index :: "(nat, string) pydict"
  vs_docs :: "(string, sdoc) pydict"

text \<open>\<open>FAISS.from_documents\<close> with the fresh ids \<open>uuid4()\<close> of the documents:
  \<open>index_to_docstore_id = dict(enumerate(ids))\<close>, the docstore \<open>dict(zip(ids, documents))\<close>
  (a later duplicate key overwrites the earlier value).\<close>

definition vs_from_documents :: "string list \<Rightarrow> sdoc list \<Rightarrow> vstore" where
  "vs_from_documents ids docs =
     \<lparr>vs_ntotal = length docs, vs_index = dict_update [] (zip [0..<length ids] ids),
      vs_docs = dict_update [] (zip ids docs)\<rparr>"

text \<open>\<open>FAISS.add_documents\<close> (\<open>__add\<close>): duplicate ids raise before anything is added; the
  vectors are added to the index, then \<open>docstore.add\<close> raises on an id it already holds;
  the new positions in \<open>index_to_docstore_id\<close> start at \<open>len(index_to_docstore_id)\<close>, not
  at the index's \<open>ntotal\<close>.\<close>

definition vs_add :: "string list \<Rightarrow> sdoc list \<Rightarrow> vstore \<Rightarrow> error + vstore" where
  "vs_add ids docs s =
     (if \<not> distinct ids then Inl (Value_error ''Duplicate ids'')
      else if \<exists>i \<in> set ids. dict_mem i (vs_docs s) then Inl (Value_error ''Tried to add ids that already exist'')
      else (let start = length (vs_index s)
            in Inr \<lparr>vs_ntotal = vs_ntotal s + length docs,
                    vs_index = dict_update (vs_index s) (zip [start..<start + length ids] ids),
                    vs_docs = dict_update (vs_docs s) (zip ids docs)\<rparr>))"

text \<open>The documents of a search's result positions, in order
  (\<open>similarity_search_with_score_by_vector\<close>): \<open>-1\<close> is skipped, an unmapped position
  raises \<open>KeyError\<close>, an id missing from the docstore raises \<open>ValueError\<close>.\<close>

fun vs_lookup :: "vstore \<Rightarrow> int list \<Rightarrow> error + sdoc list" where
  "vs_lookup s [] = Inr []"
| "vs_lookup s (i # is) =
     (if i = -1 then vs_lookup s is
      else case dict_get (vs_index s) (nat i) of
             None \<Rightarrow> Inl (Key_error (py_str_int i))
           | Some did \<Rightarrow>
               (case dict_get (vs_docs s) did of
                  None \<Rightarrow> Inl (Value_error ''Could not find document for id'')
                | Some d \<Rightarrow> (case vs_lookup s is of Inl e \<Rightarrow> Inl e | Inr ds \<Rightarrow> Inr (d # ds))))"

text \<open>The positions an index search may return: \<open>-1\<close> or a position of a stored vector.\<close>

definition search_positions :: "vstore \<Rightarrow> int list \<Rightarrow> bool" where
  "search_positions s is = (\<forall>i \<in> set is. i = -1 \<or> (0 \<le> i \<and> nat i < vs_ntotal s))"

text \<open>The store invariant: the docstore is a dictionary, the positions mapped are exactly
  \<open>0..ntotal-1\<close> in order, no id is mapped twice, and the mapped ids are the docstore's ids.\<close>

definition vs_wf :: "vstore \<Rightarrow> bool" where
  "vs_wf s = (dict_wf (vs_docs s) \<and> map fst (vs_index s) = [0..<vs_ntotal s]
              \<and> distinct (map snd (vs_index s)) \<and> set (map snd (vs_index s)) = set (dict_keys (vs_docs s)))"

section \<open>The document-manager state and responses\<close>

text \<open>The files the routes read and write: \<open>db_metadata.json\<close> (as in \<open>Metadata\<close>), the
  vector-store directories with the store saved in each (\<open>save_local\<close>/\<open>load_local\<close>), and
  the other files by their path as the code joins it (\<open>os.path.join\<close>, not normalised), with
  their contents. A directory holds a store exactly when it is a key of \<open>dm_stores\<close>.\<close>

record dm_state =
  dm_meta :: "json option"
  dm_stores :: "(string, vstore) pydict"
  dm_files :: "(string, string) pydict"

text \<open>A route's JSON response: the data fields of a success, or the HTTP status of an
  error (the human-readable messages are not modelled).\<close>

datatype dm_resp = Resp_ok json | Resp_err nat

definition unknown_label :: string where
  "unknown_label = map char_of [0xEC, 0x95, 0x8C, 0x20, 0xEC, 0x88, 0x98, 0x20, 0xEC, 0x97, 0x86, 0xEC, 0x9D, 0x8C :: nat]"

text \<open>\<open>os.path.basename\<close>: the part after the last \<open>/\<close>.\<close>

definition py_basename :: "string \<Rightarrow> string" where
  "py_basename s = rev (takeWhile (\<lambda>c. c \<noteq> CHR ''/'') (rev s))"

definition meta_get :: "(string, json) pydict \<Rightarrow> string \<Rightarrow> json \<Rightarrow> json" where
  "meta_get m k dflt = (case dict_get m k of Some v \<Rightarrow> v | None \<Rightarrow> dflt)"

section \<open>File names and loaders\<close>

text \<open>\<open>str.lower()\<close> on ASCII letters. The only non-ASCII characters whose lowercase
  contains an ASCII letter are the Kelvin sign (to \<open>k\<close>) and the dotted capital I (to \<open>i\<close>
  followed by a combining dot); neither makes a name match an extension below, so the
  tests on extensions are exact.\<close>

definition ascii_lower :: "string \<Rightarrow> string" where
  "ascii_lower s = map (\<lambda>c. if CHR ''A'' \<le> c \<and> c \<le> CHR ''Z'' then char_of (of_char c + (32 :: nat)) else c) s"

definition upload_folder :: string where
  "upload_folder = ''data''"

text \<open>\<open>os.path.join(a, b)\<close> for two components: an absolute \<open>b\<close> replaces \<open>a\<close>.\<close>

definition path_join :: "string \<Rightarrow> string \<Rightarrow> string" where
  "path_join a b =
     (if take 1 b = ''/'' then b else if a = [] \<or> last a = CHR ''/'' then a @ b else a @ ''/'' @ b)"

text \<open>\<open>os.path.splitext(p)[1]\<close>: from the last dot of the last path component, unless
  everything before that dot in the component is dots.\<close>

definition py_splitext_ext :: "string \<Rightarrow> string" where
  "py_splitext_ext p =
     (let base = py_basename p;
          stem = rev (dropWhile (\<lambda>c. c \<noteq> CHR ''.'') (rev base))
      in if stem = [] then []
         else (let before = butlast stem
               in if list_all (\<lambda>c. c = CHR ''.'') before then [] else drop (length before) base))"

datatype loader =
    PDFPlumber | LlamaParse | TextL | CSVL | Docx2txt | ExcelL | PowerPointL | HtmlL | ImageL | WordL

text \<open>\<open>get_loader_for_file\<close>: the loader by extension; any other extension raises.\<close>

definition get_loader_for_file :: "string \<Rightarrow> json \<Rightarrow> error + loader" where
  "get_loader_for_file path pdf_type =
     (let ext = ascii_lower (py_splitext_ext path)
      in if ext = ''.pdf'' then Inr (if pdf_type = JStr ''llamaparse'' then LlamaParse else PDFPlumber)
         else if ext = ''.txt'' then Inr TextL
         else if ext = ''.csv'' then Inr CSVL
         else if ext \<in> {''.doc'', ''.docx''} then Inr Docx2txt
         else if ext \<in> {''.xls'', ''.xlsx''} then Inr ExcelL
         else if ext \<in> {''.ppt'', ''.pptx''} then Inr PowerPointL
         else if ext \<in> {''.html'', ''.htm''} then Inr HtmlL
         else if ext \<in> {''.jpg'', ''.jpeg'', ''.png'', ''.gif'', ''.bmp''} then Inr ImageL
         else if ext = ''.hwp'' then Inr WordL
         else Inl (Value_error ''unsupported file type''))"

definition allowed_extensions :: "string list" where
  "allowed_extensions = [''pdf'', ''txt'', ''csv'', ''doc'', ''docx'', ''hwp'', ''xlsx'', ''xls'', ''ppt'', ''pptx'',
                         ''html'', ''htm'', ''jpg'', ''jpeg'', ''png'', ''gif'', ''bmp'']"

text \<open>\<open>allowed_file\<close>: \<open>'.' in filename and filename.rsplit('.', 1)[1].lower() in
  ALLOWED_EXTENSIONS\<close>.\<close>

definition allowed_file :: "string \<Rightarrow> bool" where
  "allowed_file f =
     (CHR ''.'' \<in> set f \<and> ascii_lower (rev (takeWhile (\<lambda>c. c \<noteq> CHR ''.'') (rev f))) \<in> set allowed_extensions)"

text \<open>The external services of the document routes: a loader's \<open>load()\<close> on a file
  (path and content), the text splitter with the chunk settings as read from the metadata,
  the embedding of the chunks when a store is built or extended, and which paths are
  directories of the file system.\<close>

record dm_services =
  load_docs :: "loader \<Rightarrow> string \<Rightarrow> string \<Rightarrow> error + sdoc list"
  split_docs :: "json \<Rightarrow> json \<Rightarrow> sdoc list \<Rightarrow> error + sdoc list"
  embed_docs :: "sdoc list \<Rightarrow> error option"
  is_dir :: "string \<Rightarrow> bool"

section \<open>get_db_documents\<close>

text \<open>\<open>doc.page_content[:50] + '...' if len(doc.page_content) > 50 else doc.page_content\<close>.\<close>

definition content_preview :: "string \<Rightarrow> string" where
  "content_preview c = (if cp_len c > 50 then cp_take 50 c @ ''...'' else c)"

text \<open>The entry of one document; \<open>basename\<close> of a source that is not a string raises.\<close>

definition doc_entry :: "string \<times> sdoc \<Rightarrow> error + json" where
  "doc_entry p =
     (case p of (did, d) \<Rightarrow>
       (let source = meta_get (sd_meta d) ''source'' (JStr unknown_label)
        in case (if json_truthy source
                 then (case source of JStr src \<Rightarrow> Inr (py_basename src) | _ \<Rightarrow> Inl (Type_error ''basename''))
                 else Inr unknown_label) of
             Inl e \<Rightarrow> Inl e
           | Inr filename \<Rightarrow>
               (let original = url_unquote filename
                in Inr (JObj [(''id'', JStr did), (''source'', source), (''filename'', JStr filename),
                              (''original_filename'', JStr original),
                              (''custom_name'', meta_get (sd_meta d) ''custom_name'' (JStr original)),
                              (''content'', JStr (content_preview (sd_content d))),
                              (''metadata'', JObj (filter (\<lambda>(k, v). k \<noteq> ''source'' \<and> json_truthy v) (sd_meta d)))]))))"

definition get_db_documents :: "string \<Rightarrow> dm_state \<Rightarrow> dm_resp" where
  "get_db_documents db_id st =
     (if db_id = [] then Resp_err 400
      else case dict_get (dm_stores st) db_id of
             None \<Rightarrow> Resp_err 404
           | Some s \<Rightarrow>
               (case map_err doc_entry (vs_docs s) of
                  Inl e \<Rightarrow> Resp_err 500
                | Inr es \<Rightarrow> Resp_ok (JObj [(''documents'', JList es), (''count'', JNum (int (length es)))])))"

section \<open>Removing documents\<close>

text \<open>\<open>del docstore._dict[doc_id]\<close> and the removal of every position mapped to it.\<close>

definition vs_remove_ids :: "string list \<Rightarrow> vstore \<Rightarrow> vstore" where
  "vs_remove_ids ids s =
     s\<lparr>vs_docs := filter (\<lambda>(i, d). i \<notin> set ids) (vs_docs s),
       vs_index := filter (\<lambda>(p, i). i \<notin> set ids) (vs_index s)\<rparr>"

text \<open>The metadata update after a removal: \<open>last_updated\<close>, and \<open>document_count\<close> decreased
  (not below 0) when present; a non-object entry or a non-numeric count raises
  (\<open>True\<close> counts as 1).\<close>

definition py_int_of :: "json \<Rightarrow> error + int" where
  "py_int_of v = (case v of JNum n \<Rightarrow> Inr n | JBool b \<Rightarrow> Inr (if b then 1 else 0) | _ \<Rightarrow> Inl (Type_error ''-''))"

definition touch_entry :: "string \<Rightarrow> bool \<Rightarrow> string \<Rightarrow> (string, json) pydict \<Rightarrow> error + (string, json) pydict" where
  "touch_entry now count db md =
     (case dict_get md db of
        None \<Rightarrow> Inr md
      | Some (JObj obj) \<Rightarrow>
          (let obj1 = dict_set obj ''last_updated'' (JStr now)
           in if count \<and> dict_mem ''document_count'' obj1
              then (case py_int_of (meta_get obj1 ''document_count'' (JNum 1)) of
                      Inl e \<Rightarrow> Inl e
                    | Inr n \<Rightarrow> Inr (dict_set md db (JObj (dict_set obj1 ''document_count'' (JNum (max 0 (n - 1)))))))
              else Inr (dict_set md db (JObj obj1)))
      | Some _ \<Rightarrow> Inl (Type_error ''item assignment''))"

text \<open>\<open>remove_document_from_db\<close>: the store is saved before the metadata is updated, so a
  failure there leaves the removal on disk and answers 500.\<close>

definition remove_document_from_db :: "string \<Rightarrow> string \<Rightarrow> string \<Rightarrow> dm_state \<Rightarrow> dm_resp \<times> dm_state" where
  "remove_document_from_db db_id doc_id now st =
     (if db_id = [] \<or> doc_id = [] then (Resp_err 400, st)
      else case dict_get (dm_stores st) db_id of
             None \<Rightarrow> (Resp_err 404, st)
           | Some s \<Rightarrow>
               (case dict_get (vs_docs s) doc_id of
                  None \<Rightarrow> (Resp_err 404, st)
                | Some d \<Rightarrow>
                    (let st1 = st\<lparr>dm_stores := dict_set (dm_stores st) db_id (vs_remove_ids [doc_id] s)\<rparr>;
                         md = load_db_metadata (dm_meta st1)
                     in if dict_mem db_id md
                        then (case touch_entry now True db_id md of
                                Inl e \<Rightarrow> (Resp_err 500, st1)
                              | Inr md' \<Rightarrow>
                                  (Resp_ok (JObj [(''id'', JStr doc_id), (''source'', meta_get (sd_meta d) ''source'' (JStr unknown_label))]),
                                   st1\<lparr>dm_meta := save_db_metadata md'\<rparr>))
                        else (Resp_ok (JObj [(''id'', JStr doc_id), (''source'', meta_get (sd_meta d) ''source'' (JStr unknown_label))]),
                              st1))))"

text \<open>\<open>remove_documents_by_source\<close>: the ids whose \<open>source\<close> equals the request's, in
  docstore order, are removed from the docstore and the position map.\<close>

definition source_ids :: "string \<Rightarrow> vstore \<Rightarrow> string list" where
  "source_ids src s = map fst (filter (\<lambda>(i, d). dict_get (sd_meta d) ''source'' = Some (JStr src)) (vs_docs s))"

definition remove_documents_by_source :: "string \<Rightarrow> string \<Rightarrow> string \<Rightarrow> dm_state \<Rightarrow> dm_resp \<times> dm_state" where
  "remove_documents_by_source db_id src now st =
     (if db_id = [] \<or> src = [] then (Resp_err 400, st)
      else case dict_get (dm_stores st) db_id of
             None \<Rightarrow> (Resp_err 404, st)
           | Some s \<Rightarrow>
               (let ids = source_ids src s;
                    st1 = st\<lparr>dm_stores := dict_set (dm_stores st) db_id (vs_remove_ids ids s)\<rparr>;
                    md = load_db_metadata (dm_meta st1);
                    resp = Resp_ok (JObj [(''removed_count'', JNum (int (length ids))), (''source'', JStr src)])
                in if dict_mem db_id md
                   then (case touch_entry now False db_id md of
                           Inl e \<Rightarrow> (Resp_err 500, st1)
                         | Inr md' \<Rightarrow> (resp, st1\<lparr>dm_meta := save_db_metadata md'\<rparr>))
                   else (resp, st1)))"

section \<open>update_document_custom_name\<close>

text \<open>There is no existence check: \<open>load_local\<close> of a missing directory raises (500). The
  store is saved only when a document matched.\<close>

definition update_document_custom_name :: "string \<Rightarrow> string \<Rightarrow> string \<Rightarrow> dm_state \<Rightarrow> dm_resp \<times> dm_state" where
  "update_document_custom_name db_id src name st =
     (if db_id = [] \<or> src = [] then (Resp_err 400, st)
      else case dict_get (dm_stores st) db_id of
             None \<Rightarrow> (Resp_err 500, st)
           | Some s \<Rightarrow>
               (let hit = (\<lambda>d. dict_get (sd_meta d) ''source'' = Some (JStr src));
                    docs' = map (\<lambda>(i, d). (i, if hit d then d\<lparr>sd_meta := dict_set (sd_meta d) ''custom_name'' (JStr name)\<rparr> else d))
                              (vs_docs s);
                    updated = length (filter (\<lambda>(i, d). hit d) (vs_docs s))
                in if 0 < updated
                   then (Resp_ok (JObj []), st\<lparr>dm_stores := dict_set (dm_stores st) db_id (s\<lparr>vs_docs := docs'\<rparr>)\<rparr>)
                   else (Resp_err 404, st)))"

section \<open>add_documents_to_db\<close>

text \<open>The loaded documents get \<open>custom_name\<close> (the request's, or the original file name)
  and \<open>original_filename\<close> in their metadata.\<close>

definition tag_doc :: "json \<Rightarrow> string \<Rightarrow> sdoc \<Rightarrow> sdoc" where
  "tag_doc cn orig d =
     d\<lparr>sd_meta := dict_set (dict_set (sd_meta d) ''custom_name'' cn) ''original_filename'' (JStr orig)\<rparr>"

text \<open>The loop over the requested files: a missing file answers 404, a failing loader 500.\<close>

fun load_for_db ::
  "dm_services \<Rightarrow> (string, string) pydict \<Rightarrow> (string, json) pydict \<Rightarrow> string list \<Rightarrow> nat + sdoc list" where
  "load_for_db svc fs custom [] = Inr []"
| "load_for_db svc fs custom (f # rest) =
     (let path = path_join upload_folder f
      in case dict_get fs path of
           None \<Rightarrow> Inl 404
         | Some content \<Rightarrow>
             (case get_loader_for_file path (JStr ''pdfplumber'') of
                Inl e \<Rightarrow> Inl 500
              | Inr l \<Rightarrow>
                  (case load_docs svc l path content of
                     Inl e \<Rightarrow> Inl 500
                   | Inr docs \<Rightarrow>
                       (let orig = restore_filename f; cn = meta_get custom f (JStr orig)
                        in case load_for_db svc fs custom rest of
                             Inl c \<Rightarrow> Inl c
                           | Inr later \<Rightarrow> Inr (map (tag_doc cn orig) docs @ later)))))"

text \<open>The metadata update after an addition: \<open>last_updated\<close>, and \<open>added_documents\<close>
  increased by the number of requested files; the dictionary is saved in every case.\<close>

definition count_added :: "string \<Rightarrow> nat \<Rightarrow> string \<Rightarrow> (string, json) pydict \<Rightarrow> error + (string, json) pydict" where
  "count_added now n db md =
     (case dict_get md db of
        None \<Rightarrow> Inr md
      | Some (JObj obj) \<Rightarrow>
          (let obj1 = dict_set obj ''last_updated'' (JStr now)
           in case py_int_of (meta_get obj1 ''added_documents'' (JNum 0)) of
                Inl e \<Rightarrow> Inl e
              | Inr k \<Rightarrow> Inr (dict_set md db (JObj (dict_set obj1 ''added_documents'' (JNum (k + int n))))))
      | Some _ \<Rightarrow> Inl (Type_error ''item assignment''))"

text \<open>\<open>add_documents_to_db\<close>; \<open>uuid\<close> gives the successive values of \<open>uuid4()\<close>, the
  ids of the new chunks.\<close>

definition add_documents_to_db ::
  "dm_services \<Rightarrow> string \<Rightarrow> string list \<Rightarrow> (string, json) pydict \<Rightarrow> (nat \<Rightarrow> string) \<Rightarrow> string \<Rightarrow> dm_state
   \<Rightarrow> dm_resp \<times> dm_state" where
  "add_documents_to_db svc db_id files custom uuid now st =
     (if db_id = [] \<or> files = [] then (Resp_err 400, st)
      else case dict_get (dm_stores st) db_id of
             None \<Rightarrow> (Resp_err 404, st)
           | Some s \<Rightarrow>
               (let md = load_db_metadata (dm_meta st);
                    info = meta_get md db_id (JObj [])
                in case (json_get info ''chunk_size'' (JNum 300), json_get info ''chunk_overlap'' (JNum 50)) of
                     (Inr cs, Inr co) \<Rightarrow>
                       (case load_for_db svc (dm_files st) custom files of
                          Inl code \<Rightarrow> (Resp_err code, st)
                        | Inr [] \<Rightarrow> (Resp_err 400, st)
                        | Inr docs \<Rightarrow>
                            (case split_docs svc cs co docs of
                               Inl e \<Rightarrow> (Resp_err 500, st)
                             | Inr chunks \<Rightarrow>
                                 (case embed_docs svc chunks of
                                    Some e \<Rightarrow> (Resp_err 500, st)
                                  | None \<Rightarrow>
                                      (case vs_add (map uuid [0..<length chunks]) chunks s of
                                         Inl e \<Rightarrow> (Resp_err 500, st)
                                       | Inr s' \<Rightarrow>
                                           (let st1 = st\<lparr>dm_stores := dict_set (dm_stores st) db_id s'\<rparr>
                                            in case count_added now (length files) db_id md of
                                                 Inl e \<Rightarrow> (Resp_err 500, st1)
                                               | Inr md' \<Rightarrow>
                                                   (Resp_ok (JObj [(''document_count'', JNum (int (length docs))),
                                                                   (''chunk_count'', JNum (int (length chunks)))]),
                                                    st1\<lparr>dm_meta := save_db_metadata md'\<rparr>))))))
                   | _ \<Rightarrow> (Resp_err 500, st)))"

section \<open>A store for the examples\<close>

text \<open>A corpus with two documents, \<open>id1\<close> (from \<open>a.txt\<close>) and \<open>id2\<close> (from \<open>b.txt\<close>),
  and an upload \<open>c.txt\<close>; loaders return the file as one document, the splitter keeps the
  documents, the embedding succeeds.\<close>

definition demo_db :: string where
  "demo_db = ''LANGCHAIN_DB_INDEX_x''"

definition demo_sdoc :: "string \<Rightarrow> string \<Rightarrow> sdoc" where
  "demo_sdoc c src = \<lparr>sd_content = c, sd_meta = [(''source'', JStr src)]\<rparr>"

definition demo_dm_state :: dm_state where
  "demo_dm_state =
     \<lparr>dm_meta = None,
      dm_stores = [(demo_db, vs_from_documents [''id1'', ''id2''] [demo_sdoc ''aaa'' ''data/a.txt'', demo_sdoc ''bbb'' ''data/b.txt''])],
      dm_files = [(''data/c.txt'', ''ccc'')]\<rparr>"

definition demo_dm_services :: dm_services where
  "demo_dm_services =
     \<lparr>load_docs = (\<lambda>l p c. Inr [demo_sdoc c p]), split_docs = (\<lambda>cs co ds. Inr ds), embed_docs = (\<lambda>ds. None),
      is_dir = (\<lambda>p. p = upload_folder)\<rparr>"

section \<open>Lemmas on stores\<close>

lemma vs_from_documents_wf:
  assumes "distinct ids" and "length ids = length docs"
  shows "vs_wf (vs_from_documents ids docs)"
proof -
  have i: "dict_update [] (zip [0..<length ids] ids) = zip [0..<length ids] ids"
    using dict_update_fresh [of "zip [0..<length ids] ids" "[]"] by simp
  have d: "dict_update [] (zip ids docs) = zip ids docs"
    using dict_update_fresh [of "zip ids docs" "[]"] assms by simp
  show ?thesis unfolding vs_wf_def vs_from_documents_def i d
    using assms by (simp add: dict_wf_def dict_keys_def)
qed

lemma vs_add_wf:
  assumes wf: "vs_wf s" and len: "length ids = length docs" and a: "vs_add ids docs s = Inr s'"
  shows "vs_wf s'"
proof -
  let ?n = "vs_ntotal s" and ?m = "length ids"
  have keys: "map fst (vs_index s) = [0..<?n]" and dw: "dict_wf (vs_docs s)"
    and ds: "distinct (map snd (vs_index s))" and ms: "set (map snd (vs_index s)) = set (dict_keys (vs_docs s))"
    using wf by (simp_all add: vs_wf_def)
  have start: "length (vs_index s) = ?n" using arg_cong [OF keys, of length] by simp
  from a have di: "distinct ids" and fresh: "\<forall>i \<in> set ids. \<not> dict_mem i (vs_docs s)"
    and s': "s' = \<lparr>vs_ntotal = ?n + length docs,
                   vs_index = dict_update (vs_index s) (zip [?n..<?n + ?m] ids),
                   vs_docs = dict_update (vs_docs s) (zip ids docs)\<rparr>"
    by (auto simp: vs_add_def start Let_def split: if_splits)
  have i: "dict_update (vs_index s) (zip [?n..<?n + ?m] ids) = vs_index s @ zip [?n..<?n + ?m] ids"
    by (rule dict_update_fresh) (auto simp: keys)
  have d: "dict_update (vs_docs s) (zip ids docs) = vs_docs s @ zip ids docs"
    using fresh di len by (intro dict_update_fresh) (auto simp: dict_mem_def dict_keys_def)
  have idx: "vs_index s' = vs_index s @ zip [?n..<?n + ?m] ids" by (simp add: s' i)
  have dcs: "vs_docs s' = vs_docs s @ zip ids docs" by (simp add: s' d)
  have nt: "vs_ntotal s' = ?n + ?m" using len by (simp add: s')
  have "map fst (vs_index s') = [0..<vs_ntotal s']"
    by (simp add: idx nt keys upt_add_eq_append [symmetric])
  moreover have "dict_wf (vs_docs s')"
    using dw di fresh len by (auto simp: dcs dict_wf_def dict_keys_def dict_mem_def)
  moreover have "distinct (map snd (vs_index s'))"
    using ds di fresh ms by (auto simp: idx dict_mem_def)
  moreover have "set (map snd (vs_index s')) = set (dict_keys (vs_docs s'))"
    using ms len by (auto simp: idx dcs dict_keys_def)
  ultimately show ?thesis by (simp add: vs_wf_def)
qed

lemma vs_wf_lookup_index:
  "vs_wf s \<Longrightarrow> p < vs_ntotal s \<Longrightarrow> \<exists>did d. dict_get (vs_index s) p = Some did \<and> dict_get (vs_docs s) did = Some d"
proof -
  assume wf: "vs_wf s" and p: "p < vs_ntotal s"
  then have "p \<in> set (map fst (vs_index s))" by (simp add: vs_wf_def)
  then obtain did where m: "(p, did) \<in> set (vs_index s)" by auto
  have g: "dict_get (vs_index s) p = Some did"
    using wf m by (intro dict_get_distinct_mem) (simp_all add: vs_wf_def)
  have "did \<in> set (dict_keys (vs_docs s))" using wf m by (force simp: vs_wf_def)
  then obtain d where "dict_get (vs_docs s) did = Some d" by (auto simp: dict_keys_mem)
  with g show ?thesis by blast
qed

lemma vs_lookup_total:
  "vs_wf s \<Longrightarrow> search_positions s is \<Longrightarrow> \<exists>ds. vs_lookup s is = Inr ds \<and> length ds = length (filter (\<lambda>i. i \<noteq> -1) is)"
proof (induction "is")
  case (Cons i "is")
  then have rest: "\<exists>ds. vs_lookup s is = Inr ds \<and> length ds = length (filter (\<lambda>i. i \<noteq> -1) is)"
    by (simp add: search_positions_def)
  show ?case
  proof (cases "i = -1")
    case False
    then have "nat i < vs_ntotal s" using Cons.prems by (simp add: search_positions_def)
    then obtain did d where "dict_get (vs_index s) (nat i) = Some did" "dict_get (vs_docs s) did = Some d"
      using vs_wf_lookup_index Cons.prems(1) by blast
    then show ?thesis using rest False by auto
  qed (use rest in simp)
qed simp

lemma vs_add_shape:
  assumes wf: "vs_wf s" and a: "vs_add ids docs s = Inr s'" and len: "length ids = length docs"
  shows "vs_index s' = vs_index s @ zip [vs_ntotal s..<vs_ntotal s + length ids] ids
         \<and> vs_docs s' = vs_docs s @ zip ids docs \<and> vs_ntotal s' = vs_ntotal s + length ids
         \<and> distinct ids \<and> (\<forall>i \<in> set ids. \<not> dict_mem i (vs_docs s))"
proof -
  let ?n = "vs_ntotal s" and ?m = "length ids"
  have keys: "map fst (vs_index s) = [0..<?n]" using wf by (simp add: vs_wf_def)
  have start: "length (vs_index s) = ?n" using arg_cong [OF keys, of length] by simp
  from a have di: "distinct ids" and fresh: "\<forall>i \<in> set ids. \<not> dict_mem i (vs_docs s)"
    and s': "s' = \<lparr>vs_ntotal = ?n + length docs,
                   vs_index = dict_update (vs_index s) (zip [?n..<?n + ?m] ids),
                   vs_docs = dict_update (vs_docs s) (zip ids docs)\<rparr>"
    by (auto simp: vs_add_def start Let_def split: if_splits)
  have i: "dict_update (vs_index s) (zip [?n..<?n + ?m] ids) = vs_index s @ zip [?n..<?n + ?m] ids"
    by (rule dict_update_fresh) (auto simp: keys)
  have d: "dict_update (vs_docs s) (zip ids docs) = vs_docs s @ zip ids docs"
    using fresh di len by (intro dict_update_fresh) (auto simp: dict_mem_def dict_keys_def)
  show ?thesis using i d di fresh len by (simp add: s')
qed

lemma vs_add_lookup_old:
  assumes wf: "vs_wf s" and a: "vs_add ids docs s = Inr s'" and len: "length ids = length docs"
      and sp: "search_positions s is"
  shows "vs_lookup s' is = vs_lookup s is"
  using sp
proof (induction "is")
  case (Cons i "is")
  have rest: "vs_lookup s' is = vs_lookup s is" using Cons by (simp add: search_positions_def)
  show ?case
  proof (cases "i = -1")
    case False
    then have p: "nat i < vs_ntotal s" using Cons.prems by (simp add: search_positions_def)
    then obtain did d where ig: "dict_get (vs_index s) (nat i) = Some did" and dg: "dict_get (vs_docs s) did = Some d"
      using vs_wf_lookup_index [OF wf] by blast
    note S = vs_add_shape [OF wf a len]
    have "dict_get (vs_index s') (nat i) = Some did" using ig S by (simp add: dict_get_def)
    moreover have "dict_get (vs_docs s') did = Some d" using dg S by (simp add: dict_get_def)
    ultimately show ?thesis using ig dg rest False by simp
  qed (simp add: rest)
qed simp

lemma vs_add_lookup_new:
  assumes wf: "vs_wf s" and a: "vs_add ids docs s = Inr s'" and len: "length ids = length docs"
  shows "vs_lookup s' (map (\<lambda>j. int (vs_ntotal s + j)) [0..<length docs]) = Inr docs"
proof -
  let ?n = "vs_ntotal s"
  note S = vs_add_shape [OF wf a len]
  have keys: "map fst (vs_index s) = [0..<?n]" using wf by (simp add: vs_wf_def)
  have step: "vs_lookup s' (map (\<lambda>j. int (?n + j)) js) = Inr (map (nth docs) js)"
    if "\<forall>j \<in> set js. j < length docs" for js
    using that
  proof (induction js)
    case (Cons j js)
    then have j: "j < length docs" by simp
    have "?n + j \<notin> set (map fst (vs_index s))" using keys by simp
    then have "map_of (vs_index s) (?n + j) = None" by (simp add: map_of_eq_None_iff)
    moreover have "map_of (zip [?n..<?n + length ids] ids) (?n + j) = Some (ids ! j)"
      using map_of_zip_nth [of "[?n..<?n + length ids]" ids j] j len by simp
    ultimately have ig: "dict_get (vs_index s') (?n + j) = Some (ids ! j)"
      using S by (simp add: dict_get_def map_add_def)
    have "ids ! j \<in> set ids" using j len by simp
    then have "map_of (vs_docs s) (ids ! j) = None"
      using S by (auto simp: dict_mem_def dict_keys_def map_of_eq_None_iff)
    moreover have "map_of (zip ids docs) (ids ! j) = Some (docs ! j)"
      using map_of_zip_nth [of ids docs j] j len S by simp
    ultimately have dg: "dict_get (vs_docs s') (ids ! j) = Some (docs ! j)"
      using S by (simp add: dict_get_def map_add_def)
    show ?case using Cons ig dg by (simp del: of_nat_add)
  qed simp
  show ?thesis using step [of "[0..<length docs]"] by (simp add: map_nth)
qed

lemma vs_from_documents_add:
  "distinct ids \<Longrightarrow> length ids = length docs \<Longrightarrow>
   vs_add ids docs \<lparr>vs_ntotal = 0, vs_index = [], vs_docs = []\<rparr> = Inr (vs_from_documents ids docs)"
  by (simp add: vs_add_def vs_from_documents_def dict_mem_def)

lemma vs_from_documents_lookup:
  assumes "distinct ids" and "length ids = length docs"
  shows "vs_lookup (vs_from_documents ids docs) (map int [0..<length docs]) = Inr docs"
proof -
  have w: "vs_wf \<lparr>vs_ntotal = 0, vs_index = [], vs_docs = []\<rparr>" by (simp add: vs_wf_def)
  show ?thesis using vs_add_lookup_new [OF w vs_from_documents_add [OF assms] assms(2)] by simp
qed

lemma vs_remove_unmaps:
  assumes wf: "vs_wf s" and m: "dict_mem doc (vs_docs s)"
  shows "\<exists>p. search_positions (vs_remove_ids [doc] s) [int p]
             \<and> vs_lookup (vs_remove_ids [doc] s) [int p] = Inl (Key_error (py_str_int (int p)))"
proof -
  have "doc \<in> set (map snd (vs_index s))"
    using wf m by (simp add: vs_wf_def dict_mem_def)
  then obtain p where pd: "(p, doc) \<in> set (vs_index s)" by auto
  have dk: "distinct (map fst (vs_index s))" and k: "map fst (vs_index s) = [0..<vs_ntotal s]"
    using wf by (simp_all add: vs_wf_def)
  have "p \<in> set (map fst (vs_index s))" using pd by force
  then have p: "p < vs_ntotal s" by (simp add: k)
  have "dict_get (filter (\<lambda>(p', i). i \<notin> set [doc]) (vs_index s)) p = None"
  proof (rule ccontr)
    assume "dict_get (filter (\<lambda>(p', i). i \<notin> set [doc]) (vs_index s)) p \<noteq> None"
    then obtain x where "(p, x) \<in> set (filter (\<lambda>(p', i). i \<notin> set [doc]) (vs_index s))"
      by (auto dest: dict_get_SomeD)
    then have "(p, x) \<in> set (vs_index s)" "x \<noteq> doc" by auto
    moreover have "dict_get (vs_index s) p = Some doc" using dict_get_distinct_mem [OF dk pd] .
    ultimately show False using dict_get_distinct_mem [OF dk, of p x] by simp
  qed
  then show ?thesis using p
    by (intro exI [of _ p]) (simp add: vs_remove_ids_def search_positions_def)
qed

lemma remove_document_from_db_store:
  "dict_get (dm_stores st) db = Some s \<Longrightarrow> dict_mem doc (vs_docs s) \<Longrightarrow> db \<noteq> [] \<Longrightarrow> doc \<noteq> [] \<Longrightarrow>
   dm_stores (snd (remove_document_from_db db doc now st)) = dict_set (dm_stores st) db (vs_remove_ids [doc] s)"
  by (auto simp: remove_document_from_db_def Let_def dict_mem_iff split: option.splits sum.splits)

lemma add_documents_to_db_store:
  "dict_get (dm_stores st) db = Some s \<Longrightarrow>
   dict_get (dm_stores (snd (add_documents_to_db svc db files custom uuid now st))) db = Some s
   \<or> (\<exists>chunks s'. vs_add (map uuid [0..<length chunks]) chunks s = Inr s'
         \<and> dict_get (dm_stores (snd (add_documents_to_db svc db files custom uuid now st))) db = Some s')"
  by (auto simp: add_documents_to_db_def Let_def dict_get_set
           split: option.splits sum.splits prod.splits list.splits)

text \<open>What \<open>__add\<close> does to the positions: the first new id goes to position
  \<open>len(index_to_docstore_id)\<close>, positions outside the new range keep their ids, old documents
  stay, and the new ids were not in the docstore.\<close>

lemma vs_add_positions:
  assumes a: "vs_add ids docs s = Inr s'" and ne: "ids \<noteq> []"
  shows "dict_get (vs_index s') (length (vs_index s)) = Some (hd ids)
         \<and> vs_ntotal s' = vs_ntotal s + length docs
         \<and> (\<forall>k. k < length (vs_index s) \<or> length (vs_index s) + length ids \<le> k
                \<longrightarrow> dict_get (vs_index s') k = dict_get (vs_index s) k)
         \<and> (\<forall>i. dict_mem i (vs_docs s) \<longrightarrow> dict_mem i (vs_docs s'))
         \<and> hd ids \<notin> set (dict_keys (vs_docs s))"
proof -
  let ?l = "length (vs_index s)"
  let ?z = "zip [?l..<?l + length ids] ids"
  from a have di: "distinct ids" and fr: "\<forall>i \<in> set ids. \<not> dict_mem i (vs_docs s)"
    and s': "s' = \<lparr>vs_ntotal = vs_ntotal s + length docs, vs_index = dict_update (vs_index s) ?z,
                   vs_docs = dict_update (vs_docs s) (zip ids docs)\<rparr>"
    by (auto simp: vs_add_def Let_def split: if_splits)
  have dz: "distinct (map fst ?z)" by simp
  have "(?l, hd ids) \<in> set ?z" using ne by (cases ids) (simp_all del: upt_Suc add: upt_conv_Cons)
  then have "dict_get (vs_index s') ?l = Some (hd ids)"
    using dict_get_update_key [OF dz] by (simp add: s')
  moreover have "dict_get (vs_index s') k = dict_get (vs_index s) k"
    if "k < ?l \<or> ?l + length ids \<le> k" for k
    using that by (auto simp: s' intro!: dict_get_update_other dest: set_zip_leftD)
  moreover have "hd ids \<notin> set (dict_keys (vs_docs s))"
    using fr ne by (cases ids) (auto simp: dict_mem_def)
  ultimately show ?thesis by (simp add: s' dict_mem_update)
qed

lemma vs_remove_one:
  assumes wf: "vs_wf s" and p: "dict_get (vs_index s) p = Some doc"
  shows "length (vs_index (vs_remove_ids [doc] s)) = vs_ntotal s - 1
         \<and> (\<forall>k d. dict_get (vs_index s) k = Some d \<longrightarrow> d \<noteq> doc
                  \<longrightarrow> dict_mem d (vs_docs (vs_remove_ids [doc] s)))
         \<and> (\<forall>k. vs_ntotal s \<le> k \<longrightarrow> dict_get (vs_index (vs_remove_ids [doc] s)) k = None)
         \<and> vs_ntotal (vs_remove_ids [doc] s) = vs_ntotal s"
proof -
  let ?I = "vs_index s"
  have keys: "map fst ?I = [0..<vs_ntotal s]" and ds: "distinct (map snd ?I)"
    and ms: "set (map snd ?I) = set (dict_keys (vs_docs s))"
    using wf by (simp_all add: vs_wf_def)
  have pm: "(p, doc) \<in> set ?I" using p by (rule dict_get_SomeD)
  have dI: "distinct ?I" using keys by (metis distinct_map distinct_upt)
  have uniq: "a = p" if "(a, doc) \<in> set ?I" for a
    using ds that pm by (metis distinct_map inj_on_eq_iff prod.inject snd_conv)
  have "set (filter (\<lambda>(p', i). i \<notin> set [doc]) ?I) = set ?I - {(p, doc)}"
    using uniq by auto
  then have "length (filter (\<lambda>(p', i). i \<notin> set [doc]) ?I) = card (set ?I - {(p, doc)})"
    using dI by (metis distinct_card distinct_filter)
  also have "\<dots> = vs_ntotal s - 1"
    using pm dI arg_cong [OF keys, of length] by (simp add: distinct_card)
  finally have l: "length (vs_index (vs_remove_ids [doc] s)) = vs_ntotal s - 1"
    by (simp add: vs_remove_ids_def)
  have m: "dict_mem d (vs_docs (vs_remove_ids [doc] s))"
    if "dict_get ?I k = Some d" "d \<noteq> doc" for k d
  proof -
    have "d \<in> set (dict_keys (vs_docs s))" using ms dict_get_SomeD [OF that(1)] by force
    then show ?thesis using that(2) by (auto simp: vs_remove_ids_def dict_mem_def dict_keys_def)
  qed
  have n: "dict_get (vs_index (vs_remove_ids [doc] s)) k = None" if "vs_ntotal s \<le> k" for k
  proof (rule ccontr)
    assume "dict_get (vs_index (vs_remove_ids [doc] s)) k \<noteq> None"
    then obtain x where "dict_get (vs_index (vs_remove_ids [doc] s)) k = Some x" by blast
    then have "(k, x) \<in> set ?I" by (auto simp: vs_remove_ids_def dest: dict_get_SomeD)
    then have "k \<in> set (map fst ?I)" by force
    with that keys show False by simp
  qed
  show ?thesis using l m n by (simp add: vs_remove_ids_def)
qed

lemma add_documents_to_db_ok:
  assumes "add_documents_to_db svc db files custom uuid now st = (Resp_ok r, st')"
  shows "\<exists>s chunks s' dc. dict_get (dm_stores st) db = Some s
           \<and> vs_add (map uuid [0..<length chunks]) chunks s = Inr s'
           \<and> dict_get (dm_stores st') db = Some s'
           \<and> r = JObj [(''document_count'', dc), (''chunk_count'', JNum (int (length chunks)))]"
  using assms
  by (auto simp: add_documents_to_db_def Let_def dict_get_set
           split: if_splits option.splits sum.splits prod.splits list.splits)

lemma cp_len_append [simp]: "cp_len (xs @ ys) = cp_len xs + cp_len ys"
  by (simp add: cp_len_def)

lemma cp_len_take: "cp_len (cp_take n s) \<le> n"
  by (induction n s rule: cp_take.induct) (auto simp: cp_len_def)

lemma remove_documents_by_source_store:
  "dict_get (dm_stores st) db = Some s \<Longrightarrow> db \<noteq> [] \<Longrightarrow> src \<noteq> [] \<Longrightarrow>
   dm_stores (snd (remove_documents_by_source db src now st)) = dict_set (dm_stores st) db (vs_remove_ids (source_ids src s) s)"
  by (auto simp: remove_documents_by_source_def Let_def split: option.splits sum.splits)

lemma source_ids_filter:
  assumes "dict_wf (vs_docs s)"
  shows "filter (\<lambda>(i, d). i \<notin> set (source_ids src s)) (vs_docs s)
         = filter (\<lambda>(i, d). dict_get (sd_meta d) ''source'' \<noteq> Some (JStr src)) (vs_docs s)"
proof (rule filter_cong [OF refl])
  fix x assume x: "x \<in> set (vs_docs s)"
  obtain i d where xi: "x = (i, d)" by (cases x)
  have dk: "distinct (map fst (vs_docs s))" using assms by (simp add: dict_wf_def dict_keys_def)
  have u: "d' = d" if "(i, d') \<in> set (vs_docs s)" for d'
    using dict_get_distinct_mem [OF dk that] dict_get_distinct_mem [OF dk x [unfolded xi]] by simp
  show "(case x of (i, d) \<Rightarrow> i \<notin> set (source_ids src s))
        = (case x of (i, d) \<Rightarrow> dict_get (sd_meta d) ''source'' \<noteq> Some (JStr src))"
  proof -
    have "i \<in> set (source_ids src s)
          \<longleftrightarrow> (\<exists>d'. (i, d') \<in> set (vs_docs s) \<and> dict_get (sd_meta d') ''source'' = Some (JStr src))"
      unfolding source_ids_def by force
    moreover have "(i, d) \<in> set (vs_docs s)" using x xi by simp
    ultimately have "i \<in> set (source_ids src s) \<longleftrightarrow> dict_get (sd_meta d) ''source'' = Some (JStr src)"
      using u by blast
    then show ?thesis unfolding xi by simp
  qed
qed

section \<open>Properties of the store routes\<close>

lemmas dm_demo_eval = demo_db_def demo_sdoc_def demo_dm_state_def demo_dm_services_def vs_from_documents_def
  dict_update_def remove_document_from_db_def add_documents_to_db_def vs_remove_ids_def vs_add_def
  load_db_metadata_def default_metadata_def meta_get_def json_get_def dict_get_def dict_mem_def dict_keys_def
  touch_entry_def count_added_def save_db_metadata_def categories_key_def path_join_def upload_folder_def
  get_loader_for_file_def py_splitext_ext_def py_basename_def ascii_lower_def restore_filename_def tag_doc_def
  Let_def

text \<open>C11 (a removal followed by an addition misroutes searches) \<open>remove_document_from_db\<close>
  deletes the document's entry from \<open>index_to_docstore_id\<close> but not its vector, so the map has
  one entry fewer than the index has vectors; \<open>add_documents_to_db\<close> then numbers the new
  chunks from the map's length. On any well-formed store, after removing a document that is not
  the last one and adding at least one chunk, the vector of the last kept document is mapped to
  the first new chunk (while that document is still in the docstore), and a search that hits
  the last new vector raises \<open>KeyError\<close>.\<close>

theorem add_after_remove_misroutes:
  assumes wf: "vs_wf s" and g: "dict_get (dm_stores st) db = Some s"
      and p: "dict_get (vs_index s) p = Some doc" and lt: "Suc p < vs_ntotal s"
      and ne: "db \<noteq> []" "doc \<noteq> []"
      and a: "add_documents_to_db svc db files custom uuid now' (snd (remove_document_from_db db doc now st))
                = (Resp_ok (JObj resp), st2)"
      and k: "meta_get resp ''chunk_count'' (JNum 0) \<noteq> JNum 0"
  shows "\<exists>s2 d. dict_get (dm_stores st2) db = Some s2
           \<and> dict_get (vs_index s) (vs_ntotal s - 1) = Some d \<and> d \<noteq> doc \<and> dict_mem d (vs_docs s2)
           \<and> dict_get (vs_index s2) (vs_ntotal s - 1) = Some (uuid 0) \<and> uuid 0 \<noteq> d
           \<and> search_positions s2 [int (vs_ntotal s2 - 1)]
           \<and> vs_lookup s2 [int (vs_ntotal s2 - 1)] = Inl (Key_error (py_str_int (int (vs_ntotal s2 - 1))))"
proof -
  let ?n = "vs_ntotal s" and ?s1 = "vs_remove_ids [doc] s"
  have keys: "map fst (vs_index s) = [0..<?n]" and ds: "distinct (map snd (vs_index s))"
    and ms: "set (map snd (vs_index s)) = set (dict_keys (vs_docs s))"
    using wf by (simp_all add: vs_wf_def)
  have pm: "(p, doc) \<in> set (vs_index s)" using p by (rule dict_get_SomeD)
  have "dict_mem doc (vs_docs s)" using ms pm by (force simp: dict_mem_def)
  then have st1: "dict_get (dm_stores (snd (remove_document_from_db db doc now st))) db = Some ?s1"
    using remove_document_from_db_store [OF g _ ne] by (simp add: dict_get_set)
  from add_documents_to_db_ok [OF a] st1 obtain chunks s2 dc where
    add: "vs_add (map uuid [0..<length chunks]) chunks ?s1 = Inr s2"
    and g2: "dict_get (dm_stores st2) db = Some s2"
    and r: "JObj resp = JObj [(''document_count'', dc), (''chunk_count'', JNum (int (length chunks)))]"
    by auto
  from k r have cne: "chunks \<noteq> []" by (auto simp: meta_get_def dict_get_def)
  then have ine: "map uuid [0..<length chunks] \<noteq> []" by simp
  have hd: "hd (map uuid [0..<length chunks]) = uuid 0" using cne by (simp add: hd_map)
  note R = vs_remove_one [OF wf p]
  note A = vs_add_positions [OF add ine, unfolded hd]
  have len1: "length (vs_index ?s1) = ?n - 1" using R by blast
  have "?n - 1 \<in> set (map fst (vs_index s))" using keys lt by simp
  then obtain d where dm: "(?n - 1, d) \<in> set (vs_index s)" by auto
  have dI: "distinct (map fst (vs_index s))" using keys by simp
  have gd: "dict_get (vs_index s) (?n - 1) = Some d" using dict_get_distinct_mem [OF dI dm] .
  have dd: "d \<noteq> doc"
  proof
    assume "d = doc"
    then have "(?n - 1, doc) = (p, doc)" using ds dm pm by (metis distinct_map inj_on_eq_iff snd_conv)
    with lt show False by simp
  qed
  have m1: "dict_mem d (vs_docs ?s1)" using R gd dd by blast
  have m2: "dict_mem d (vs_docs s2)" using A m1 by blast
  have u: "uuid 0 \<noteq> d" using A m1 by (auto simp: dict_mem_def)
  have i2: "dict_get (vs_index s2) (?n - 1) = Some (uuid 0)" using A len1 by simp
  have nt2: "vs_ntotal s2 = ?n + length chunks" using A R by simp
  let ?t = "vs_ntotal s2 - 1"
  have c0: "0 < length chunks" using cne by simp
  have t: "?n \<le> ?t" "length (vs_index ?s1) + length chunks \<le> ?t" using nt2 c0 len1 lt by arith+
  have "dict_get (vs_index s2) ?t = dict_get (vs_index ?s1) ?t" using A t(2) by simp
  also have "\<dots> = None" using R t(1) by blast
  finally have none: "dict_get (vs_index s2) ?t = None" .
  have sp: "search_positions s2 [int ?t]" using nt2 cne by (simp add: search_positions_def)
  have "vs_lookup s2 [int ?t] = Inl (Key_error (py_str_int (int ?t)))" using none by simp
  with g2 gd dd m2 i2 u sp show ?thesis by blast
qed

theorem add_after_remove_misroutes_witness:
  "\<exists>s2 d. dict_get (dm_stores (snd (add_documents_to_db demo_dm_services demo_db [''c.txt''] [] (\<lambda>n. ''id3'') ''t2''
                   (snd (remove_document_from_db demo_db ''id1'' ''t1'' demo_dm_state))))) demo_db = Some s2
     \<and> dict_get (vs_index (vs_from_documents [''id1'', ''id2''] [demo_sdoc ''aaa'' ''data/a.txt'', demo_sdoc ''bbb'' ''data/b.txt''])) 1 = Some d
     \<and> d \<noteq> ''id1'' \<and> dict_mem d (vs_docs s2)
     \<and> dict_get (vs_index s2) 1 = Some ''id3'' \<and> ''id3'' \<noteq> d
     \<and> search_positions s2 [int (vs_ntotal s2 - 1)]
     \<and> vs_lookup s2 [int (vs_ntotal s2 - 1)] = Inl (Key_error (py_str_int (int (vs_ntotal s2 - 1))))"
proof -
  let ?s = "vs_from_documents [''id1'', ''id2''] [demo_sdoc ''aaa'' ''data/a.txt'', demo_sdoc ''bbb'' ''data/b.txt'']"
  let ?st2 = "snd (add_documents_to_db demo_dm_services demo_db [''c.txt''] [] (\<lambda>n. ''id3'') ''t2''
                   (snd (remove_document_from_db demo_db ''id1'' ''t1'' demo_dm_state)))"
  have w: "vs_wf ?s" by (simp add: dm_demo_eval vs_wf_def dict_wf_def)
  have g: "dict_get (dm_stores demo_dm_state) demo_db = Some ?s" by (simp add: dm_demo_eval)
  have p: "dict_get (vs_index ?s) 0 = Some ''id1''" by (simp add: dm_demo_eval)
  have lt: "Suc 0 < vs_ntotal ?s" by (simp add: vs_from_documents_def)
  have ne: "demo_db \<noteq> []" "''id1'' \<noteq> []" by (simp_all add: demo_db_def)
  have a: "add_documents_to_db demo_dm_services demo_db [''c.txt''] [] (\<lambda>n. ''id3'') ''t2''
             (snd (remove_document_from_db demo_db ''id1'' ''t1'' demo_dm_state))
           = (Resp_ok (JObj [(''document_count'', JNum 1), (''chunk_count'', JNum 1)]), ?st2)"
    by (simp add: dm_demo_eval)
  have k: "meta_get [(''document_count'', JNum 1), (''chunk_count'', JNum 1)] ''chunk_count'' (JNum 0) \<noteq> JNum 0"
    by (simp add: meta_get_def dict_get_def)
  have n: "vs_ntotal ?s - 1 = 1" by (simp add: vs_from_documents_def)
  show ?thesis using add_after_remove_misroutes [OF w g p lt ne a k] n by simp
qed

text \<open>C12 (remove_document_from_db leaves an unmapped vector) After
  \<open>remove_document_from_db\<close> removes a document of a well-formed store, the index still
  holds a vector whose position has no document id: a search returning that position raises
  \<open>KeyError\<close>.\<close>

theorem remove_document_breaks_search:
  assumes "vs_wf s" and "dict_get (dm_stores st) db = Some s" and "dict_mem doc (vs_docs s)"
      and "db \<noteq> []" and "doc \<noteq> []"
  shows "\<exists>s' p. dict_get (dm_stores (snd (remove_document_from_db db doc now st))) db = Some s'
               \<and> search_positions s' [int p] \<and> vs_lookup s' [int p] = Inl (Key_error (py_str_int (int p)))"
  using vs_remove_unmaps [OF assms(1,3)] remove_document_from_db_store [OF assms(2-5)]
  by (auto simp: dict_get_set)

theorem remove_document_breaks_search_witness:
  "\<exists>s' p. dict_get (dm_stores (snd (remove_document_from_db demo_db ''id1'' ''t1'' demo_dm_state))) demo_db = Some s'
          \<and> search_positions s' [int p] \<and> vs_lookup s' [int p] = Inl (Key_error (py_str_int (int p)))"
proof -
  let ?s = "vs_from_documents [''id1'', ''id2''] [demo_sdoc ''aaa'' ''data/a.txt'', demo_sdoc ''bbb'' ''data/b.txt'']"
  have w: "vs_wf ?s" by (simp add: dm_demo_eval vs_wf_def dict_wf_def)
  have g: "dict_get (dm_stores demo_dm_state) demo_db = Some ?s" by (simp add: dm_demo_eval)
  have m: "dict_mem ''id1'' (vs_docs ?s)" by (simp add: dm_demo_eval)
  show ?thesis using remove_document_breaks_search [OF w g m] by (simp add: demo_db_def)
qed

text \<open>C33 (add_documents_to_db extends the store) On a well-formed store, a successful
  \<open>add_documents_to_db\<close> saves a well-formed store with one vector per chunk it reports: every
  search over the old vectors returns what it returned before, and the new vectors, which
  follow the old ones, lead to the new chunks in order.\<close>

theorem add_documents_extends_store:
  assumes wf: "vs_wf s" and g: "dict_get (dm_stores st) db = Some s"
      and a: "add_documents_to_db svc db files custom uuid now st = (Resp_ok r, st')"
  shows "\<exists>chunks s'. dict_get (dm_stores st') db = Some s' \<and> vs_wf s'
           \<and> json_get r ''chunk_count'' JNull = Inr (JNum (int (length chunks)))
           \<and> vs_ntotal s' = vs_ntotal s + length chunks
           \<and> (\<forall>is. search_positions s is \<longrightarrow> vs_lookup s' is = vs_lookup s is)
           \<and> vs_lookup s' (map (\<lambda>j. int (vs_ntotal s + j)) [0..<length chunks]) = Inr chunks"
proof -
  from add_documents_to_db_ok [OF a] g obtain chunks s' dc where
    add: "vs_add (map uuid [0..<length chunks]) chunks s = Inr s'"
    and g': "dict_get (dm_stores st') db = Some s'"
    and r: "r = JObj [(''document_count'', dc), (''chunk_count'', JNum (int (length chunks)))]"
    by auto
  have len: "length (map uuid [0..<length chunks]) = length chunks" by simp
  have "vs_wf s'" using vs_add_wf [OF wf len add] .
  moreover have "vs_ntotal s' = vs_ntotal s + length chunks" using vs_add_shape [OF wf add len] by simp
  moreover have "json_get r ''chunk_count'' JNull = Inr (JNum (int (length chunks)))"
    by (simp add: r json_get_def dict_get_def)
  ultimately show ?thesis
    using g' vs_add_lookup_old [OF wf add len] vs_add_lookup_new [OF wf add len] by blast
qed

theorem add_documents_extends_store_witness:
  "\<exists>chunks s'. dict_get (dm_stores (snd (add_documents_to_db demo_dm_services demo_db [''c.txt''] [] (\<lambda>n. ''id3'') ''t2''
             demo_dm_state))) demo_db = Some s' \<and> vs_wf s'
           \<and> json_get (JObj [(''document_count'', JNum 1), (''chunk_count'', JNum 1)]) ''chunk_count'' JNull
               = Inr (JNum (int (length chunks)))
           \<and> vs_ntotal s' = 2 + length chunks
           \<and> (\<forall>is. search_positions (vs_from_documents [''id1'', ''id2''] [demo_sdoc ''aaa'' ''data/a.txt'', demo_sdoc ''bbb'' ''data/b.txt'']) is
                  \<longrightarrow> vs_lookup s' is = vs_lookup (vs_from_documents [''id1'', ''id2''] [demo_sdoc ''aaa'' ''data/a.txt'', demo_sdoc ''bbb'' ''data/b.txt'']) is)
           \<and> vs_lookup s' (map (\<lambda>j. int (2 + j)) [0..<length chunks]) = Inr chunks"
proof -
  let ?s = "vs_from_documents [''id1'', ''id2''] [demo_sdoc ''aaa'' ''data/a.txt'', demo_sdoc ''bbb'' ''data/b.txt'']"
  have w: "vs_wf ?s" by (simp add: dm_demo_eval vs_wf_def dict_wf_def)
  have g: "dict_get (dm_stores demo_dm_state) demo_db = Some ?s" by (simp add: dm_demo_eval)
  have a: "add_documents_to_db demo_dm_services demo_db [''c.txt''] [] (\<lambda>n. ''id3'') ''t2'' demo_dm_state
           = (Resp_ok (JObj [(''document_count'', JNum 1), (''chunk_count'', JNum 1)]),
              snd (add_documents_to_db demo_dm_services demo_db [''c.txt''] [] (\<lambda>n. ''id3'') ''t2'' demo_dm_state))"
    by (simp add: dm_demo_eval)
  have n: "vs_ntotal ?s = 2" by (simp add: vs_from_documents_def)
  show ?thesis using add_documents_extends_store [OF w g a] n by simp
qed

text \<open>C34 (remove_documents_by_source removes exactly that source) The store saved by
  \<open>remove_documents_by_source\<close> keeps exactly the documents whose \<open>source\<close> differs from the
  request's, and the same number of vectors.\<close>

theorem remove_documents_by_source_removes:
  assumes "dict_get (dm_stores st) db = Some s" and "dict_wf (vs_docs s)" and "db \<noteq> []" and "src \<noteq> []"
  shows "\<exists>s'. dict_get (dm_stores (snd (remove_documents_by_source db src now st))) db = Some s'
              \<and> vs_docs s' = filter (\<lambda>(i, d). dict_get (sd_meta d) ''source'' \<noteq> Some (JStr src)) (vs_docs s)
              \<and> vs_ntotal s' = vs_ntotal s"
  using remove_documents_by_source_store [OF assms(1,3,4)] source_ids_filter [OF assms(2)]
  by (simp add: dict_get_set vs_remove_ids_def)

theorem remove_documents_by_source_witness:
  "\<exists>s'. dict_get (dm_stores (snd (remove_documents_by_source demo_db ''data/a.txt'' ''t1'' demo_dm_state))) demo_db = Some s'
        \<and> vs_docs s' = [(''id2'', demo_sdoc ''bbb'' ''data/b.txt'')] \<and> vs_ntotal s' = 2"
proof -
  let ?s = "vs_from_documents [''id1'', ''id2''] [demo_sdoc ''aaa'' ''data/a.txt'', demo_sdoc ''bbb'' ''data/b.txt'']"
  have g: "dict_get (dm_stores demo_dm_state) demo_db = Some ?s" by (simp add: dm_demo_eval)
  have w: "dict_wf (vs_docs ?s)" by (simp add: dm_demo_eval dict_wf_def)
  have f: "filter (\<lambda>(i, d). dict_get (sd_meta d) ''source'' \<noteq> Some (JStr ''data/a.txt'')) (vs_docs ?s)
           = [(''id2'', demo_sdoc ''bbb'' ''data/b.txt'')]" by (simp add: dm_demo_eval)
  have n: "vs_ntotal ?s = 2" by (simp add: vs_from_documents_def)
  from remove_documents_by_source_removes [OF g w, where src = "''data/a.txt''" and now = "''t1''"]
  obtain s' where "dict_get (dm_stores (snd (remove_documents_by_source demo_db ''data/a.txt'' ''t1'' demo_dm_state))) demo_db = Some s'"
      "vs_docs s' = filter (\<lambda>(i, d). dict_get (sd_meta d) ''source'' \<noteq> Some (JStr ''data/a.txt'')) (vs_docs ?s)"
      "vs_ntotal s' = vs_ntotal ?s"
    by (auto simp: demo_db_def)
  then show ?thesis using f n by auto
qed

text \<open>Document previews are bounded: The content preview of \<open>get_db_documents\<close> has
  at most 53 characters (50 and the ellipsis).\<close>

theorem content_preview_bound: "cp_len (content_preview c) \<le> 53"
proof -
  have "cp_len ''...'' = 3" by (simp add: cp_len_def utf8_cont_def)
  then show ?thesis using cp_len_take [of 50 c] by (auto simp: content_preview_def)
qed

end
