(* ===== verification/Corpora.thy ===== *)
theory Corpora
  imports DocStore
begin

text \<open>
  The corpus and upload routes of \<open>document_manager.py\<close> over the state of \<open>DocStore\<close>:
  \<open>create_vector_db_from_multiple\<close> (with the normalisation of its chunk settings),
  \<open>delete_vector_db\<close>, \<open>get_db_info\<close>, the placeholder \<open>remove_documents_from_db\<close>,
  \<open>upload_documents\<close>, \<open>delete_document\<close>, \<open>get_categories\<close> and the
  \<open>document_manager\<close> page. A request body is the JSON object the route reads with
  \<open>data.get\<close>; the current time is an argument (\<open>stamp\<close> for
  \<open>strftime('%Y%m%d%H%M%S')\<close>, \<open>now\<close> for \<open>isoformat()\<close>), and so are the fresh
  \<open>uuid4()\<close> values. Where a file lands on disk, \<open>resolve_path\<close> resolves the joined
  path as the operating system does.
\<close>

section \<open>Python's int() on a request value\<close>

definition py_digit :: "char \<Rightarrow> bool" where
  "py_digit c = (CHR ''0'' \<le> c \<and> c \<le> CHR ''9'')"

text \<open>The digits of a decimal literal: digits, single underscores between digits.\<close>

definition int_body :: "string \<Rightarrow> bool" where
  "int_body s = (s \<noteq> [] \<and> py_digit (hd s) \<and> py_digit (last s)
                 \<and> list_all (\<lambda>c. py_digit c \<or> c = CHR ''_'') s \<and> \<not> sublist ''__'' s)"

definition digits_value :: "string \<Rightarrow> int" where
  "digits_value s = fold (\<lambda>c n. 10 * n + int (of_char c - 48)) (filter py_digit s) 0"

text \<open>\<open>int(s)\<close> for a string: surrounding whitespace, an optional sign, the digits. Python
  also accepts the decimal digits of other scripts; they are not modelled (such a value is
  rejected here, so the route falls back to its defaults).\<close>

definition py_int_str :: "string \<Rightarrow> int option" where
  "py_int_str s =
     (case py_strip s of
        [] \<Rightarrow> None
      | c # u \<Rightarrow>
          if c = CHR ''-'' then (if int_body u then Some (- digits_value u) else None)
          else if c = CHR ''+'' then (if int_body u then Some (digits_value u) else None)
          else if int_body (c # u) then Some (digits_value (c # u)) else None)"

definition py_int :: "json \<Rightarrow> error + int" where
  "py_int v =
     (case v of
        JNum n \<Rightarrow> Inr n
      | JBool b \<Rightarrow> Inr (if b then 1 else 0)
      | JStr s \<Rightarrow> (case py_int_str s of Some n \<Rightarrow> Inr n | None \<Rightarrow> Inl (Value_error ''int''))
      | _ \<Rightarrow> Inl (Type_error ''int''))"

text \<open>The chunk settings of \<open>create_vector_db_from_multiple\<close>: both converted with
  \<open>int()\<close> (either failing resets both to 300 and 50), then the size raised to 100, the
  overlap raised to 0 and, when not below the size, halved from the size.\<close>

definition chunk_params :: "json \<Rightarrow> json \<Rightarrow> int \<times> int" where
  "chunk_params cs co =
     (let (a, b) = (case (py_int cs, py_int co) of (Inr a, Inr b) \<Rightarrow> (a, b) | _ \<Rightarrow> (300, 50));
          a1 = (if a < 100 then 100 else a);
          b1 = (if b < 0 then 0 else b)
      in (a1, if b1 \<ge> a1 then a1 div 2 else b1))"

section \<open>create_vector_db_from_multiple\<close>

text \<open>Iterating a request value: a list's items, a string's characters, an object's keys;
  anything else raises.\<close>

function cp_split :: "string \<Rightarrow> string list" where
  "cp_split [] = []"
| "cp_split (c # cs) = (c # takeWhile utf8_cont cs) # cp_split (dropWhile utf8_cont cs)"
  by pat_completeness auto
termination by (relation "measure length") (auto simp: le_imp_less_Suc length_dropWhile_le)

definition py_iter :: "json \<Rightarrow> error + json list" where
  "py_iter v =
     (case v of
        JList xs \<Rightarrow> Inr xs
      | JStr s \<Rightarrow> Inr (map JStr (cp_split s))
      | JObj obj \<Rightarrow> Inr (map (\<lambda>(k, _). JStr k) obj)
      | _ \<Rightarrow> Inl (Type_error ''not iterable''))"

text \<open>The loop over the requested files: a name that is not a string raises in
  \<open>os.path.join\<close> (500), a missing file answers 404, a failing loader 500; with a document
  name, every loaded document gets it as \<open>custom_name\<close> and its \<open>original_filename\<close>.\<close>

fun load_for_create ::
  "dm_services \<Rightarrow> (string, string) pydict \<Rightarrow> json \<Rightarrow> json \<Rightarrow> json list \<Rightarrow> nat + sdoc list" where
  "load_for_create svc fs pdf dn [] = Inr []"
| "load_for_create svc fs pdf dn (x # xs) =
     (case x of
        JStr f \<Rightarrow>
          (let path = path_join upload_folder f
           in case dict_get fs path of
                None \<Rightarrow> Inl 404
              | Some content \<Rightarrow>
                  (case get_loader_for_file path pdf of
                     Inl e \<Rightarrow> Inl 500
                   | Inr l \<Rightarrow>
                       (case load_docs svc l path content of
                          Inl e \<Rightarrow> Inl 500
                        | Inr docs \<Rightarrow>
                            (let docs' = (if json_truthy dn then map (tag_doc dn (restore_filename f)) docs else docs)
                             in case load_for_create svc fs pdf dn xs of
                                  Inl c \<Rightarrow> Inl c
                                | Inr later \<Rightarrow> Inr (docs' @ later)))))
      | _ \<Rightarrow> Inl 500)"

text \<open>The metadata entry of a new corpus.\<close>

definition new_db_entry :: "json \<Rightarrow> string \<Rightarrow> int \<Rightarrow> int \<Rightarrow> json \<Rightarrow> json \<Rightarrow> json" where
  "new_db_entry name now cs co cat dn =
     JObj [(''display_name'', name), (''created_at'', JStr now), (''chunk_size'', JNum cs),
           (''chunk_overlap'', JNum co), (''category'', cat), (''document_name'', dn)]"

definition db_id_of_stamp :: "string \<Rightarrow> string" where
  "db_id_of_stamp stamp = vector_db_folder @ ''db_'' @ stamp"

definition original_label :: string where
  "original_label = map char_of [0xEC, 0x9B, 0x90, 0xEB, 0xB3, 0xB8, 0x20, 0xED, 0x8C, 0x8C, 0xEC, 0x9D, 0xBC, 0xEB, 0xAA, 0x85 :: nat]"

definition create_vector_db_from_multiple ::
  "dm_services \<Rightarrow> (string, json) pydict \<Rightarrow> string \<Rightarrow> string \<Rightarrow> (nat \<Rightarrow> string) \<Rightarrow> dm_state \<Rightarrow> dm_resp \<times> dm_state" where
  "create_vector_db_from_multiple svc data stamp now uuid st =
     (let files = meta_get data ''storage_filenames'' (JList []);
          name = meta_get data ''db_name'' JNull;
          dn = meta_get data ''document_name'' (JStr []);
          cat = meta_get data ''category'' (JStr etc_category);
          pdf = meta_get data ''pdf_loader'' (JStr ''pdfplumber'');
          (cs, co) = chunk_params (meta_get data ''chunk_size'' (JNum 300)) (meta_get data ''chunk_overlap'' (JNum 50))
      in if \<not> json_truthy files \<or> \<not> json_truthy name then (Resp_err 400, st)
         else case py_iter files of
                Inl e \<Rightarrow> (Resp_err 500, st)
              | Inr names \<Rightarrow>
                  (case load_for_create svc (dm_files st) pdf dn names of
                     Inl code \<Rightarrow> (Resp_err code, st)
                   | Inr [] \<Rightarrow> (Resp_err 400, st)
                   | Inr docs \<Rightarrow>
                       (case split_docs svc (JNum cs) (JNum co) docs of
                          Inl e \<Rightarrow> (Resp_err 500, st)
                        | Inr chunks \<Rightarrow>
                            (case embed_docs svc chunks of
                               Some e \<Rightarrow> (Resp_err 500, st)
                             | None \<Rightarrow>
                                 (let db_id = db_id_of_stamp stamp;
                                      st1 = st\<lparr>dm_stores := dict_set (dm_stores st) db_id
                                                 (vs_from_documents (map uuid [0..<length chunks]) chunks)\<rparr>;
                                      md = load_db_metadata (dm_meta st1)
                                  in (Resp_ok (JObj [(''db_name'', name), (''db_id'', JStr db_id),
                                                     (''document_count'', JNum (int (length docs))),
                                                     (''chunk_count'', JNum (int (length chunks))),
                                                     (''chunk_size'', JNum cs), (''chunk_overlap'', JNum co),
                                                     (''category'', cat),
                                                     (''document_name'', if json_truthy dn then dn else JStr original_label)]),
                                      st1\<lparr>dm_meta := save_db_metadata (dict_set md db_id (new_db_entry name now cs co cat dn))\<rparr>))))))"

section \<open>delete_vector_db, get_db_info, remove_documents_from_db\<close>


definition get_db_info :: "string \<Rightarrow> dm_state \<Rightarrow> dm_resp" where
  "get_db_info db_id st =
     (if db_id = [] then Resp_err 400
      else if \<not> dict_mem db_id (dm_stores st) then Resp_err 404
      else (let info = meta_get (load_db_metadata (dm_meta st)) db_id (JObj [])
            in case info of
                 JObj obj \<Rightarrow>
                   Resp_ok (JObj [(''id'', JStr db_id),
                                  (''name'', meta_get obj ''display_name'' (JStr (str_replace vector_db_folder [] db_id))),
                                  (''category'', meta_get obj ''category'' (JStr etc_category)),
                                  (''chunk_size'', meta_get obj ''chunk_size'' (JNum 300)),
                                  (''chunk_overlap'', meta_get obj ''chunk_overlap'' (JNum 50)),
                                  (''created_at'', meta_get obj ''created_at'' (JStr [])),
                                  (''last_updated'', meta_get obj ''last_updated'' (meta_get obj ''created_at'' (JStr []))),
                                  (''document_count'', meta_get obj ''added_documents'' (JNum 0))])
               | _ \<Rightarrow> Resp_err 500))"

text \<open>\<open>remove_documents_from_db\<close> answers success without changing anything (the code notes
  that removal is not implemented).\<close>

definition remove_documents_from_db :: "string \<Rightarrow> json list \<Rightarrow> dm_state \<Rightarrow> dm_resp" where
  "remove_documents_from_db db_id doc_ids st =
     (if db_id = [] \<or> doc_ids = [] then Resp_err 400
      else if \<not> dict_mem db_id (dm_stores st) then Resp_err 404
      else (case json_get (meta_get (load_db_metadata (dm_meta st)) db_id (JObj [])) ''display_name''
                   (JStr (str_replace vector_db_folder [] db_id)) of
              Inl e \<Rightarrow> Resp_err 500
            | Inr dname \<Rightarrow> Resp_ok (JObj [(''display_name'', dname), (''count'', JNum (int (length doc_ids)))])))"

section \<open>Uploads\<close>

text \<open>The directory part of a path (\<open>os.path.dirname\<close> for a path without a trailing
  slash).\<close>

definition py_dirname :: "string \<Rightarrow> string" where
  "py_dirname p = rev (drop 1 (dropWhile (\<lambda>c. c \<noteq> CHR ''/'') (rev p)))"

text \<open>How the operating system resolves a relative path such as the one \<open>file.save\<close>
  opens (\<open>os.path.normpath\<close>, no symbolic links): the components between slashes, empty and
  \<open>.\<close> components dropped, \<open>..\<close> cancelling the component before it, and kept at the start
  of the path, where it leaves the working directory.\<close>

fun path_split :: "string \<Rightarrow> string list" where
  "path_split [] = [[]]"
| "path_split (c # cs) =
     (let r = path_split cs in if c = CHR ''/'' then [] # r else (c # hd r) # tl r)"

fun norm_parts :: "string list \<Rightarrow> string list \<Rightarrow> string list" where
  "norm_parts [] acc = rev acc"
| "norm_parts (x # xs) acc =
     (if x = [] \<or> x = ''.'' then norm_parts xs acc
      else if x = ''..'' \<and> acc \<noteq> [] \<and> hd acc \<noteq> ''..'' then norm_parts xs (tl acc)
      else norm_parts xs (x # acc))"

definition resolve_path :: "string \<Rightarrow> string list" where
  "resolve_path p = norm_parts (path_split p) []"

text \<open>\<open>upload_documents\<close>: the files of the form field \<open>documents[]\<close> (\<open>None\<close> when the
  field is absent) as (file name, content). An allowed file is saved under
  \<open>preserve_filename\<close> of its name, a later file overwriting an earlier one of the same name;
  \<open>file.save\<close> raises when the target's directory does not exist, and the route has no
  handler, so Flask answers 500 with the earlier files saved.\<close>

fun save_uploads ::
  "dm_services \<Rightarrow> (string \<times> string) list \<Rightarrow> (string, string) pydict \<Rightarrow> bool \<times> (string \<times> string) list \<times> (string, string) pydict" where
  "save_uploads svc [] fs = (True, [], fs)"
| "save_uploads svc ((n, c) # rest) fs =
     (if n \<noteq> [] \<and> allowed_file n
      then (let sn = preserve_filename n; path = path_join upload_folder sn
            in if is_dir svc (py_dirname path)
               then (case save_uploads svc rest (dict_set fs path c) of
                       (ok, up, fs') \<Rightarrow> (ok, (n, sn) # up, fs'))
               else (False, [], fs))
      else save_uploads svc rest fs)"

definition upload_documents :: "dm_services \<Rightarrow> (string \<times> string) list option \<Rightarrow> dm_state \<Rightarrow> dm_resp \<times> dm_state" where
  "upload_documents svc files st =
     (case files of
        None \<Rightarrow> (Resp_err 400, st)
      | Some fl \<Rightarrow>
          if fl = [] \<or> fst (hd fl) = [] then (Resp_err 400, st)
          else (case save_uploads svc fl (dm_files st) of
                  (False, up, fs') \<Rightarrow> (Resp_err 500, st\<lparr>dm_files := fs'\<rparr>)
                | (True, [], fs') \<Rightarrow> (Resp_err 400, st\<lparr>dm_files := fs'\<rparr>)
                | (True, up, fs') \<Rightarrow>
                    (Resp_ok (JObj [(''files'', JList (map (\<lambda>(on, sn). JObj [(''original_name'', JStr on), (''storage_name'', JStr sn)]) up))]),
                     st\<lparr>dm_files := fs'\<rparr>)))"

definition delete_document :: "string \<Rightarrow> dm_state \<Rightarrow> dm_resp \<times> dm_state" where
  "delete_document sn st =
     (if sn = [] then (Resp_err 400, st)
      else (let path = path_join upload_folder sn
            in if dict_mem path (dm_files st)
               then (Resp_ok (JObj [(''name'', JStr (restore_filename sn))]), st\<lparr>dm_files := dict_del (dm_files st) path\<rparr>)
               else (Resp_err 404, st)))"

section \<open>The document-manager page and the category list\<close>

text \<open>\<open>get_categories\<close>: \<open>get_all_categories()\<close> with the default category appended when
  missing.\<close>

definition get_categories :: "(string, json) pydict \<Rightarrow> string list" where
  "get_categories md =
     (let cs = get_all_categories md in if etc_category \<in> set cs then cs else cs @ [etc_category])"

definition default_db_label :: string where
  "default_db_label = map char_of [0xEA, 0xB8, 0xB0, 0xEB, 0xB3, 0xB8, 0x20, 0x44, 0x42 :: nat]"

text \<open>The uploads listed by the page: the names in \<open>data\<close> (files directly in the folder)
  with an allowed extension, as (storage name, display name).\<close>

definition upload_names :: "(string, string) pydict \<Rightarrow> string list" where
  "upload_names fs =
     [drop (length upload_folder + 1) p. p \<leftarrow> map fst fs,
        take (length upload_folder + 1) p = upload_folder @ ''/'' \<and> CHR ''/'' \<notin> set (drop (length upload_folder + 1) p)]"

definition page_documents :: "(string, string) pydict \<Rightarrow> (string \<times> string) list" where
  "page_documents fs = [(n, restore_filename n). n \<leftarrow> upload_names fs, CHR ''.'' \<in> set n \<and> allowed_file n]"

text \<open>One corpus of the page: every name of the working directory with the prefix (the
  page does not check that it is a directory), its display name (\<open>'gibon DB'\<close> when empty)
  and category; a non-object metadata entry raises.\<close>

definition page_db :: "(string, json) pydict \<Rightarrow> string \<Rightarrow> error + json" where
  "page_db md folder =
     (let info = meta_get md folder (JObj [])
      in case (json_get info ''display_name'' (JStr (db_suffix folder)), json_get info ''category'' (JStr etc_category)) of
           (Inr dname, Inr cat) \<Rightarrow>
             Inr (JObj [(''id'', JStr folder), (''name'', if json_truthy dname then dname else JStr default_db_label),
                        (''category'', cat)])
         | (Inl e, _) \<Rightarrow> Inl e
         | (_, Inl e) \<Rightarrow> Inl e)"

definition document_manager_page ::
  "(string \<times> bool) list \<Rightarrow> dm_state \<Rightarrow> error + (string \<times> string) list \<times> json list \<times> string list" where
  "document_manager_page listing st =
     (let md = load_db_metadata (dm_meta st)
      in case map_err (page_db md) [n. (n, d) \<leftarrow> listing, prefix vector_db_folder n] of
           Inl e \<Rightarrow> Inl e
         | Inr dbs \<Rightarrow> Inr (page_documents (dm_files st), dbs, get_categories md))"

section \<open>Requests for the examples\<close>

text \<open>A creation request for the upload \<open>c.txt\<close> of \<open>demo_dm_state\<close> under a display name.\<close>

definition demo_create_request :: "json \<Rightarrow> (string, json) pydict" where
  "demo_create_request name = [(''storage_filenames'', JList [JStr ''c.txt'']), (''db_name'', name)]"

section \<open>Lemmas\<close>

lemma create_success:
  "create_vector_db_from_multiple svc data stamp now uuid st = (Resp_ok r, st') \<Longrightarrow>
   \<exists>chunks name cs co cat dn.
      dm_stores st' = dict_set (dm_stores st) (db_id_of_stamp stamp) (vs_from_documents (map uuid [0..<length chunks]) chunks)
    \<and> dm_meta st' = save_db_metadata (dict_set (load_db_metadata (dm_meta st)) (db_id_of_stamp stamp) (new_db_entry name now cs co cat dn))
    \<and> dm_files st' = dm_files st
    \<and> (cs, co) = chunk_params (meta_get data ''chunk_size'' (JNum 300)) (meta_get data ''chunk_overlap'' (JNum 50))"
  by (auto simp: create_vector_db_from_multiple_def Let_def split: if_splits sum.splits list.splits option.splits prod.splits) blast+

lemma create_success_resp:
  "create_vector_db_from_multiple svc data stamp now uuid st = (Resp_ok r, st') \<Longrightarrow>
   \<exists>chunks name cs co cat dn dc dnr.
      dm_stores st' = dict_set (dm_stores st) (db_id_of_stamp stamp) (vs_from_documents (map uuid [0..<length chunks]) chunks)
    \<and> dm_meta st' = save_db_metadata (dict_set (load_db_metadata (dm_meta st)) (db_id_of_stamp stamp) (new_db_entry name now cs co cat dn))
    \<and> (cs, co) = chunk_params (meta_get data ''chunk_size'' (JNum 300)) (meta_get data ''chunk_overlap'' (JNum 50))
    \<and> r = JObj [(''db_name'', name), (''db_id'', JStr (db_id_of_stamp stamp)),
                (''document_count'', dc), (''chunk_count'', JNum (int (length chunks))),
                (''chunk_size'', JNum cs), (''chunk_overlap'', JNum co), (''category'', cat),
                (''document_name'', dnr)]"
  by (auto simp: create_vector_db_from_multiple_def Let_def split: if_splits sum.splits list.splits option.splits prod.splits) blast+

lemma allowed_extensions_lower: "\<forall>x \<in> set allowed_extensions. \<forall>c \<in> set x. CHR ''a'' \<le> c \<and> c \<le> CHR ''z''"
  by (simp add: allowed_extensions_def less_eq_char_def)

lemma allowed_ext_safe:
  assumes "ascii_lower e \<in> set allowed_extensions"
  shows "\<forall>c \<in> set e. url_safe_char c"
proof
  fix c assume c: "c \<in> set e"
  let ?f = "\<lambda>c. if CHR ''A'' \<le> c \<and> c \<le> CHR ''Z'' then char_of (of_char c + (32 :: nat)) else c"
  have "?f c \<in> set (ascii_lower e)" using c by (simp add: ascii_lower_def)
  then have "CHR ''a'' \<le> ?f c \<and> ?f c \<le> CHR ''z''" using assms allowed_extensions_lower by blast
  then show "url_safe_char c"
    by (auto simp: url_safe_char_def less_eq_char_def split: if_splits)
qed

lemma allowed_file_preserve: "allowed_file n \<Longrightarrow> allowed_file (preserve_filename n)"
proof -
  assume a: "allowed_file n"
  let ?e = "rev (takeWhile (\<lambda>c. c \<noteq> CHR ''.'') (rev n))"
  have dot: "CHR ''.'' \<in> set n" and l: "ascii_lower ?e \<in> set allowed_extensions"
    using a by (simp_all add: allowed_file_def)
  have "url_quote ?e = ?e" using allowed_ext_safe [OF l] by (rule url_quote_safe_id)
  then have "rev (takeWhile (\<lambda>c. c \<noteq> CHR ''.'') (rev (url_quote n))) = ?e" by (simp add: url_quote_ext)
  moreover have "CHR ''.'' \<in> set (url_quote n)" using dot url_quote_mem [of "CHR ''.''" n] by simp
  ultimately show ?thesis using l by (simp add: allowed_file_def preserve_filename_def)
qed

lemma upload_path:
  assumes "CHR ''/'' \<notin> set n"
  shows "path_join upload_folder (preserve_filename n) = upload_folder @ ''/'' @ preserve_filename n"
    and "py_dirname (upload_folder @ ''/'' @ preserve_filename n) = upload_folder"
proof -
  have ns: "CHR ''/'' \<notin> set (preserve_filename n)"
    using assms url_quote_mem [of "CHR ''/''" n] by (simp add: preserve_filename_def)
  then have "take 1 (preserve_filename n) \<noteq> ''/''" by (cases "preserve_filename n") auto
  then show "path_join upload_folder (preserve_filename n) = upload_folder @ ''/'' @ preserve_filename n"
    by (simp add: path_join_def upload_folder_def)
  have "dropWhile (\<lambda>c. c \<noteq> CHR ''/'') (rev (preserve_filename n) @ ''/atad'') = ''/atad''"
    using ns by (subst dropWhile_append2) auto
  then show "py_dirname (upload_folder @ ''/'' @ preserve_filename n) = upload_folder"
    by (simp add: py_dirname_def upload_folder_def)
qed

lemma path_split_ne [simp]: "path_split s \<noteq> []"
  by (induction s) (auto simp: Let_def)

lemma path_split_no_slash: "CHR ''/'' \<notin> set s \<Longrightarrow> path_split s = [s]"
  by (induction s) (auto simp: Let_def)

lemma path_split_slash: "path_split (a @ CHR ''/'' # b) = path_split a @ path_split b"
proof (induction a)
  case (Cons c a)
  then show ?case by (cases "path_split a") (auto simp: Let_def)
qed simp

lemma allowed_file_not_dots: "allowed_file x \<Longrightarrow> x \<noteq> [] \<and> x \<noteq> ''.'' \<and> x \<noteq> ''..''"
  by (auto simp: allowed_file_def allowed_extensions_def ascii_lower_def)

lemma allowed_file_prefix:
  assumes "CHR ''.'' \<in> set n"
  shows "allowed_file (p @ n) = allowed_file n"
proof -
  have "CHR ''.'' \<in> set (rev n)" "\<not> CHR ''.'' \<noteq> CHR ''.''" using assms by simp_all
  then have "takeWhile (\<lambda>c. c \<noteq> CHR ''.'') (rev n @ rev p) = takeWhile (\<lambda>c. c \<noteq> CHR ''.'') (rev n)"
    by (rule takeWhile_append1)
  then show ?thesis using assms by (simp add: allowed_file_def)
qed

lemmas create_demo_eval = dm_demo_eval demo_create_request_def create_vector_db_from_multiple_def chunk_params_def
  py_int_def py_iter_def db_id_of_stamp_def new_db_entry_def vector_db_folder_def etc_category_def

lemma create_demo_ok:
  "nm \<noteq> [] \<Longrightarrow> dm_files st = dm_files demo_dm_state \<Longrightarrow>
   \<exists>r st'. create_vector_db_from_multiple demo_dm_services (demo_create_request (JStr nm)) ''20250101000000'' now uuid st
           = (Resp_ok r, st')"
  by (simp add: create_demo_eval)

lemma db_id_not_categories: "db_id_of_stamp stamp \<noteq> categories_key"
  by (simp add: db_id_of_stamp_def vector_db_folder_def categories_key_def)

text \<open>\<open>allowed_file\<close> accepts the name \<open>.pdf\<close> (it looks at \<open>rsplit('.', 1)\<close>), but
  \<open>os.path.splitext\<close> sees no extension in it, so \<open>get_loader_for_file\<close> rejects the stored
  file.\<close>

lemma dotfile_accepted_not_loadable:
  "allowed_file ''.pdf'' \<and> (\<exists>e. get_loader_for_file (path_join upload_folder ''.pdf'') (JStr ''pdfplumber'') = Inl e)"
  by (simp add: allowed_file_def allowed_extensions_def ascii_lower_def get_loader_for_file_def path_join_def
                upload_folder_def py_splitext_ext_def py_basename_def)

section \<open>Properties\<close>

text \<open>C13 (two corpora created in the same second collide) The corpus id is the creation time
  to the second. When two creations succeed with the same time stamp, the second overwrites the
  first's store directory and metadata entry: the stores and the metadata are those of the
  second creation alone, and the first corpus is lost.\<close>

theorem create_same_stamp_overwrites:
  assumes "create_vector_db_from_multiple svc data1 stamp now1 uuid1 st = (Resp_ok r1, st1)"
      and "create_vector_db_from_multiple svc' data2 stamp now2 uuid2 st1 = (Resp_ok r2, st2)"
  shows "\<exists>s e. dm_stores st2 = dict_set (dm_stores st) (db_id_of_stamp stamp) s
             \<and> load_db_metadata (dm_meta st2) = dict_set (load_db_metadata (dm_meta st)) (db_id_of_stamp stamp) e"
proof -
  from create_success [OF assms(1)] obtain chunks1 name1 cs1 co1 cat1 dn1 where
    a: "dm_stores st1 = dict_set (dm_stores st) (db_id_of_stamp stamp) (vs_from_documents (map uuid1 [0..<length chunks1]) chunks1)"
    "dm_meta st1 = save_db_metadata (dict_set (load_db_metadata (dm_meta st)) (db_id_of_stamp stamp) (new_db_entry name1 now1 cs1 co1 cat1 dn1))"
    by blast
  from create_success [OF assms(2)] obtain chunks2 name2 cs2 co2 cat2 dn2 where
    b: "dm_stores st2 = dict_set (dm_stores st1) (db_id_of_stamp stamp) (vs_from_documents (map uuid2 [0..<length chunks2]) chunks2)"
    "dm_meta st2 = save_db_metadata (dict_set (load_db_metadata (dm_meta st1)) (db_id_of_stamp stamp) (new_db_entry name2 now2 cs2 co2 cat2 dn2))"
    by blast
  show ?thesis using a b by (simp add: load_save_set) blast
qed

theorem create_same_stamp_overwrites_witness:
  "\<exists>s e. dm_stores (snd (create_vector_db_from_multiple demo_dm_services (demo_create_request (JStr ''second''))
             ''20250101000000'' ''t2'' (\<lambda>n. ''v'') (snd (create_vector_db_from_multiple demo_dm_services
               (demo_create_request (JStr ''first'')) ''20250101000000'' ''t1'' (\<lambda>n. ''u'') demo_dm_state))))
           = dict_set (dm_stores demo_dm_state) (db_id_of_stamp ''20250101000000'') s
         \<and> load_db_metadata (dm_meta (snd (create_vector_db_from_multiple demo_dm_services (demo_create_request (JStr ''second''))
             ''20250101000000'' ''t2'' (\<lambda>n. ''v'') (snd (create_vector_db_from_multiple demo_dm_services
               (demo_create_request (JStr ''first'')) ''20250101000000'' ''t1'' (\<lambda>n. ''u'') demo_dm_state)))))
           = dict_set (load_db_metadata (dm_meta demo_dm_state)) (db_id_of_stamp ''20250101000000'') e"
proof -
  obtain r1 st1 where c1: "create_vector_db_from_multiple demo_dm_services (demo_create_request (JStr ''first''))
      ''20250101000000'' ''t1'' (\<lambda>n. ''u'') demo_dm_state = (Resp_ok r1, st1)"
    using create_demo_ok [of "''first''" demo_dm_state "''t1''" "\<lambda>n. ''u''"] by auto
  have f: "dm_files st1 = dm_files demo_dm_state" using create_success [OF c1] by auto
  obtain r2 st2 where c2: "create_vector_db_from_multiple demo_dm_services (demo_create_request (JStr ''second''))
      ''20250101000000'' ''t2'' (\<lambda>n. ''v'') st1 = (Resp_ok r2, st2)"
    using create_demo_ok [of "''second''" st1 "''t2''" "\<lambda>n. ''v''"] f by auto
  show ?thesis using create_same_stamp_overwrites [OF c1 c2] c1 c2 by simp
qed

text \<open>C35 (create_vector_db_from_multiple records the corpus it builds) With distinct fresh
  ids, a successful creation saves under the new id a well-formed store whose vectors
  \<open>0..n-1\<close> lead to the chunks, in order; the response reports that id and the number of
  chunks, and the response and the new metadata entry both carry the chunk settings normalised
  from the request.\<close>

theorem create_saves_searchable_store:
  assumes i: "inj uuid" and c: "create_vector_db_from_multiple svc data stamp now uuid st = (Resp_ok r, st')"
  shows "\<exists>chunks s name cs co cat dn. dict_get (dm_stores st') (db_id_of_stamp stamp) = Some s
           \<and> vs_wf s \<and> vs_ntotal s = length chunks \<and> vs_lookup s (map int [0..<length chunks]) = Inr chunks
           \<and> json_get r ''chunk_count'' JNull = Inr (JNum (int (length chunks)))
           \<and> json_get r ''db_id'' JNull = Inr (JStr (db_id_of_stamp stamp))
           \<and> (cs, co) = chunk_params (meta_get data ''chunk_size'' (JNum 300)) (meta_get data ''chunk_overlap'' (JNum 50))
           \<and> json_get r ''chunk_size'' JNull = Inr (JNum cs) \<and> json_get r ''chunk_overlap'' JNull = Inr (JNum co)
           \<and> dict_get (load_db_metadata (dm_meta st')) (db_id_of_stamp stamp)
               = Some (normalise_entry (db_id_of_stamp stamp) (new_db_entry name now cs co cat dn))"
proof -
  from create_success_resp [OF c] obtain chunks name cs co cat dn dc dnr where
    s: "dm_stores st' = dict_set (dm_stores st) (db_id_of_stamp stamp) (vs_from_documents (map uuid [0..<length chunks]) chunks)"
    and m: "dm_meta st' = save_db_metadata (dict_set (load_db_metadata (dm_meta st)) (db_id_of_stamp stamp) (new_db_entry name now cs co cat dn))"
    and p: "(cs, co) = chunk_params (meta_get data ''chunk_size'' (JNum 300)) (meta_get data ''chunk_overlap'' (JNum 50))"
    and r: "r = JObj [(''db_name'', name), (''db_id'', JStr (db_id_of_stamp stamp)),
                (''document_count'', dc), (''chunk_count'', JNum (int (length chunks))),
                (''chunk_size'', JNum cs), (''chunk_overlap'', JNum co), (''category'', cat),
                (''document_name'', dnr)]"
    by blast
  let ?ids = "map uuid [0..<length chunks]"
  have di: "distinct ?ids" by (simp add: distinct_map inj_on_subset [OF i subset_UNIV])
  have len: "length ?ids = length chunks" by simp
  have "vs_wf (vs_from_documents ?ids chunks)" using vs_from_documents_wf [OF di len] .
  moreover have "vs_lookup (vs_from_documents ?ids chunks) (map int [0..<length chunks]) = Inr chunks"
    using vs_from_documents_lookup [OF di len] .
  moreover have "dict_get (load_db_metadata (dm_meta st')) (db_id_of_stamp stamp)
                 = Some (normalise_entry (db_id_of_stamp stamp) (new_db_entry name now cs co cat dn))"
    by (simp add: m load_save_set dict_get_set)
  moreover have "vs_ntotal (vs_from_documents ?ids chunks) = length chunks" by (simp add: vs_from_documents_def)
  moreover have "dict_get (dm_stores st') (db_id_of_stamp stamp) = Some (vs_from_documents ?ids chunks)"
    by (simp add: s dict_get_set)
  moreover have "json_get r ''chunk_count'' JNull = Inr (JNum (int (length chunks)))
                 \<and> json_get r ''db_id'' JNull = Inr (JStr (db_id_of_stamp stamp))
                 \<and> json_get r ''chunk_size'' JNull = Inr (JNum cs) \<and> json_get r ''chunk_overlap'' JNull = Inr (JNum co)"
    by (simp add: r json_get_def dict_get_def)
  ultimately show ?thesis using p by blast
qed

theorem create_saves_searchable_store_witness:
  "\<exists>r st'. create_vector_db_from_multiple demo_dm_services (demo_create_request (JStr ''first''))
             ''20250101000000'' ''t'' (\<lambda>n. CHR ''u'' # replicate n CHR ''u'') demo_dm_state = (Resp_ok r, st')
     \<and> (\<exists>chunks s name cs co cat dn. dict_get (dm_stores st') (db_id_of_stamp ''20250101000000'') = Some s
           \<and> vs_wf s \<and> vs_ntotal s = length chunks \<and> vs_lookup s (map int [0..<length chunks]) = Inr chunks
           \<and> json_get r ''chunk_count'' JNull = Inr (JNum (int (length chunks)))
           \<and> json_get r ''db_id'' JNull = Inr (JStr (db_id_of_stamp ''20250101000000''))
           \<and> (cs, co) = chunk_params (meta_get (demo_create_request (JStr ''first'')) ''chunk_size'' (JNum 300))
                                     (meta_get (demo_create_request (JStr ''first'')) ''chunk_overlap'' (JNum 50))
           \<and> json_get r ''chunk_size'' JNull = Inr (JNum cs) \<and> json_get r ''chunk_overlap'' JNull = Inr (JNum co)
           \<and> dict_get (load_db_metadata (dm_meta st')) (db_id_of_stamp ''20250101000000'')
               = Some (normalise_entry (db_id_of_stamp ''20250101000000'') (new_db_entry name ''t'' cs co cat dn)))"
proof -
  have i: "inj (\<lambda>n::nat. CHR ''u'' # replicate n CHR ''u'')" by (simp add: inj_def)
  obtain r st' where c: "create_vector_db_from_multiple demo_dm_services (demo_create_request (JStr ''first''))
          ''20250101000000'' ''t'' (\<lambda>n. CHR ''u'' # replicate n CHR ''u'') demo_dm_state = (Resp_ok r, st')"
    using create_demo_ok [of "''first''" demo_dm_state "''t''" "\<lambda>n. CHR ''u'' # replicate n CHR ''u''"] by auto
  show ?thesis using c create_saves_searchable_store [OF i c] by blast
qed

text \<open>C36 (chunk settings are normalised) Whatever the request carries, the chunk size and
  overlap used for a new corpus satisfy \<open>100 \<le> size\<close> and \<open>0 \<le> overlap < size\<close>.\<close>

theorem chunk_params_bounds:
  "chunk_params cs co = (a, b) \<Longrightarrow> 100 \<le> a \<and> 0 \<le> b \<and> b < a"
  by (auto simp: chunk_params_def Let_def split: prod.splits sum.splits if_splits)

theorem chunk_params_bounds_witness:
  "let (a, b) = chunk_params (JStr '' 120'') (JNum 200) in 100 \<le> a \<and> 0 \<le> b \<and> b < a"
  using chunk_params_bounds [of "JStr '' 120''" "JNum 200" "fst (chunk_params (JStr '' 120'') (JNum 200))"
                                "snd (chunk_params (JStr '' 120'') (JNum 200))"]
  by (simp add: case_prod_beta)

text \<open>C37 (an upload is listed under its original name) A single allowed file without a slash
  in its name, uploaded into an existing \<open>data\<close> folder, appears on the document-manager page
  with its stored name \<open>preserve_filename n\<close> and its display name \<open>n\<close>.\<close>

theorem upload_listed_roundtrip:
  assumes "n \<noteq> []" and "allowed_file n" and "CHR ''/'' \<notin> set n" and "is_dir svc upload_folder"
  shows "(preserve_filename n, n) \<in> set (page_documents (dm_files (snd (upload_documents svc (Some [(n, c)]) st))))"
proof -
  let ?sn = "preserve_filename n"
  let ?p = "upload_folder @ ''/'' @ ?sn"
  have fs: "dm_files (snd (upload_documents svc (Some [(n, c)]) st)) = dict_set (dm_files st) ?p c"
    using assms upload_path [OF assms(3)] by (simp add: upload_documents_def Let_def)
  have ns: "CHR ''/'' \<notin> set ?sn"
    using assms(3) url_quote_mem [of "CHR ''/''" n] by (simp add: preserve_filename_def)
  have "?p \<in> set (map fst (dict_set (dm_files st) ?p c))"
    using dict_mem_set [of ?p "dm_files st" ?p c] by (simp add: dict_mem_def dict_keys_def)
  then have "?sn \<in> set (upload_names (dict_set (dm_files st) ?p c))"
    using ns by (force simp: upload_names_def upload_folder_def)
  moreover have "CHR ''.'' \<in> set ?sn" "allowed_file ?sn"
    using assms(2) allowed_file_preserve [OF assms(2)] url_quote_mem [of "CHR ''.''" n]
    by (simp_all add: allowed_file_def preserve_filename_def)
  moreover have "restore_filename ?sn = n"
    by (simp add: restore_filename_def preserve_filename_def url_unquote_quote)
  ultimately show ?thesis unfolding fs page_documents_def by force
qed

theorem upload_listed_roundtrip_witness:
  "(preserve_filename ''notes.pdf'', ''notes.pdf'')
     \<in> set (page_documents (dm_files (snd (upload_documents demo_dm_services (Some [(''notes.pdf'', ''x'')]) demo_dm_state))))"
proof -
  have a: "allowed_file ''notes.pdf''" by (simp add: allowed_file_def allowed_extensions_def ascii_lower_def)
  have d: "is_dir demo_dm_services upload_folder" by (simp add: demo_dm_services_def)
  show ?thesis using upload_listed_roundtrip [OF _ a _ d] by simp
qed



text \<open>C28 (a new corpus reports no documents) \<open>get_db_info\<close> reports the metadata field
  \<open>added_documents\<close> as the document count, and \<open>create_vector_db_from_multiple\<close> never
  writes it: right after any successful creation the corpus is reported with 0 documents,
  whatever it holds.\<close>

theorem created_corpus_reports_no_documents:
  assumes c: "create_vector_db_from_multiple svc data stamp now uuid st = (Resp_ok r, st')"
  shows "\<exists>obj. get_db_info (db_id_of_stamp stamp) st' = Resp_ok (JObj obj)
              \<and> meta_get obj ''document_count'' JNull = JNum 0"
proof -
  let ?id = "db_id_of_stamp stamp"
  from create_success [OF c] obtain chunks name cs co cat dn where
    s: "dm_stores st' = dict_set (dm_stores st) ?id (vs_from_documents (map uuid [0..<length chunks]) chunks)"
    and m: "dm_meta st' = save_db_metadata (dict_set (load_db_metadata (dm_meta st)) ?id (new_db_entry name now cs co cat dn))"
    by blast
  let ?E = "fill_field ''category'' (JStr etc_category) (fill_field ''display_name'' (JStr (str_replace vector_db_folder [] ?id))
              [(''display_name'', name), (''created_at'', JStr now), (''chunk_size'', JNum cs),
               (''chunk_overlap'', JNum co), (''category'', cat), (''document_name'', dn)])"
  have n: "normalise_entry ?id (new_db_entry name now cs co cat dn) = JObj ?E"
    using db_id_not_categories [of stamp]
    by (simp only: normalise_entry_def new_db_entry_def if_False json.case)
  have e: "meta_get (load_db_metadata (dm_meta st')) ?id (JObj []) = JObj ?E"
    by (simp only: m load_save_set dict_get_set n meta_get_def fun_upd_same option.case)
  have "dict_get ?E ''added_documents'' = None"
    by (simp add: fill_field_other del: str_replace.simps) (simp add: dict_get_def)
  then have a: "meta_get ?E ''added_documents'' (JNum 0) = JNum 0" by (simp add: meta_get_def)
  have ne: "(?id = []) = False" by (simp add: db_id_of_stamp_def)
  have mem: "dict_mem ?id (dm_stores st')" by (simp add: s dict_mem_set)
  show ?thesis
    unfolding get_db_info_def Let_def ne e using mem a
    by (simp add: meta_get_def dict_get_def del: str_replace.simps)
qed

theorem created_corpus_reports_no_documents_witness:
  "\<exists>r st'. create_vector_db_from_multiple demo_dm_services (demo_create_request (JStr ''first''))
             ''20250101000000'' ''t'' (\<lambda>n. ''u'') demo_dm_state = (Resp_ok r, st')
     \<and> vs_docs (the (dict_get (dm_stores st') (db_id_of_stamp ''20250101000000''))) \<noteq> []
     \<and> (\<exists>obj. get_db_info (db_id_of_stamp ''20250101000000'') st' = Resp_ok (JObj obj)
              \<and> meta_get obj ''document_count'' JNull = JNum 0)"
proof -
  obtain r st' where c: "create_vector_db_from_multiple demo_dm_services (demo_create_request (JStr ''first''))
          ''20250101000000'' ''t'' (\<lambda>n. ''u'') demo_dm_state = (Resp_ok r, st')"
    using create_demo_ok [of "''first''" demo_dm_state "''t''" "\<lambda>n. ''u''"] by auto
  have "vs_docs (the (dict_get (dm_stores st') (db_id_of_stamp ''20250101000000''))) \<noteq> []"
    using c [symmetric] by (simp add: create_demo_eval)
  then show ?thesis using c created_corpus_reports_no_documents [OF c] by blast
qed

text \<open>C8 (an upload can be written outside the upload folder) \<open>preserve_filename\<close>
  keeps \<open>/\<close> and \<open>.\<close>, and \<open>upload_documents\<close> joins the result to \<open>UPLOAD_FOLDER\<close>
  without normalising it. For every allowed name \<open>n\<close> without a slash, a file uploaded as
  \<open>../n\<close> is saved (the response is a success) at a path that resolves to \<open>n\<close> in the
  application's working directory, outside \<open>data/\<close>.\<close>

theorem upload_traversal_escapes:
  assumes a: "allowed_file n" and ns: "CHR ''/'' \<notin> set n" and d: "is_dir svc (upload_folder @ ''/..'')"
  shows "\<exists>r. upload_documents svc (Some [(''../'' @ n, c)]) st
             = (Resp_ok r, st\<lparr>dm_files := dict_set (dm_files st) (upload_folder @ ''/../'' @ preserve_filename n) c\<rparr>)
         \<and> resolve_path (upload_folder @ ''/../'' @ preserve_filename n) = [preserve_filename n]"
proof -
  let ?pn = "preserve_filename n"
  have dot: "CHR ''.'' \<in> set n" using a by (simp add: allowed_file_def)
  have a': "allowed_file (''../'' @ n)" using a allowed_file_prefix [OF dot] by blast
  have "url_quote ''../'' = ''../''" by (simp add: url_quote_safe_id url_safe_char_def)
  then have pq: "preserve_filename (''../'' @ n) = ''../'' @ ?pn"
    using url_quote_append [of "''../''" n] by (simp add: preserve_filename_def)
  have pns: "CHR ''/'' \<notin> set ?pn" using ns url_quote_mem [of "CHR ''/''" n] by (simp add: preserve_filename_def)
  have pj: "path_join upload_folder (''../'' @ ?pn) = upload_folder @ ''/../'' @ ?pn"
    by (simp add: path_join_def upload_folder_def)
  have "dropWhile (\<lambda>c. c \<noteq> CHR ''/'') (rev ?pn @ ''/../atad'') = ''/../atad''"
    using pns by (subst dropWhile_append2) auto
  then have dn: "py_dirname (upload_folder @ ''/../'' @ ?pn) = upload_folder @ ''/..''"
    by (simp add: py_dirname_def upload_folder_def)
  have "save_uploads svc [(''../'' @ n, c)] (dm_files st)
        = (True, [(''../'' @ n, ''../'' @ ?pn)], dict_set (dm_files st) (upload_folder @ ''/../'' @ ?pn) c)"
    using a' pq pj dn d by (simp add: Let_def)
  then have up: "\<exists>r. upload_documents svc (Some [(''../'' @ n, c)]) st
             = (Resp_ok r, st\<lparr>dm_files := dict_set (dm_files st) (upload_folder @ ''/../'' @ ?pn) c\<rparr>)"
    by (simp add: upload_documents_def)
  have "path_split (upload_folder @ ''/../'' @ ?pn) = [''data'', ''..'', ?pn]"
    using path_split_slash [of "''data''" "''../'' @ ?pn"] path_split_slash [of "''..''" ?pn]
      path_split_no_slash [OF pns] by (simp add: upload_folder_def)
  moreover have "?pn \<noteq> [] \<and> ?pn \<noteq> ''.'' \<and> ?pn \<noteq> ''..''"
    using allowed_file_not_dots [OF allowed_file_preserve [OF a]] .
  ultimately have "resolve_path (upload_folder @ ''/../'' @ ?pn) = [?pn]"
    by (simp add: resolve_path_def)
  with up show ?thesis by blast
qed

theorem upload_traversal_escapes_witness:
  "\<exists>r. upload_documents (demo_dm_services\<lparr>is_dir := \<lambda>p. True\<rparr>) (Some [(''../notes.pdf'', ''x'')]) demo_dm_state
        = (Resp_ok r, demo_dm_state\<lparr>dm_files := dict_set (dm_files demo_dm_state) ''data/../notes.pdf'' ''x''\<rparr>)
   \<and> resolve_path ''data/../notes.pdf'' = [''notes.pdf'']"
proof -
  have a: "allowed_file ''notes.pdf''" by (simp add: allowed_file_def allowed_extensions_def ascii_lower_def)
  have ns: "CHR ''/'' \<notin> set ''notes.pdf''" by simp
  have d: "is_dir (demo_dm_services\<lparr>is_dir := \<lambda>p. True\<rparr>) (upload_folder @ ''/..'')" by simp
  have p: "preserve_filename ''notes.pdf'' = ''notes.pdf''"
    by (simp add: preserve_filename_def url_quote_safe_id url_safe_char_def)
  show ?thesis using upload_traversal_escapes [OF a ns d, where c = "''x''" and st = demo_dm_state] p
    by (simp add: upload_folder_def)
qed

end
